(* ===== verification/Prelude.thy ===== *)
theory Prelude
  imports Main "HOL-Library.Word" "HOL-Library.Signed_Division"
begin

text \<open>
  Shared base of the development: the integer types of the C code, checked C \<open>int\<close>
  arithmetic, array accesses that can leave their bounds, the little-endian images of
  machine integers, and a small interface (locale \<open>codec\<close>) for a decoder that inverts an
  encoder on a byte stream.

  Conventions used by every theory:
  \<^item> \<open>unsigned int\<close> and \<open>unsigned long long\<close> are \<open>u32\<close> and \<open>u64\<close>, whose arithmetic wraps;
  \<^item> \<open>int\<close> is HOL's \<open>int\<close>, and an operation that can leave the range of a 32-bit \<open>int\<close> or
    divide by zero is one of \<open>cadd\<close>, \<open>csub\<close>, \<open>cmul\<close>, \<open>cdiv\<close>, \<open>cmod\<close>, with \<open>None\<close> for the
    undefined case;
  \<^item> an access outside an array is \<open>None\<close>, never an unspecified value.
\<close>

section \<open>Types\<close>

type_synonym byte = "8 word"
type_synonym u16 = "16 word"
type_synonym u32 = "32 word"
type_synonym u64 = "64 word"

text \<open>A pointer result: \<open>NULL\<close> or a pointer to a value.\<close>

datatype 'a ptr = Null | Ptr 'a

section \<open>Checked integer arithmetic\<close>

named_theorems cint_defs \<open>definitions of the checked C integer operations\<close>

definition int_ok :: "int \<Rightarrow> bool" where
  [cint_defs]: "int_ok x \<longleftrightarrow> - (2 ^ 31) \<le> x \<and> x < 2 ^ 31"

definition cint :: "int \<Rightarrow> int option" where
  [cint_defs]: "cint x = (if int_ok x then Some x else None)"

definition cadd :: "int \<Rightarrow> int \<Rightarrow> int option" where
  [cint_defs]: "cadd a b = cint (a + b)"

definition csub :: "int \<Rightarrow> int \<Rightarrow> int option" where
  [cint_defs]: "csub a b = cint (a - b)"

definition cmul :: "int \<Rightarrow> int \<Rightarrow> int option" where
  [cint_defs]: "cmul a b = cint (a * b)"

text \<open>Division truncates towards zero; a zero divisor traps.\<close>

definition cdiv :: "int \<Rightarrow> int \<Rightarrow> int option" where
  [cint_defs]: "cdiv a b = (if b = 0 then None else cint (a sdiv b))"

definition cmod :: "int \<Rightarrow> int \<Rightarrow> int option" where
  [cint_defs]: "cmod a b = (if b = 0 then None else cint (a smod b))"

lemma int_ok_nonneg: "0 \<le> x \<Longrightarrow> x < 2 ^ 31 \<Longrightarrow> int_ok x"
  by (simp add: int_ok_def)

text \<open>The conversions between \<open>int\<close> and \<open>unsigned int\<close>.\<close>

definition to_u32 :: "int \<Rightarrow> u32" where
  "to_u32 x = word_of_int x"

definition to_int32 :: "u32 \<Rightarrow> int" where
  "to_int32 w = sint w"

lemma sdiv_nonneg: "0 \<le> a \<Longrightarrow> 0 < b \<Longrightarrow> (a::int) sdiv b = a div b"
  by (auto simp: signed_divide_int_def sgn_if)

lemma smod_nonneg: "0 \<le> a \<Longrightarrow> 0 < b \<Longrightarrow> (a::int) smod b = a mod b"
  by (cases "a = 0") (auto simp: signed_modulo_int_def sgn_if)

lemma cadd_Some [simp]: "int_ok (a + b) \<Longrightarrow> cadd a b = Some (a + b)"
  by (simp add: cadd_def cint_def)

lemma csub_Some [simp]: "int_ok (a - b) \<Longrightarrow> csub a b = Some (a - b)"
  by (simp add: csub_def cint_def)

lemma cmul_Some [simp]: "int_ok (a * b) \<Longrightarrow> cmul a b = Some (a * b)"
  by (simp add: cmul_def cint_def)

lemma cmod_Some [simp]:
  assumes "0 \<le> a" "0 < b" "int_ok b"
  shows "cmod a b = Some (a mod b)"
proof -
  have "0 \<le> a mod b" "a mod b < b" using assms by simp_all
  then have "int_ok (a mod b)" using assms(3) by (simp add: int_ok_def)
  then show ?thesis using assms by (simp add: cmod_def cint_def smod_nonneg)
qed

lemma cdiv_Some [simp]:
  assumes "0 \<le> a" "0 < b" "int_ok a"
  shows "cdiv a b = Some (a div b)"
proof -
  have "0 \<le> a div b" using assms by (simp add: pos_imp_zdiv_nonneg_iff)
  moreover have "a div b \<le> a"
    using assms div_by_1[of a] zdiv_mono2[of a 1 b] by simp
  ultimately have "int_ok (a div b)" using assms(3) by (auto simp: int_ok_def)
  then show ?thesis using assms by (simp add: cdiv_def cint_def sdiv_nonneg)
qed

lemma to_u32_to_int32 [simp]: "to_u32 (to_int32 w) = w"
  by (simp add: to_u32_def to_int32_def)

lemma to_int32_to_u32: "int_ok x \<Longrightarrow> to_int32 (to_u32 x) = x"
  unfolding to_u32_def to_int32_def int_ok_def
  by (simp add: sint_sbintrunc' signed_take_bit_int_eq_self)

lemma unat_to_u32: "0 \<le> x \<Longrightarrow> x < 2 ^ 32 \<Longrightarrow> unat (to_u32 x) = nat x"
  by (simp add: to_u32_def unat_eq_nat_uint uint_word_of_int)

section \<open>Array accesses\<close>

definition in_arr :: "'a list \<Rightarrow> int \<Rightarrow> bool" where
  "in_arr xs i \<longleftrightarrow> 0 \<le> i \<and> i < int (length xs)"

definition arr_get :: "'a list \<Rightarrow> int \<Rightarrow> 'a option" where
  "arr_get xs i = (if in_arr xs i then Some (xs ! nat i) else None)"

definition arr_set :: "'a list \<Rightarrow> int \<Rightarrow> 'a \<Rightarrow> 'a list option" where
  "arr_set xs i x = (if in_arr xs i then Some (xs[nat i := x]) else None)"

lemma arr_get_Some [simp]: "in_arr xs i \<Longrightarrow> arr_get xs i = Some (xs ! nat i)"
  by (simp add: arr_get_def)

lemma arr_set_Some [simp]: "in_arr xs i \<Longrightarrow> arr_set xs i x = Some (xs[nat i := x])"
  by (simp add: arr_set_def)

lemma arr_get_of_nat [simp]: "n < length xs \<Longrightarrow> arr_get xs (int n) = Some (xs ! n)"
  by (simp add: arr_get_def in_arr_def)

lemma arr_get_eq_Some: "arr_get xs i = Some y \<longleftrightarrow> in_arr xs i \<and> y = xs ! nat i"
  by (auto simp: arr_get_def)

lemma arr_set_eq_Some: "arr_set xs i x = Some ys \<longleftrightarrow> in_arr xs i \<and> ys = xs[nat i := x]"
  by (auto simp: arr_set_def)

lemma in_arr_nat [simp]: "in_arr xs i \<Longrightarrow> nat i < length xs"
  by (auto simp: in_arr_def)

lemma in_arr_update [simp]: "in_arr (xs[j := y]) i = in_arr xs i"
  by (simp add: in_arr_def)

text \<open>An update that keeps the field \<open>f\<close> of the overwritten element keeps it everywhere.\<close>

lemma nth_update_field: "f y = f (xs ! i) \<Longrightarrow> f (xs[i := y] ! j) = f (xs ! j)"
  by (cases "i = j"; cases "i < length xs") (auto simp: list_update_beyond)

lemma arr_set_length: "arr_set xs i x = Some ys \<Longrightarrow> length ys = length xs"
  by (auto simp: arr_set_eq_Some)

section \<open>Little-endian images\<close>

fun le_enc :: "nat \<Rightarrow> nat \<Rightarrow> byte list" where
  "le_enc 0 x = []"
| "le_enc (Suc n) x = word_of_nat (x mod 256) # le_enc n (x div 256)"

fun le_dec :: "byte list \<Rightarrow> nat" where
  "le_dec [] = 0"
| "le_dec (b # bs) = unat b + 256 * le_dec bs"

text \<open>The bytes a little-endian machine stores for a 16-, 32- or 64-bit value.\<close>

definition le16 :: "u16 \<Rightarrow> byte list" where
  "le16 w = le_enc 2 (unat w)"

definition le32 :: "u32 \<Rightarrow> byte list" where
  "le32 w = le_enc 4 (unat w)"

definition le64 :: "u64 \<Rightarrow> byte list" where
  "le64 w = le_enc 8 (unat w)"

lemma length_le_enc [simp]: "length (le_enc n x) = n"
  by (induction n arbitrary: x) auto

lemma length_le [simp]:
  "length (le16 a) = 2" "length (le32 b) = 4" "length (le64 c) = 8"
  by (simp_all add: le16_def le32_def le64_def)

lemma le_dec_enc: "le_dec (le_enc n x) = x mod 256 ^ n"
proof (induction n arbitrary: x)
  case 0
  then show ?case by simp
next
  case (Suc n)
  have "unat (word_of_nat (x mod 256) :: byte) = x mod 256"
    by (simp add: unat_of_nat)
  with Suc show ?case by (simp add: mod_mult2_eq)
qed

lemma le_dec_bound: "le_dec bs < 256 ^ length bs"
proof (induction bs)
  case Nil
  then show ?case by simp
next
  case (Cons b bs)
  have "unat b < 256" using unsigned_less[of b] by simp
  then show ?case using Cons by simp
qed

lemma le_enc_dec: "le_enc (length bs) (le_dec bs) = bs"
proof (induction bs)
  case Nil
  then show ?case by simp
next
  case (Cons b bs)
  have "unat b < 256" using unsigned_less[of b] by simp
  then show ?case using Cons by simp
qed

text \<open>
  \<open>freadle n\<close> of \<^verbatim>\<open>utils.c\<close> on a little-endian host: one \<open>n\<close>-byte item, all of it or failure.
\<close>

definition freadle :: "nat \<Rightarrow> byte list \<Rightarrow> (byte list \<times> byte list) option" where
  "freadle n bs = (if n \<le> length bs then Some (take n bs, drop n bs) else None)"

lemma freadle_append [simp]:
  "length xs = n \<Longrightarrow> freadle n (xs @ rest) = Some (xs, rest)"
  by (simp add: freadle_def)

definition get_le16 :: "byte list \<Rightarrow> (u16 \<times> byte list) option" where
  "get_le16 bs = map_option (\<lambda>(x, r). (word_of_nat (le_dec x), r)) (freadle 2 bs)"

definition get_le32 :: "byte list \<Rightarrow> (u32 \<times> byte list) option" where
  "get_le32 bs = map_option (\<lambda>(x, r). (word_of_nat (le_dec x), r)) (freadle 4 bs)"

definition get_le64 :: "byte list \<Rightarrow> (u64 \<times> byte list) option" where
  "get_le64 bs = map_option (\<lambda>(x, r). (word_of_nat (le_dec x), r)) (freadle 8 bs)"

section \<open>Decoding what was encoded: the codec interface\<close>

text \<open>\<open>dec_many dec n\<close> decodes \<open>n\<close> items one after the other.\<close>

fun dec_many :: "(byte list \<Rightarrow> ('a \<times> byte list) option) \<Rightarrow> nat \<Rightarrow> byte list
    \<Rightarrow> ('a list \<times> byte list) option" where
  "dec_many dec 0 bs = Some ([], bs)"
| "dec_many dec (Suc n) bs =
     (case dec bs of None \<Rightarrow> None
      | Some (x, r) \<Rightarrow> map_option (\<lambda>(xs, r'). (x # xs, r')) (dec_many dec n r))"

text \<open>
  A codec: on the values satisfying \<open>ok\<close>, the decoder recovers the value and leaves
  exactly the bytes that follow its image.
\<close>

locale codec =
  fixes enc :: "'a \<Rightarrow> byte list"
    and dec :: "byte list \<Rightarrow> ('a \<times> byte list) option"
    and ok :: "'a \<Rightarrow> bool"
  assumes dec_enc: "ok x \<Longrightarrow> dec (enc x @ rest) = Some (x, rest)"
begin

lemma dec_enc_end: "ok x \<Longrightarrow> dec (enc x) = Some (x, [])"
  using dec_enc[of x "[]"] by simp

lemma enc_inj: "ok x \<Longrightarrow> ok y \<Longrightarrow> enc x = enc y \<Longrightarrow> x = y"
  by (metis dec_enc_end fst_conv option.inject)

lemma enc_prefix_free: "ok x \<Longrightarrow> ok y \<Longrightarrow> enc x @ r = enc y @ s \<Longrightarrow> x = y \<and> r = s"
  by (metis dec_enc prod.inject option.inject)

lemma dec_many_enc:
  "(\<And>x. x \<in> set xs \<Longrightarrow> ok x) \<Longrightarrow>
   dec_many dec (length xs) (concat (map enc xs) @ rest) = Some (xs, rest)"
  by (induction xs) (auto simp: dec_enc)

end

lemma word_of_nat_le_dec_enc:
  assumes "256 ^ n = (2::nat) ^ LENGTH('a::len)"
  shows "(word_of_nat (le_dec (le_enc n (unat (w :: 'a word)))) :: 'a word) = w"
proof -
  have "unat w < 256 ^ n" using unsigned_less[of w] assms by simp
  then show ?thesis by (simp add: le_dec_enc)
qed

interpretation le16: codec le16 get_le16 "\<lambda>_. True"
proof
  fix x :: u16 and rest
  show "get_le16 (le16 x @ rest) = Some (x, rest)"
    using word_of_nat_le_dec_enc[of 2 x] by (simp add: get_le16_def le16_def)
qed

interpretation le32: codec le32 get_le32 "\<lambda>_. True"
proof
  fix x :: u32 and rest
  show "get_le32 (le32 x @ rest) = Some (x, rest)"
    using word_of_nat_le_dec_enc[of 4 x] by (simp add: get_le32_def le32_def)
qed

interpretation le64: codec le64 get_le64 "\<lambda>_. True"
proof
  fix x :: u64 and rest
  show "get_le64 (le64 x @ rest) = Some (x, rest)"
    using word_of_nat_le_dec_enc[of 8 x] by (simp add: get_le64_def le64_def)
qed

end
