(* ===== verification/Rand.thy ===== *)
theory Rand
  imports Prelude "HOL-Library.FuncSet"
begin

unbundle bit_operations_syntax

text \<open>
  \<^verbatim>\<open>rand.c\<close>: \<open>gen_rand32\<close>, rejection sampling over \<^verbatim>\<open>/dev/urandom\<close>. The device is a parameter: what
  \<open>open\<close> answers, and what a \<open>read(fd, &ret, 4)\<close> leaves in \<open>ret\<close> (given what was there before, so a
  failed or short read is covered too). The function-static descriptor \<open>fd\<close> and the initial,
  indeterminate contents of \<open>ret\<close> are explicit arguments.
\<close>

record 'w rng =
  rng_open :: "'w \<Rightarrow> int \<times> 'w"
  rng_read :: "int \<Rightarrow> u32 \<Rightarrow> 'w \<Rightarrow> u32 \<times> 'w"

text \<open>The \<open>do \<dots> while (ret > max)\<close> loop. It may run forever, hence \<open>None\<close>.\<close>

partial_function (option) gen_rand32_loop ::
  "'w rng \<Rightarrow> u32 \<Rightarrow> u32 \<Rightarrow> int \<Rightarrow> u32 \<Rightarrow> 'w \<Rightarrow> (u32 \<times> 'w) option" where
  "gen_rand32_loop g msk mx fd ret w =
     (let (raw, w') = rng_read g fd ret w; ret' = raw AND msk
      in if mx < ret' then gen_rand32_loop g msk mx fd ret' w' else Some (ret', w'))"

definition gen_rand32 ::
  "'w rng \<Rightarrow> u32 \<Rightarrow> u32 \<Rightarrow> u32 \<Rightarrow> int \<Rightarrow> 'w \<Rightarrow> (u32 \<times> int \<times> 'w) option" where
  "gen_rand32 g msk mx ret0 fd w =
     (let (fd', w') = (if fd = 0 then rng_open g w else (fd, w))
      in if fd' = -1 then Some (to_u32 (-1), fd', w')
         else map_option (\<lambda>(r, w''). (r, fd', w'')) (gen_rand32_loop g msk mx fd' ret0 w'))"

declare gen_rand32_loop.simps [code]

text \<open>The device as an endless sequence of words: the world is what is still to be read.\<close>

definition stream_rng :: "int \<Rightarrow> (nat \<Rightarrow> u32) rng" where
  "stream_rng fd =
     \<lparr>rng_open = (\<lambda>w. (fd, w)), rng_read = (\<lambda>_ _ w. (w 0, \<lambda>n. w (Suc n)))\<rparr>"

section \<open>The loop\<close>

lemma gen_rand32_loop_bound:
  assumes "gen_rand32_loop g msk mx fd ret w = Some (r, w')"
  shows "r \<le> mx \<and> r AND msk = r"
proof -
  have "case x of (r, w') \<Rightarrow> r \<le> mx \<and> r AND msk = r"
    if "gen_rand32_loop g msk mx fd ret w = Some x" for x
  proof (rule gen_rand32_loop.raw_induct
      [where P = "\<lambda>g msk mx fd ret w (r, w'). r \<le> mx \<and> r AND msk = r", OF _ that])
    fix f and g :: "'a rng" and msk mx fd ret w y
    assume IH: "\<And>g msk mx fd ret w y. f g msk mx fd ret w = Some y \<Longrightarrow>
        (case y of (r, w') \<Rightarrow> r \<le> mx \<and> r AND msk = r)"
      and eq: "(let (raw, w') = rng_read g fd ret w; ret' = raw AND msk
        in if mx < ret' then f g msk mx fd ret' w' else Some (ret', w')) = Some y"
    obtain raw w1 where rd: "rng_read g fd ret w = (raw, w1)" by force
    show "case y of (r, w') \<Rightarrow> r \<le> mx \<and> r AND msk = r"
    proof (cases "mx < raw AND msk")
      case True
      with eq rd have "f g msk mx fd (raw AND msk) w1 = Some y" by simp
      then show ?thesis by (rule IH)
    next
      case False
      with eq rd have "y = (raw AND msk, w1)" by simp
      with False show ?thesis by (simp add: and.assoc)
    qed
  qed
  with assms show ?thesis by force
qed

text \<open>The first acceptable word of the sequence ends the loop, and is its result.\<close>

lemma gen_rand32_loop_stream:
  assumes "src n AND msk \<le> mx" and "\<And>i. i < n \<Longrightarrow> mx < src i AND msk"
  shows "gen_rand32_loop (stream_rng d) msk mx fd ret src
           = Some (src n AND msk, \<lambda>k. src (Suc n + k))"
  using assms
proof (induction n arbitrary: src ret)
  case 0
  then show ?case
    by (subst gen_rand32_loop.simps) (simp add: stream_rng_def Let_def leD)
next
  case (Suc n)
  have "gen_rand32_loop (stream_rng d) msk mx fd (src 0 AND msk) (\<lambda>k. src (Suc k))
      = Some (src (Suc n) AND msk, \<lambda>k. src (Suc (Suc n + k)))"
    by (rule Suc.IH) (use Suc.prems in auto)
  moreover have "mx < src 0 AND msk" by (rule Suc.prems(2)) simp
  ultimately show ?case
    by (subst gen_rand32_loop.simps) (simp add: stream_rng_def Let_def)
qed

text \<open>A device that never delivers an acceptable word keeps the loop running.\<close>

lemma gen_rand32_loop_diverges:
  assumes "\<And>i. mx < src i AND msk"
  shows "gen_rand32_loop (stream_rng d) msk mx fd ret src = None"
proof (rule ccontr)
  assume "gen_rand32_loop (stream_rng d) msk mx fd ret src \<noteq> None"
  then obtain x where ret: "gen_rand32_loop (stream_rng d) msk mx fd ret src = Some x" by blast
  let ?P = "\<lambda>g msk mx fd ret src (x :: u32 \<times> (nat \<Rightarrow> u32)).
    g = stream_rng d \<longrightarrow> (\<exists>i. \<not> mx < src i AND msk)"
  have "?P (stream_rng d) msk mx fd ret src x"
  proof (rule gen_rand32_loop.raw_induct [where P = ?P, OF _ ret])
    fix f and g :: "(nat \<Rightarrow> u32) rng" and msk mx fd ret src x
    assume IH: "\<And>g msk mx fd ret src x. f g msk mx fd ret src = Some x \<Longrightarrow>
        ?P g msk mx fd ret src x"
      and eq: "(let (raw, w') = rng_read g fd ret src; ret' = raw AND msk
        in if mx < ret' then f g msk mx fd ret' w' else Some (ret', w')) = Some x"
    show "?P g msk mx fd ret src x"
    proof
      assume g: "g = stream_rng d"
      show "\<exists>i. \<not> mx < src i AND msk"
      proof (cases "mx < src 0 AND msk")
        case True
        with eq g have "f g msk mx fd (src 0 AND msk) (\<lambda>k. src (Suc k)) = Some x"
          by (simp add: stream_rng_def)
        from IH[OF this] g show ?thesis by blast
      qed blast
    qed
  qed
  with assms show False by simp
qed

section \<open>Uniformity of the draws\<close>

text \<open>
  With a mask of \<open>k\<close> low one bits, each masked value is the image of exactly \<open>2 ^ (32 - k)\<close> raw
  words: keeping the accepted ones therefore keeps the distribution uniform.
\<close>

lemma draws_bij:
  assumes k: "k \<le> 32" and r: "unat r < 2 ^ k"
  shows "bij_betw (\<lambda>n. word_of_nat (n * 2 ^ k + unat r)) {..< 2 ^ (32 - k)}
           {raw :: u32. raw AND mask k = r}"
proof (rule bij_betwI[where g = "\<lambda>raw. unat raw div 2 ^ k"])
  have pow: "(2::nat) ^ (32 - k) * 2 ^ k = 2 ^ 32"
    using k by (simp add: power_add[symmetric])
  have small: "n * 2 ^ k + unat r < 2 ^ 32" if "n < 2 ^ (32 - k)" for n
  proof -
    have "n * 2 ^ k + unat r < n * 2 ^ k + 2 ^ k" using r by simp
    also have "\<dots> = Suc n * 2 ^ k" by simp
    also have "\<dots> \<le> 2 ^ (32 - k) * 2 ^ k" using that by (intro mult_right_mono) simp_all
    finally show ?thesis using pow by simp
  qed
  have un: "unat (word_of_nat (n * 2 ^ k + unat r) :: u32) = n * 2 ^ k + unat r"
    if "n < 2 ^ (32 - k)" for n
    using small[OF that] by (simp add: unat_of_nat del: of_nat_add of_nat_mult)
  have msk: "unat (raw AND mask k) = unat raw mod 2 ^ k" for raw :: u32
    by (simp only: take_bit_eq_mask[symmetric] unsigned_take_bit_eq take_bit_eq_mod[where 'a = nat])
  show "(\<lambda>n. word_of_nat (n * 2 ^ k + unat r)) \<in> {..< 2 ^ (32 - k)} \<rightarrow> {raw :: u32. raw AND mask k = r}"
  proof
    fix n :: nat assume n: "n \<in> {..< 2 ^ (32 - k)}"
    have "unat (word_of_nat (n * 2 ^ k + unat r) AND mask k :: u32) = unat r"
      using n r by (simp add: msk un del: of_nat_add of_nat_mult)
    then show "word_of_nat (n * 2 ^ k + unat r) \<in> {raw :: u32. raw AND mask k = r}"
      by (simp add: word_unat_eq_iff del: of_nat_add of_nat_mult)
  qed
  show "(\<lambda>raw. unat raw div 2 ^ k) \<in> {raw :: u32. raw AND mask k = r} \<rightarrow> {..< 2 ^ (32 - k)}"
  proof
    fix raw :: u32
    have "unat raw < 2 ^ (32 - k) * 2 ^ k" using unsigned_less[of raw] pow by simp
    then show "unat raw div 2 ^ k \<in> {..< 2 ^ (32 - k)}"
      by (simp add: less_mult_imp_div_less)
  qed
  show "unat (word_of_nat (n * 2 ^ k + unat r) :: u32) div 2 ^ k = n"
    if "n \<in> {..< 2 ^ (32 - k)}" for n
    using that r by (simp add: un del: of_nat_add of_nat_mult)
  show "word_of_nat (unat raw div 2 ^ k * 2 ^ k + unat r) = raw"
    if "raw \<in> {raw :: u32. raw AND mask k = r}" for raw
  proof -
    have "unat r = unat raw mod 2 ^ k" using that msk[of raw] by auto
    then show ?thesis by (simp only: div_mult_mod_eq of_nat_unat ucast_id)
  qed
qed

lemma draws_card:
  assumes "k \<le> 32" and "unat r < 2 ^ k"
  shows "card {raw :: u32. raw AND mask k = r} = 2 ^ (32 - k)"
  using bij_betw_same_card[OF draws_bij[OF assms]] by simp

end
