(* ===== verification/Targets.thy ===== *)
theory Targets
  imports Rand
begin

unbundle bit_operations_syntax

text \<open>
  \<^verbatim>\<open>target.h\<close> and the two samplers of \<^verbatim>\<open>target.c\<close>: \<open>struct range_cfg\<close>, \<open>random_ip\<close> (binary search in the
  table of address ranges) and \<open>random_port\<close> (linear search in the port table), and the shape of
  the tables \<^verbatim>\<open>compile-targets.py\<close> writes. A table read outside \<open>ranges[]\<close> is \<open>None\<close>.

  The samplers split into the draw of an index (\<open>gen_rand32\<close>, theory Rand) and the look-up of that
  index (\<open>random_ip_at\<close>, \<open>random_port_at\<close>). What the two look-ups promise is one interface, the
  locale \<open>uniform_pick\<close>: index \<open>r\<close> selects the \<open>r\<close>-th element of a reference list, hence an element
  occurring \<open>m\<close> times in that list is selected by exactly \<open>m\<close> indices.
\<close>

section \<open>Data\<close>

record range_cfg =
  cfg_num :: int
  cfg_max_idx :: u32
  cfg_mask :: u32
  cfg_ranges :: "u32 list"

section \<open>random_ip\<close>

text \<open>
  The \<open>while(start != end)\<close> loop on \<open>unsigned int\<close> indices, each table access checked. The result
  is the pair of the variables \<open>idx\<close> and \<open>val\<close> after the loop.
\<close>

partial_function (option) random_ip_loop ::
  "u32 list \<Rightarrow> u32 \<Rightarrow> u32 \<Rightarrow> u32 \<Rightarrow> u32 \<Rightarrow> u32 \<Rightarrow> (u32 \<times> u32) option" where
  "random_ip_loop rs r start stop idx val =
     (if start = stop then Some (idx, val)
      else let idx = drop_bit 1 (stop + start) in
        case arr_get rs (uint (push_bit 1 idx OR 1)) of None \<Rightarrow> None
        | Some val \<Rightarrow>
            if val = r then Some (idx, val)
            else if val < r then
              (if idx = stop - 1 then
                 let idx = idx + 1 in
                 case arr_get rs (uint (push_bit 1 idx OR 1)) of None \<Rightarrow> None
                 | Some val \<Rightarrow> Some (idx, val)
               else random_ip_loop rs r (idx + 1) stop idx val)
            else random_ip_loop rs r start idx idx val)"

declare random_ip_loop.simps [code]

definition random_ip_at :: "range_cfg \<Rightarrow> u32 \<Rightarrow> u32 option" where
  "random_ip_at cfg r =
     (case random_ip_loop (cfg_ranges cfg) r 0 (to_u32 (cfg_num cfg)) 0 0 of None \<Rightarrow> None
      | Some (idx, val) \<Rightarrow>
          map_option (\<lambda>e. e - val + r) (arr_get (cfg_ranges cfg) (uint (push_bit 1 idx))))"

definition random_ip ::
  "'w rng \<Rightarrow> range_cfg \<Rightarrow> u32 \<Rightarrow> int \<Rightarrow> 'w \<Rightarrow> (u32 \<times> int \<times> 'w) option" where
  "random_ip g cfg ret0 fd w =
     (case gen_rand32 g (cfg_mask cfg) (cfg_max_idx cfg) ret0 fd w of None \<Rightarrow> None
      | Some (r, fd', w') \<Rightarrow> map_option (\<lambda>ip. (ip, fd', w')) (random_ip_at cfg r))"

section \<open>random_port\<close>

text \<open>The \<open>for\<close> loop on the \<open>int\<close> index; \<open>return -1\<close> when no entry covers \<open>r\<close>.\<close>

function random_port_loop :: "range_cfg \<Rightarrow> u32 \<Rightarrow> int \<Rightarrow> int option" where
  "random_port_loop cfg r idx =
     (if idx < cfg_num cfg then
        (case Option.bind (cmul idx 2) (\<lambda>i. Option.bind (cadd i 1) (arr_get (cfg_ranges cfg))) of
           None \<Rightarrow> None
         | Some v \<Rightarrow>
             if r \<le> v
             then map_option to_int32 (Option.bind (cmul idx 2) (arr_get (cfg_ranges cfg)))
             else random_port_loop cfg r (idx + 1))
      else Some (-1))"
  by pat_completeness auto
termination
  by (relation "measure (\<lambda>(cfg, r, idx). nat (cfg_num cfg - idx))") auto

declare random_port_loop.simps [simp del]

definition random_port_at :: "range_cfg \<Rightarrow> u32 \<Rightarrow> int option" where
  "random_port_at cfg r = random_port_loop cfg r 0"

definition random_port ::
  "'w rng \<Rightarrow> range_cfg \<Rightarrow> u32 \<Rightarrow> int \<Rightarrow> 'w \<Rightarrow> (int \<times> int \<times> 'w) option" where
  "random_port g cfg ret0 fd w =
     (case gen_rand32 g (cfg_mask cfg) (cfg_max_idx cfg) ret0 fd w of None \<Rightarrow> None
      | Some (r, fd', w') \<Rightarrow> map_option (\<lambda>p. (p, fd', w')) (random_port_at cfg r))"

section \<open>Tables built from weights\<close>

text \<open>
  A table with entries of sizes \<open>ws\<close>: the second word of entry \<open>i\<close> is the number of points in
  entries \<open>0 \<dots> i\<close>, less one. \<open>slot ws n\<close> is the entry point \<open>n\<close> falls in.
\<close>

fun slot :: "nat list \<Rightarrow> nat \<Rightarrow> nat" where
  "slot [] n = 0"
| "slot (w # ws) n = (if n < w then 0 else Suc (slot ws (n - w)))"

definition sofar :: "nat list \<Rightarrow> nat \<Rightarrow> nat" where
  "sofar ws i = sum_list (take (Suc i) ws) - 1"

definition table_ok :: "u32 list \<Rightarrow> nat list \<Rightarrow> bool" where
  "table_ok rs ws \<longleftrightarrow> length rs = 2 * length ws \<and> length ws < 2 ^ 30 \<and> (\<forall>w \<in> set ws. 0 < w) \<and>
     sum_list ws \<le> 2 ^ 32 \<and> (\<forall>i < length ws. rs ! (2 * i + 1) = word_of_nat (sofar ws i))"

lemma slot_less: "n < sum_list ws \<Longrightarrow> slot ws n < length ws"
  by (induction ws arbitrary: n) auto

lemma slot_lower: "n < sum_list ws \<Longrightarrow> sum_list (take (slot ws n) ws) \<le> n"
proof (induction ws arbitrary: n)
  case (Cons w ws)
  show ?case
  proof (cases "n < w")
    case False
    with Cons.prems have "n - w < sum_list ws" by simp
    from Cons.IH[OF this] False show ?thesis by simp
  qed simp
qed simp

lemma slot_upper: "n < sum_list ws \<Longrightarrow> n < sum_list (take (Suc (slot ws n)) ws)"
proof (induction ws arbitrary: n)
  case (Cons w ws)
  show ?case
  proof (cases "n < w")
    case False
    with Cons.prems have "n - w < sum_list ws" by simp
    from Cons.IH[OF this] False show ?thesis by simp
  qed simp
qed simp

lemma sum_take_mono: "i \<le> j \<Longrightarrow> sum_list (take i ws) \<le> sum_list (take j (ws :: nat list))"
  by (metis le_Suc_ex sum_list_append take_add le_add1)

lemma sum_take_pos:
  "\<forall>w \<in> set ws. 0 < w \<Longrightarrow> i < length ws \<Longrightarrow> 0 < sum_list (take (Suc i) (ws :: nat list))"
  by (cases ws) auto

text \<open>An entry's bound is below \<open>n\<close> exactly for the entries before the slot of \<open>n\<close>.\<close>

lemma sofar_less_iff:
  assumes "\<forall>w \<in> set ws. 0 < w" "i < length ws" "n < sum_list ws"
  shows "sofar ws i < n \<longleftrightarrow> i < slot ws n"
proof
  assume l: "sofar ws i < n"
  show "i < slot ws n"
  proof (rule ccontr)
    assume "\<not> i < slot ws n"
    then have "sum_list (take (Suc (slot ws n)) ws) \<le> sum_list (take (Suc i) ws)"
      by (intro sum_take_mono) simp
    with slot_upper[OF assms(3)] l show False by (simp add: sofar_def)
  qed
next
  assume "i < slot ws n"
  then have "sum_list (take (Suc i) ws) \<le> sum_list (take (slot ws n) ws)"
    by (intro sum_take_mono) simp
  with slot_lower[OF assms(3)] sum_take_pos[OF assms(1,2)] show "sofar ws i < n"
    by (simp add: sofar_def)
qed

lemma sofar_mono_strict:
  assumes "\<forall>w \<in> set ws. 0 < w" "i < j" "j < length ws"
  shows "sofar ws i < sofar ws j"
proof -
  have "sum_list (take (Suc i) ws) \<le> sum_list (take j ws)"
    using assms(2) by (intro sum_take_mono) simp
  moreover have "sum_list (take (Suc j) ws) = sum_list (take j ws) + ws ! j"
    using assms(3) by (simp add: take_Suc_conv_app_nth)
  moreover have "0 < ws ! j" using assms by simp
  moreover have "0 < sum_list (take (Suc i) ws)" using assms by (intro sum_take_pos) simp_all
  ultimately show ?thesis by (simp add: sofar_def)
qed

lemma sofar_eq_slot:
  assumes "\<forall>w \<in> set ws. 0 < w" "i < length ws" "n < sum_list ws" "sofar ws i = n"
  shows "i = slot ws n"
proof -
  have "\<not> i < slot ws n" using sofar_less_iff[OF assms(1-3)] assms(4) by simp
  moreover have "\<not> slot ws n < i"
  proof
    assume "slot ws n < i"
    then have "sofar ws (slot ws n) < n" using sofar_mono_strict[OF assms(1) _ assms(2)] assms(4) by blast
    then show False using sofar_less_iff[OF assms(1) slot_less[OF assms(3)] assms(3)] by simp
  qed
  ultimately show ?thesis by simp
qed

lemma sofar_bound: "sum_list ws \<le> 2 ^ 32 \<Longrightarrow> sofar ws i < 2 ^ 32"
  using sum_take_mono[of "Suc i" "max (Suc i) (length ws)" ws] by (simp add: sofar_def)

lemma table_ok_entry:
  assumes "table_ok rs ws" "i < length ws"
  shows "rs ! (2 * i + 1) = word_of_nat (sofar ws i)" and "sofar ws i < 2 ^ 32"
  using assms sofar_bound[of ws i] by (auto simp: table_ok_def)

section \<open>The searches find the slot\<close>

lemma of_nat_u32_eq:
  "a < 2 ^ 32 \<Longrightarrow> b < 2 ^ 32 \<Longrightarrow> (word_of_nat a = (word_of_nat b :: u32)) \<longleftrightarrow> a = b"
  by (simp add: word_of_nat_eq_iff take_bit_nat_eq_self)

lemma of_nat_u32_less:
  "a < 2 ^ 32 \<Longrightarrow> (word_of_nat a < (r :: u32)) \<longleftrightarrow> a < unat r"
  by (simp add: word_less_nat_alt unat_of_nat)

lemma uint_of_nat_u32: "k < 2 ^ 32 \<Longrightarrow> uint (word_of_nat k :: u32) = int k"
  by (simp add: unsigned_of_nat take_bit_nat_eq_self)

lemma unat_of_nat_u32: "k < 2 ^ 32 \<Longrightarrow> unat (word_of_nat k :: u32) = k"
  by (simp add: unsigned_of_nat take_bit_nat_eq_self)

lemma idx_odd:
  assumes "m < 2 ^ 31"
  shows "uint (push_bit 1 (word_of_nat m) OR 1 :: u32) = int (2 * m + 1)"
proof -
  have "push_bit 1 (word_of_nat m) OR 1 = (word_of_nat (2 * m + 1) :: u32)"
    by (simp add: push_bit_eq_mult or_one_eq mult.commute)
  moreover have "2 * m + 1 < 2 ^ 32" using assms by simp
  ultimately show ?thesis by (simp only: uint_of_nat_u32)
qed

lemma idx_even:
  assumes "m < 2 ^ 31"
  shows "uint (push_bit 1 (word_of_nat m) :: u32) = int (2 * m)"
proof -
  have "push_bit 1 (word_of_nat m) = (word_of_nat (2 * m) :: u32)"
    by (simp add: push_bit_eq_mult mult.commute)
  moreover have "2 * m < 2 ^ 32" using assms by simp
  ultimately show ?thesis by (simp only: uint_of_nat_u32)
qed

lemma idx_mid:
  assumes "a + b < 2 ^ 32"
  shows "drop_bit 1 (word_of_nat b + word_of_nat a :: u32) = word_of_nat ((a + b) div 2)"
proof -
  have "(a + b) div 2 < 2 ^ 32" using assms by simp
  then have "unat (word_of_nat (a + b) div 2 :: u32) = unat (word_of_nat ((a + b) div 2) :: u32)"
    by (simp only: unat_div unat_of_nat_u32 assms) simp
  then show ?thesis by (simp add: word_unat_eq_iff drop_bit_Suc add.commute)
qed

text \<open>The binary search: from bounds around the slot it ends at the slot.\<close>

lemma random_ip_loop_slot:
  assumes rs: "table_ok rs ws" and n: "unat r < sum_list ws"
  defines "k \<equiv> slot ws (unat r)"
  shows "a \<le> k \<Longrightarrow> k \<le> b \<Longrightarrow> b \<le> length ws \<Longrightarrow>
    (a = b \<Longrightarrow> idx = word_of_nat b \<and> val = rs ! (2 * b + 1)) \<Longrightarrow>
    random_ip_loop rs r (word_of_nat a) (word_of_nat b) idx val
      = Some (word_of_nat k, rs ! (2 * k + 1))"
proof (induction "b - a" arbitrary: a b idx val rule: less_induct)
  case less
  have len: "length rs = 2 * length ws" "length ws < 2 ^ 30" and pos: "\<forall>w \<in> set ws. 0 < w"
    and tot: "sum_list ws \<le> 2 ^ 32"
    and tab: "\<And>i. i < length ws \<Longrightarrow> rs ! (2 * i + 1) = word_of_nat (sofar ws i)"
    using rs by (auto simp: table_ok_def)
  have kl: "k < length ws" using slot_less[OF n] by (simp add: k_def)
  have b32: "b < 2 ^ 31" "a < 2 ^ 31" using less.prems len by auto
  have get: "arr_get rs (uint (push_bit 1 (word_of_nat i) OR 1 :: u32)) = Some (word_of_nat (sofar ws i))"
    if "i < length ws" for i
  proof -
    have "i < 2 ^ 31" "2 * i + 1 < length rs" using that len by auto
    then show ?thesis by (simp only: idx_odd arr_get_of_nat tab[OF that])
  qed
  show ?case
  proof (cases "a = b")
    case True
    with less.prems show ?thesis by (subst random_ip_loop.simps) auto
  next
    case False
    define m where "m = (a + b) div 2"
    have m: "a \<le> m" "m < b" "m < length ws" using False less.prems by (auto simp: m_def)
    have ne: "(word_of_nat a :: u32) \<noteq> word_of_nat b"
      using False b32 by (simp add: of_nat_u32_eq)
    have mid: "drop_bit 1 (word_of_nat b + word_of_nat a :: u32) = word_of_nat m"
      unfolding m_def using b32 by (intro idx_mid) simp
    have last: "(word_of_nat m = (word_of_nat b - 1 :: u32)) \<longleftrightarrow> Suc m = b"
    proof -
      have e: "(word_of_nat b - 1 :: u32) = word_of_nat (b - 1)" using m by (simp add: of_nat_diff)
      have "(word_of_nat m = (word_of_nat (b - 1) :: u32)) \<longleftrightarrow> m = b - 1"
        by (rule of_nat_u32_eq) (use m b32 in auto)
      with m show ?thesis unfolding e by auto
    qed
    have lt: "(word_of_nat (sofar ws m) < r) \<longleftrightarrow> m < k"
      using sofar_less_iff[OF pos m(3) n] sofar_bound[OF tot]
      by (simp add: of_nat_u32_less k_def)
    note step = random_ip_loop.simps[of rs r "word_of_nat a" "word_of_nat b" idx val]
    show ?thesis
    proof (cases "word_of_nat (sofar ws m) = r")
      case True
      then have "sofar ws m = unat r" using sofar_bound[OF tot] by (metis unat_of_nat_u32)
      then have "m = k" using sofar_eq_slot[OF pos m(3) n] by (simp add: k_def)
      with True ne mid get[OF m(3)] tab[OF m(3)] show ?thesis by (simp add: step Let_def)
    next
      case neq: False
      show ?thesis
      proof (cases "m < k")
        case True
        show ?thesis
        proof (cases "Suc m = b")
          case True
          with \<open>m < k\<close> less.prems have "k = Suc m" by simp
          with True kl ne mid get[OF m(3)] get[OF kl] tab[OF kl] neq last lt show ?thesis
            by (simp add: step Let_def add.commute)
        next
          case False
          have "random_ip_loop rs r (word_of_nat (Suc m)) (word_of_nat b) (word_of_nat m)
              (word_of_nat (sofar ws m)) = Some (word_of_nat k, rs ! (2 * k + 1))"
            by (rule less.hyps) (use m False \<open>m < k\<close> less.prems in auto)
          with False \<open>m < k\<close> ne mid get[OF m(3)] neq last lt show ?thesis
            by (simp add: step Let_def add.commute)
        qed
      next
        case False
        have "random_ip_loop rs r (word_of_nat a) (word_of_nat m) (word_of_nat m)
            (word_of_nat (sofar ws m)) = Some (word_of_nat k, rs ! (2 * k + 1))"
          by (rule less.hyps) (use m False less.prems tab[OF m(3)] in auto)
        with False ne mid get[OF m(3)] neq lt show ?thesis by (simp add: step Let_def)
      qed
    qed
  qed
qed

text \<open>What an entry's first word and its bound give for an index in its slot.\<close>

lemma random_ip_at_table:
  assumes tab: "table_ok (cfg_ranges cfg) ws" and num: "cfg_num cfg = int (length ws)"
    and r: "unat r < sum_list ws"
  defines "k \<equiv> slot ws (unat r)"
  shows "random_ip_at cfg r
           = Some (cfg_ranges cfg ! (2 * k) - word_of_nat (sofar ws k) + r)"
proof -
  let ?rs = "cfg_ranges cfg"
  have len: "length ?rs = 2 * length ws" "length ws < 2 ^ 30" using tab by (auto simp: table_ok_def)
  have kl: "k < length ws" using slot_less[OF r] by (simp add: k_def)
  have "random_ip_loop ?rs r (word_of_nat 0) (word_of_nat (length ws)) 0 0
      = Some (word_of_nat k, ?rs ! (2 * k + 1))"
    unfolding k_def by (rule random_ip_loop_slot[OF tab r]) (use kl in \<open>auto simp: k_def\<close>)
  moreover have "?rs ! (2 * k + 1) = word_of_nat (sofar ws k)"
    using tab kl by (auto simp: table_ok_def)
  moreover have "arr_get ?rs (uint (push_bit 1 (word_of_nat k) :: u32)) = Some (?rs ! (2 * k))"
  proof -
    have "k < 2 ^ 31" "2 * k < length ?rs" using kl len by auto
    then show ?thesis by (simp only: idx_even arr_get_of_nat)
  qed
  ultimately show ?thesis by (simp add: random_ip_at_def num to_u32_def)
qed

text \<open>An index beyond the last bound drives the search past the end of the table.\<close>

lemma random_ip_loop_beyond:
  assumes rs: "table_ok rs ws" and r: "sum_list ws \<le> unat r"
  shows "a < length ws \<Longrightarrow>
    random_ip_loop rs r (word_of_nat a) (word_of_nat (length ws)) idx val = None"
proof (induction "length ws - a" arbitrary: a idx val rule: less_induct)
  case less
  let ?b = "length ws"
  have len: "length rs = 2 * ?b" "?b < 2 ^ 30" using rs by (auto simp: table_ok_def)
  define m where "m = (a + ?b) div 2"
  have m: "a \<le> m" "m < ?b" using less.prems by (auto simp: m_def)
  have ne: "(word_of_nat a :: u32) \<noteq> word_of_nat ?b"
    using less.prems len by (simp add: of_nat_u32_eq)
  have mid: "drop_bit 1 (word_of_nat ?b + word_of_nat a :: u32) = word_of_nat m"
    unfolding m_def using less.prems len by (intro idx_mid) simp
  have "i < 2 ^ 31" if "i \<le> ?b" for i using that len by simp
  then have get: "arr_get rs (uint (push_bit 1 (word_of_nat i) OR 1 :: u32))
      = (if i < ?b then Some (rs ! (2 * i + 1)) else None)" if "i \<le> ?b" for i
    using that len by (simp only: idx_odd) (auto simp: arr_get_def in_arr_def nat_add_distrib nat_mult_distrib)
  have "0 < sum_list (take (Suc m) ws)"
    using rs m(2) by (intro sum_take_pos) (auto simp: table_ok_def)
  moreover have "sum_list (take (Suc m) ws) \<le> sum_list ws"
    using sum_take_mono[of "Suc m" ?b ws] m by simp
  ultimately have "sofar ws m < unat r" using r by (simp add: sofar_def)
  then have lt: "rs ! (2 * m + 1) < r"
    using table_ok_entry[OF rs m(2)] by (simp add: of_nat_u32_less)
  have e: "(word_of_nat ?b - 1 :: u32) = word_of_nat (?b - 1)" using m by (simp add: of_nat_diff)
  have "(word_of_nat m = (word_of_nat (?b - 1) :: u32)) \<longleftrightarrow> m = ?b - 1"
    by (rule of_nat_u32_eq) (use m len in auto)
  then have lst: "(word_of_nat m = (word_of_nat ?b - 1 :: u32)) \<longleftrightarrow> Suc m = ?b"
    using m unfolding e by auto
  note step = random_ip_loop.simps[of rs r "word_of_nat a" "word_of_nat ?b" idx val]
  show ?case
  proof (cases "Suc m = ?b")
    case True
    have sm: "(word_of_nat m + 1 :: u32) = word_of_nat (Suc m)" by simp
    show ?thesis
      using True ne mid get[of m] get[of "Suc m"] m lt lst
      by (simp add: step Let_def sm del: of_nat_Suc)
  next
    case False
    have "random_ip_loop rs r (word_of_nat (Suc m)) (word_of_nat ?b) (word_of_nat m)
        (rs ! (2 * m + 1)) = None"
      by (rule less.hyps) (use m False in auto)
    with False ne mid get[of m] m lt lst show ?thesis
      by (simp add: step Let_def add.commute)
  qed
qed

lemma random_ip_at_beyond:
  assumes "table_ok (cfg_ranges cfg) ws" "cfg_num cfg = int (length ws)" "sum_list ws \<le> unat r"
  shows "random_ip_at cfg r = None"
proof (cases "ws = []")
  case True
  with assms show ?thesis
    by (simp add: random_ip_at_def random_ip_loop.simps to_u32_def table_ok_def arr_get_def in_arr_def)
next
  case False
  then have "random_ip_loop (cfg_ranges cfg) r (word_of_nat 0) (word_of_nat (length ws)) 0 0 = None"
    using random_ip_loop_beyond[OF assms(1,3)] by blast
  with assms(2) show ?thesis by (simp add: random_ip_at_def to_u32_def)
qed

text \<open>The linear search over the port table.\<close>

lemma random_port_loop_slot:
  assumes tab: "table_ok (cfg_ranges cfg) ws" and num: "cfg_num cfg = int (length ws)"
    and r: "unat r < sum_list ws"
  defines "k \<equiv> slot ws (unat r)"
  shows "i \<le> k \<Longrightarrow> random_port_loop cfg r (int i) = Some (to_int32 (cfg_ranges cfg ! (2 * k)))"
proof (induction "k - i" arbitrary: i)
  case d: (0 i)
  then have i: "i = k" by simp
  have kl: "k < length ws" using slot_less[OF r] by (simp add: k_def)
  have ok: "int_ok (int k * 2)" "int_ok (int k * 2 + 1)" "2 * k + 1 < length (cfg_ranges cfg)"
    using kl tab by (auto simp: table_ok_def int_ok_def)
  note bnd = table_ok_entry[OF tab kl]
  have "\<not> sofar ws k < unat r"
    using tab sofar_less_iff[OF _ kl r] by (auto simp: table_ok_def k_def)
  then have "r \<le> cfg_ranges cfg ! (2 * k + 1)"
    using bnd by (simp add: word_le_nat_alt unat_of_nat_u32)
  with ok kl num i show ?case
    by (subst random_port_loop.simps)
      (simp add: arr_get_def in_arr_def nat_add_distrib nat_mult_distrib mult.commute)
next
  case (Suc d i)
  then have ik: "i < k" by simp
  have kl: "k < length ws" using slot_less[OF r] by (simp add: k_def)
  with ik have il: "i < length ws" by simp
  have ok: "int_ok (int i * 2)" "int_ok (int i * 2 + 1)" "2 * i + 1 < length (cfg_ranges cfg)"
    using il tab by (auto simp: table_ok_def int_ok_def)
  note bnd = table_ok_entry[OF tab il]
  have "sofar ws i < unat r"
    using ik tab sofar_less_iff[OF _ il r] by (auto simp: table_ok_def k_def)
  then have "\<not> r \<le> cfg_ranges cfg ! (2 * i + 1)"
    using bnd by (simp add: word_le_nat_alt unat_of_nat_u32)
  moreover have "random_port_loop cfg r (int (Suc i)) = Some (to_int32 (cfg_ranges cfg ! (2 * k)))"
    by (rule Suc.hyps) (use Suc ik in auto)
  ultimately show ?case using ok il num
    by (subst random_port_loop.simps)
      (simp add: arr_get_def in_arr_def nat_add_distrib nat_mult_distrib mult.commute add.commute)
qed

lemma random_port_at_table:
  assumes "table_ok (cfg_ranges cfg) ws" "cfg_num cfg = int (length ws)" "unat r < sum_list ws"
  shows "random_port_at cfg r = Some (to_int32 (cfg_ranges cfg ! (2 * slot ws (unat r))))"
  using random_port_loop_slot[OF assms, of 0] by (simp add: random_port_at_def)

section \<open>The interface of an index look-up\<close>

text \<open>
  A configuration \<open>c\<close> stands for the list \<open>spec c\<close>, and the look-up of index \<open>r\<close> is its \<open>r\<close>-th
  element. From this alone, the number of indices that select \<open>x\<close> is the number of its occurrences.
\<close>

locale uniform_pick =
  fixes pick :: "'c \<Rightarrow> u32 \<Rightarrow> 'a option"
    and spec :: "'c \<Rightarrow> 'a list"
    and wf :: "'c \<Rightarrow> bool"
  assumes pick_nth: "wf c \<Longrightarrow> unat r < length (spec c) \<Longrightarrow> pick c r = Some (spec c ! unat r)"
    and spec_bound: "wf c \<Longrightarrow> length (spec c) \<le> 2 ^ 32"
begin

lemma pick_mem: "wf c \<Longrightarrow> unat r < length (spec c) \<Longrightarrow> \<exists>x \<in> set (spec c). pick c r = Some x"
  using pick_nth[of c r] nth_mem[of "unat r" "spec c"] by blast

lemma pick_count:
  assumes "wf c"
  shows "card {r. unat r < length (spec c) \<and> pick c r = Some x} = count_list (spec c) x"
proof -
  have "bij_betw unat {r. unat r < length (spec c) \<and> pick c r = Some x}
      {i. i < length (spec c) \<and> spec c ! i = x}"
  proof (rule bij_betwI[where g = word_of_nat])
    show "unat \<in> {r. unat r < length (spec c) \<and> pick c r = Some x} \<rightarrow>
        {i. i < length (spec c) \<and> spec c ! i = x}"
      using pick_nth[OF assms] by auto
    show "word_of_nat \<in> {i. i < length (spec c) \<and> spec c ! i = x} \<rightarrow>
        {r. unat r < length (spec c) \<and> pick c r = Some x}"
      using pick_nth[OF assms, of "word_of_nat _"] spec_bound[OF assms] by (auto simp: unat_of_nat_u32)
    show "unat (word_of_nat i :: u32) = i" if "i \<in> {i. i < length (spec c) \<and> spec c ! i = x}" for i
      using that spec_bound[OF assms] by (intro unat_of_nat_u32) simp
    show "word_of_nat (unat r) = r" for r :: u32 by simp
  qed
  then have "card {r. unat r < length (spec c) \<and> pick c r = Some x}
      = card {i. i < length (spec c) \<and> spec c ! i = x}"
    by (rule bij_betw_same_card)
  also have "\<dots> = count_list (spec c) x"
    by (simp add: count_list_eq_length_filter length_filter_conv_card eq_commute)
  finally show ?thesis .
qed

end

text \<open>
  With the rejection step in front: an index is a raw word masked to \<open>bits c\<close> bits, accepted when it
  is in range. Each element is then selected by its multiplicity times \<open>2 ^ (32 - bits c)\<close> raw words.
\<close>

locale uniform_sampler = uniform_pick pick spec wf
  for pick :: "'c \<Rightarrow> u32 \<Rightarrow> 'a option" and spec :: "'c \<Rightarrow> 'a list" and wf :: "'c \<Rightarrow> bool" +
  fixes bits :: "'c \<Rightarrow> nat"
  assumes bits_le: "wf c \<Longrightarrow> bits c \<le> 32"
    and bits_cover: "wf c \<Longrightarrow> length (spec c) \<le> 2 ^ bits c"
begin

lemma raw_count:
  assumes "wf c"
  shows "card {raw :: u32. unat (raw AND mask (bits c)) < length (spec c) \<and>
             pick c (raw AND mask (bits c)) = Some x}
           = count_list (spec c) x * 2 ^ (32 - bits c)"
proof -
  let ?R = "{r. unat r < length (spec c) \<and> pick c r = Some x}"
  let ?F = "\<lambda>r. {raw :: u32. raw AND mask (bits c) = r}"
  have "{raw :: u32. unat (raw AND mask (bits c)) < length (spec c) \<and>
      pick c (raw AND mask (bits c)) = Some x} = (\<Union>r \<in> ?R. ?F r)"
    by auto
  also have "card \<dots> = (\<Sum>r \<in> ?R. card (?F r))"
    by (rule card_UN_disjoint) auto
  also have "\<dots> = (\<Sum>r \<in> ?R. 2 ^ (32 - bits c))"
  proof (rule sum.cong[OF refl])
    fix r assume "r \<in> ?R"
    then have "unat r < 2 ^ bits c" using bits_cover[OF assms] by auto
    then show "card (?F r) = 2 ^ (32 - bits c)" by (rule draws_card[OF bits_le[OF assms]])
  qed
  finally show ?thesis by (simp add: pick_count[OF assms])
qed

end

text \<open>The reference list: the concatenation of one block per entry.\<close>

lemma concat_nth_slot:
  assumes "n < length (concat xss)"
  shows "concat xss ! n = xss ! slot (map length xss) n !
           (n - sum_list (take (slot (map length xss) n) (map length xss)))"
  using assms
proof (induction xss arbitrary: n)
  case (Cons xs xss)
  then show ?case by (cases "n < length xs") (auto simp: nth_append)
qed simp

end
