(* ===== verification/Csw.thy ===== *)
theory Csw
  imports Targets
begin

unbundle bit_operations_syntax

text \<open>
  The binary range files: the writer of \<^verbatim>\<open>compile-targets.py\<close> and the reader \<open>load_range_cfg\<close> of
  \<^verbatim>\<open>target.c\<close>, and the samplers on what the writer produces.

  Python integers are HOL's \<open>int\<close>; \<open>struct.pack\<close> fails (\<open>None\<close>) on a value that does not fit its
  unsigned 32-bit field. The input ranges, which the script obtains from the submodule
  \<^verbatim>\<open>target-utils\<close> (sorted and merged), are an argument. In the reader, \<open>malloc\<close> is a parameter that
  says which sizes succeed, and \<open>heap\<close> holds the indeterminate words of the fresh block. The outer
  \<open>None\<close> is undefined behaviour (an overflow or a write outside the block).
\<close>

section \<open>The writer\<close>

function binmask_loop :: "int \<Rightarrow> int \<Rightarrow> int" where
  "binmask_loop n m = (if 0 < m \<and> m < n then binmask_loop n (2 * m) else m)"
  by pat_completeness auto
termination
  by (relation "measure (\<lambda>(n, m). nat (n - m))") auto

declare binmask_loop.simps [simp del]

definition get_binmask :: "int \<Rightarrow> int" where
  "get_binmask n = binmask_loop n 1 - 1"

fun csw_data :: "int \<Rightarrow> (int \<times> int) list \<Rightarrow> int list \<times> int" where
  "csw_data tot [] = ([], tot)"
| "csw_data tot ((s, e) # rs) =
     (let tot = tot + (e - s + 1); (d, t) = csw_data tot rs in (e # (tot - 1) # d, t))"

fun csp_data :: "int \<Rightarrow> (int \<times> int) list \<Rightarrow> int list \<times> int" where
  "csp_data pt_sum [] = ([], pt_sum)"
| "csp_data pt_sum ((port, pt) # ps) =
     (let pt_sum = pt_sum + pt; (d, t) = csp_data pt_sum ps in (port # (pt_sum - 1) # d, t))"

definition pack_I :: "int list \<Rightarrow> byte list option" where
  "pack_I xs = (if \<forall>x \<in> set xs. 0 \<le> x \<and> x < 2 ^ 32
     then Some (concat (map (\<lambda>x. le32 (to_u32 x)) xs)) else None)"

definition write_csw :: "(int \<times> int) list \<Rightarrow> byte list option" where
  "write_csw rs = (let (d, tot) = csw_data 0 rs
     in pack_I ([int (length rs), tot - 1, get_binmask tot] @ d))"

definition write_csp :: "(int \<times> int) list \<Rightarrow> byte list option" where
  "write_csp ps = (let (d, tot) = csp_data 0 ps
     in pack_I ([int (length ps), tot - 1, get_binmask tot] @ d))"

section \<open>The reader\<close>

text \<open>The loop over \<open>ranges\<close>: a failed read leaves the remaining words as they were.\<close>

fun read_words :: "nat \<Rightarrow> byte list \<Rightarrow> (nat \<Rightarrow> u32) \<Rightarrow> u32 list" where
  "read_words 0 bs heap = []"
| "read_words (Suc n) bs heap =
     (case get_le32 bs of
        None \<Rightarrow> map heap [0..<Suc n]
      | Some (v, bs') \<Rightarrow> v # read_words n bs' (\<lambda>i. heap (Suc i)))"

definition load_range_cfg ::
  "(nat \<Rightarrow> bool) \<Rightarrow> (nat \<Rightarrow> u32) \<Rightarrow> byte list option \<Rightarrow> range_cfg ptr option" where
  "load_range_cfg malloc heap file =
     (case file of None \<Rightarrow> Some Null
      | Some bs \<Rightarrow>
        (case get_le32 bs of None \<Rightarrow> Some Null
         | Some (n, bs) \<Rightarrow>
           (case cmul (to_int32 n) 2 of None \<Rightarrow> None
            | Some n2 \<Rightarrow>
              let size = unat (12 + word_of_int n2 * 4 :: u64);
                  cfg = \<lparr>cfg_num = to_int32 n, cfg_max_idx = heap 1, cfg_mask = heap 2,
                         cfg_ranges = map (\<lambda>i. heap (3 + i)) [0..<nat n2]\<rparr>
              in if \<not> malloc size then Some Null
                 else if size < 12 then None
                 else (case get_le32 bs of None \<Rightarrow> Some (Ptr cfg)
                       | Some (mx, bs) \<Rightarrow>
                         let cfg = cfg\<lparr>cfg_max_idx := mx\<rparr> in
                         (case get_le32 bs of None \<Rightarrow> Some (Ptr cfg)
                          | Some (msk, bs) \<Rightarrow>
                            Some (Ptr (cfg\<lparr>cfg_mask := msk,
                              cfg_ranges := read_words (nat n2) bs (\<lambda>i. heap (3 + i))\<rparr>)))))))"

section \<open>Round trip\<close>

lemma read_words_enc:
  "read_words (length ws) (concat (map le32 ws) @ rest) heap = ws"
  by (induction ws arbitrary: heap) (simp_all add: le32.dec_enc)

lemma read_words_enc_end: "length ws = n \<Longrightarrow> read_words n (concat (map le32 ws)) heap = ws"
  using read_words_enc[of ws "[]" heap] by simp

lemma pack_I_words:
  "pack_I xs = Some bs \<Longrightarrow> bs = concat (map le32 (map to_u32 xs)) \<and> (\<forall>x \<in> set xs. 0 \<le> x \<and> x < 2 ^ 32)"
  by (auto simp: pack_I_def comp_def split: if_splits)

lemma load_size:
  assumes "0 \<le> n" "n < 2 ^ 30"
  shows "\<not> unat (12 + word_of_int (n * 2) * 4 :: u64) < 12"
proof -
  have "(12 + word_of_int (n * 2) * 4 :: u64) = word_of_nat (12 + nat n * 8)"
    using assms by simp
  moreover have "unat (word_of_nat (12 + nat n * 8) :: u64) = 12 + nat n * 8"
    using assms by (simp add: unsigned_of_nat take_bit_nat_eq_self del: of_nat_add of_nat_mult)
  ultimately show ?thesis by simp
qed

lemma load_range_cfg_words:
  assumes n: "0 \<le> n" "n < 2 ^ 30" and rs: "length rs = nat n * 2"
    and m: "malloc (unat (12 + word_of_int (n * 2) * 4 :: u64))"
  shows "load_range_cfg malloc heap (Some (concat (map le32 (to_u32 n # mx # msk # rs))))
           = Some (Ptr \<lparr>cfg_num = n, cfg_max_idx = mx, cfg_mask = msk, cfg_ranges = rs\<rparr>)"
proof -
  have i: "int_ok n" "int_ok (n * 2)" using n by (simp_all add: int_ok_def)
  have "nat (n * 2) = length rs" using n rs by (simp add: nat_mult_distrib)
  then show ?thesis using m load_size[OF n]
    by (simp add: load_range_cfg_def le32.dec_enc to_int32_to_u32 i Let_def read_words_enc_end)
qed

section \<open>The configuration the two tools agree on\<close>

definition widths :: "(int \<times> int) list \<Rightarrow> nat list" where
  "widths rs = map (\<lambda>(s, e). nat (e - s + 1)) rs"

definition weights :: "(int \<times> int) list \<Rightarrow> nat list" where
  "weights ps = map (\<lambda>(p, w). nat w) ps"

definition csw_cfg :: "(int \<times> int) list \<Rightarrow> range_cfg" where
  "csw_cfg rs = (let (d, tot) = csw_data 0 rs in
     \<lparr>cfg_num = int (length rs), cfg_max_idx = to_u32 (tot - 1),
      cfg_mask = to_u32 (get_binmask tot), cfg_ranges = map to_u32 d\<rparr>)"

definition csp_cfg :: "(int \<times> int) list \<Rightarrow> range_cfg" where
  "csp_cfg ps = (let (d, tot) = csp_data 0 ps in
     \<lparr>cfg_num = int (length ps), cfg_max_idx = to_u32 (tot - 1),
      cfg_mask = to_u32 (get_binmask tot), cfg_ranges = map to_u32 d\<rparr>)"

lemma length_csw_data: "length (fst (csw_data t rs)) = 2 * length rs"
  by (induction t rs rule: csw_data.induct) (auto simp: Let_def split: prod.splits)

lemma length_csp_data: "length (fst (csp_data t ps)) = 2 * length ps"
  by (induction t ps rule: csp_data.induct) (auto simp: Let_def split: prod.splits)

lemma load_write_csw:
  assumes "write_csw rs = Some bs" and "length rs < 2 ^ 30"
    and "malloc (unat (12 + word_of_int (int (length rs) * 2) * 4 :: u64))"
  shows "load_range_cfg malloc heap (Some bs) = Some (Ptr (csw_cfg rs))"
proof -
  obtain d tot where d: "csw_data 0 rs = (d, tot)" by force
  have "bs = concat (map le32 (to_u32 (int (length rs)) # to_u32 (tot - 1)
      # to_u32 (get_binmask tot) # map to_u32 d))"
    using assms(1) pack_I_words d by (fastforce simp: write_csw_def)
  moreover have "length (map to_u32 d) = nat (int (length rs)) * 2"
    using length_csw_data[of 0 rs] d by simp
  ultimately show ?thesis using assms(2,3) d
    by (simp only:) (subst load_range_cfg_words, auto simp: csw_cfg_def)
qed

lemma load_write_csp:
  assumes "write_csp ps = Some bs" and "length ps < 2 ^ 30"
    and "malloc (unat (12 + word_of_int (int (length ps) * 2) * 4 :: u64))"
  shows "load_range_cfg malloc heap (Some bs) = Some (Ptr (csp_cfg ps))"
proof -
  obtain d tot where d: "csp_data 0 ps = (d, tot)" by force
  have "bs = concat (map le32 (to_u32 (int (length ps)) # to_u32 (tot - 1)
      # to_u32 (get_binmask tot) # map to_u32 d))"
    using assms(1) pack_I_words d by (fastforce simp: write_csp_def)
  moreover have "length (map to_u32 d) = nat (int (length ps)) * 2"
    using length_csp_data[of 0 ps] d by simp
  ultimately show ?thesis using assms(2,3) d
    by (simp only:) (subst load_range_cfg_words, auto simp: csp_cfg_def)
qed

section \<open>The data the writer produces\<close>

lemma csw_data_tot:
  "\<forall>(s, e) \<in> set rs. s \<le> e \<Longrightarrow> snd (csw_data t rs) = t + int (sum_list (widths rs))"
  by (induction t rs rule: csw_data.induct) (auto simp: Let_def widths_def split: prod.splits)

lemma csw_data_nth:
  assumes "\<forall>(s, e) \<in> set rs. s \<le> e" "i < length rs"
  shows "fst (csw_data t rs) ! (2 * i) = snd (rs ! i) \<and>
         fst (csw_data t rs) ! (2 * i + 1) = t + int (sum_list (take (Suc i) (widths rs))) - 1"
  using assms
proof (induction t rs arbitrary: i rule: csw_data.induct)
  case (2 t s e rs)
  show ?case
  proof (cases i)
    case 0
    with 2 show ?thesis by (simp add: Let_def widths_def split: prod.splits)
  next
    case (Suc j)
    obtain d t' where d: "csw_data (t + (e - s + 1)) rs = (d, t')" by force
    have "fst (csw_data (t + (e - s + 1)) rs) ! (2 * j) = snd (rs ! j) \<and>
        fst (csw_data (t + (e - s + 1)) rs) ! (2 * j + 1)
          = t + (e - s + 1) + int (sum_list (take (Suc j) (widths rs))) - 1"
      using "2.IH"[OF refl, of j] "2.prems" Suc by auto
    with d Suc "2.prems" show ?thesis by (simp add: widths_def)
  qed
qed simp

lemma csp_data_tot:
  "\<forall>(p, w) \<in> set ps. 0 \<le> w \<Longrightarrow> snd (csp_data t ps) = t + int (sum_list (weights ps))"
  by (induction t ps rule: csp_data.induct) (auto simp: Let_def weights_def split: prod.splits)

lemma csp_data_nth:
  assumes "\<forall>(p, w) \<in> set ps. 0 \<le> w" "i < length ps"
  shows "fst (csp_data t ps) ! (2 * i) = fst (ps ! i) \<and>
         fst (csp_data t ps) ! (2 * i + 1)
           = t + int (sum_list (take (Suc i) (weights ps))) - 1"
  using assms
proof (induction t ps arbitrary: i rule: csp_data.induct)
  case (2 t p w ps)
  show ?case
  proof (cases i)
    case 0
    with 2 show ?thesis by (simp add: Let_def weights_def split: prod.splits)
  next
    case (Suc j)
    obtain d t' where d: "csp_data (t + w) ps = (d, t')" by force
    have "fst (csp_data (t + w) ps) ! (2 * j) = fst (ps ! j) \<and>
        fst (csp_data (t + w) ps) ! (2 * j + 1)
          = t + w + int (sum_list (take (Suc j) (weights ps))) - 1"
      using "2.IH"[OF refl, of j] "2.prems" Suc by auto
    with d Suc "2.prems" show ?thesis by (simp add: weights_def)
  qed
qed simp

text \<open>The mask loop stops at the first power of two that is not below its argument.\<close>

function binmask_bits :: "int \<Rightarrow> nat \<Rightarrow> nat" where
  "binmask_bits n k = (if 2 ^ k < n then binmask_bits n (Suc k) else k)"
  by pat_completeness auto
termination
  by (relation "measure (\<lambda>(n, k). nat (n - 2 ^ k))") auto

declare binmask_bits.simps [simp del]

lemma binmask_loop_bits: "binmask_loop n (2 ^ k) = 2 ^ binmask_bits n k"
proof (induction n k rule: binmask_bits.induct)
  case (1 n k)
  then show ?case
    by (subst binmask_loop.simps, subst binmask_bits.simps) auto
qed

lemma binmask_bits_ge: "n \<le> 2 ^ binmask_bits n k"
proof (induction n k rule: binmask_bits.induct)
  case (1 n k)
  then show ?case by (subst binmask_bits.simps) auto
qed

lemma binmask_bits_le: "n \<le> 2 ^ K \<Longrightarrow> k \<le> K \<Longrightarrow> binmask_bits n k \<le> K"
proof (induction n k rule: binmask_bits.induct)
  case (1 n k)
  show ?case
  proof (cases "2 ^ k < n")
    case True
    then have "(2::int) ^ k < 2 ^ K" using 1 by linarith
    then have "k < K" by simp
    with True 1 show ?thesis by (subst binmask_bits.simps) auto
  next
    case False
    with 1 show ?thesis by (subst binmask_bits.simps) auto
  qed
qed

lemma get_binmask_mask: "to_u32 (get_binmask n) = mask (binmask_bits n 0)"
  using binmask_loop_bits[of n 0] by (simp add: get_binmask_def to_u32_def mask_eq_exp_minus_1)

section \<open>Sampling addresses from a compiled file\<close>

text \<open>Sorted, disjoint, non-empty ranges of 32-bit addresses, and the addresses they hold.\<close>

definition wf_ranges :: "(int \<times> int) list \<Rightarrow> bool" where
  "wf_ranges rs \<longleftrightarrow> (\<forall>(s, e) \<in> set rs. 0 \<le> s \<and> s \<le> e \<and> e < 2 ^ 32) \<and>
     sorted_wrt (\<lambda>(s, e) (s', e'). e < s') rs \<and> length rs < 2 ^ 30"

definition addrs :: "(int \<times> int) list \<Rightarrow> u32 list" where
  "addrs rs = concat (map (\<lambda>(s, e). map to_u32 [s..e]) rs)"

lemma length_addrs: "length (addrs rs) = sum_list (widths rs)"
  by (induction rs) (auto simp: addrs_def widths_def)

lemma widths_sum_le:
  assumes "\<forall>(s, e) \<in> set rs. a \<le> s \<and> s \<le> e \<and> e < 2 ^ 32"
    and "sorted_wrt (\<lambda>(s, e) (s', e'). e < s') rs" and "a \<le> 2 ^ 32"
  shows "int (sum_list (widths rs)) \<le> 2 ^ 32 - a"
  using assms
proof (induction rs arbitrary: a)
  case (Cons r rs)
  obtain s e where r: "r = (s, e)" by force
  have "int (sum_list (widths rs)) \<le> 2 ^ 32 - (e + 1)"
    by (rule Cons.IH) (use Cons.prems r in auto)
  with Cons.prems r show ?case by (auto simp: widths_def)
qed (simp add: widths_def)

lemma wf_ranges_sum: "wf_ranges rs \<Longrightarrow> sum_list (widths rs) \<le> 2 ^ 32"
  using widths_sum_le[of rs 0] by (auto simp: wf_ranges_def)

lemma csw_table_ok:
  assumes "wf_ranges rs"
  shows "table_ok (cfg_ranges (csw_cfg rs)) (widths rs)"
proof -
  have le: "\<forall>(s, e) \<in> set rs. s \<le> e" using assms by (auto simp: wf_ranges_def)
  have pos: "\<forall>w \<in> set (widths rs). 0 < w" using le by (auto simp: widths_def)
  have "to_u32 (fst (csw_data 0 rs) ! (2 * i + 1)) = word_of_nat (sofar (widths rs) i)"
    if "i < length rs" for i
  proof -
    have "0 < sum_list (take (Suc i) (widths rs))"
      using sum_take_pos[OF pos, of i] that by (simp add: widths_def)
    then show ?thesis
      using csw_data_nth[OF le that, of 0] by (simp add: to_u32_def sofar_def of_nat_diff)
  qed
  then show ?thesis
    using assms pos wf_ranges_sum[OF assms] length_csw_data[of 0 rs]
    by (auto simp: table_ok_def csw_cfg_def wf_ranges_def widths_def Let_def case_prod_unfold)
qed

lemma random_ip_at_nth:
  assumes wf: "wf_ranges rs" and n: "unat r < length (addrs rs)"
  shows "random_ip_at (csw_cfg rs) r = Some (addrs rs ! unat r)"
proof -
  define k where "k = slot (widths rs) (unat r)"
  have le: "\<forall>(s, e) \<in> set rs. s \<le> e" using wf by (auto simp: wf_ranges_def)
  have n': "unat r < sum_list (widths rs)" using n by (simp add: length_addrs)
  have k: "k < length rs" using slot_less[OF n'] by (simp add: k_def widths_def[of rs, THEN arg_cong[where f = length], simplified])
  obtain s e where se: "rs ! k = (s, e)" by force
  have sle: "s \<le> e" using le k se nth_mem[OF k] by auto
  let ?c = "sum_list (take k (widths rs))"
  have cS: "sum_list (take (Suc k) (widths rs)) = ?c + nat (e - s + 1)"
    using k by (simp add: take_Suc_conv_app_nth widths_def se)
  have up: "unat r < ?c + nat (e - s + 1)" using slot_upper[OF n'] cS by (simp add: k_def)
  have lo: "?c \<le> unat r" using slot_lower[OF n'] by (simp add: k_def)
  have w: "map length (map (\<lambda>(s, e). map to_u32 [s..e]) rs) = widths rs"
    by (auto simp: widths_def)
  have "addrs rs ! unat r = map to_u32 [s..e] ! (unat r - ?c)"
    using concat_nth_slot[of "unat r" "map (\<lambda>(s, e). map to_u32 [s..e]) rs"] n k se
    by (simp add: addrs_def w k_def[symmetric] del: map_map)
  also have "\<dots> = to_u32 (s + int (unat r - ?c))"
    using up sle by (subst nth_map) auto
  finally have sp: "addrs rs ! unat r = to_u32 (s + int (unat r - ?c))" .
  have "cfg_ranges (csw_cfg rs) ! (2 * k) = to_u32 e"
    using csw_data_nth[OF le k, of 0] k se length_csw_data[of 0 rs]
    by (simp add: csw_cfg_def Let_def case_prod_unfold)
  moreover have "sofar (widths rs) k = ?c + nat (e - s)"
    using cS sle by (simp add: sofar_def nat_add_distrib)
  moreover have "random_ip_at (csw_cfg rs) r = Some (cfg_ranges (csw_cfg rs) ! (2 * k)
      - word_of_nat (sofar (widths rs) k) + r)"
    unfolding k_def by (rule random_ip_at_table[OF csw_table_ok[OF wf] _ n'])
      (simp add: csw_cfg_def widths_def case_prod_unfold Let_def)
  moreover have "to_u32 e - word_of_nat (?c + nat (e - s)) + r = to_u32 (s + int (unat r - ?c))"
    using lo sle by (simp add: to_u32_def of_nat_diff)
  ultimately show ?thesis using sp by simp
qed

interpretation csw: uniform_sampler "\<lambda>rs. random_ip_at (csw_cfg rs)" addrs wf_ranges
  "\<lambda>rs. binmask_bits (int (sum_list (widths rs))) 0"
proof
  fix rs and r :: u32
  show "wf_ranges rs \<Longrightarrow> unat r < length (addrs rs) \<Longrightarrow>
      random_ip_at (csw_cfg rs) r = Some (addrs rs ! unat r)"
    by (rule random_ip_at_nth)
  show "wf_ranges rs \<Longrightarrow> length (addrs rs) \<le> 2 ^ 32"
    using wf_ranges_sum by (simp add: length_addrs)
  show "wf_ranges rs \<Longrightarrow> binmask_bits (int (sum_list (widths rs))) 0 \<le> 32"
    using wf_ranges_sum[of rs] by (intro binmask_bits_le) simp_all
  show "wf_ranges rs \<Longrightarrow> length (addrs rs) \<le> 2 ^ binmask_bits (int (sum_list (widths rs))) 0"
    using binmask_bits_ge[of "int (sum_list (widths rs))" 0] by (simp add: length_addrs)
qed

section \<open>Sampling ports\<close>

definition wf_ports :: "(int \<times> int) list \<Rightarrow> bool" where
  "wf_ports ps \<longleftrightarrow> (\<forall>(p, w) \<in> set ps. 0 \<le> p \<and> p < 2 ^ 31 \<and> 0 < w) \<and>
     sum_list (weights ps) \<le> 2 ^ 32 \<and> length ps < 2 ^ 30"

definition port_list :: "(int \<times> int) list \<Rightarrow> int list" where
  "port_list ps = concat (map (\<lambda>(p, w). replicate (nat w) p) ps)"

lemma length_port_list: "length (port_list ps) = sum_list (weights ps)"
  by (induction ps) (auto simp: port_list_def weights_def)

lemma csp_table_ok:
  assumes "wf_ports ps"
  shows "table_ok (cfg_ranges (csp_cfg ps)) (weights ps)"
proof -
  have nn: "\<forall>(p, w) \<in> set ps. 0 \<le> w" using assms by (force simp: wf_ports_def)
  have pos: "\<forall>w \<in> set (weights ps). 0 < w" using assms by (auto simp: wf_ports_def weights_def)
  have "to_u32 (fst (csp_data 0 ps) ! (2 * i + 1)) = word_of_nat (sofar (weights ps) i)"
    if "i < length ps" for i
  proof -
    have "0 < sum_list (take (Suc i) (weights ps))"
      using sum_take_pos[OF pos, of i] that by (simp add: weights_def)
    then show ?thesis
      using csp_data_nth[OF nn that, of 0] by (simp add: to_u32_def sofar_def of_nat_diff)
  qed
  then show ?thesis
    using assms pos length_csp_data[of 0 ps]
    by (auto simp: table_ok_def csp_cfg_def wf_ports_def weights_def Let_def case_prod_unfold)
qed

lemma random_port_at_nth:
  assumes wf: "wf_ports ps" and n: "unat r < length (port_list ps)"
  shows "random_port_at (csp_cfg ps) r = Some (port_list ps ! unat r)"
proof -
  define k where "k = slot (weights ps) (unat r)"
  have nn: "\<forall>(p, w) \<in> set ps. 0 \<le> w" using wf by (force simp: wf_ports_def)
  have n': "unat r < sum_list (weights ps)" using n by (simp add: length_port_list)
  have lw: "length (weights ps) = length ps" by (simp add: weights_def)
  have k: "k < length ps" using slot_less[OF n'] by (simp add: k_def lw)
  obtain p w where pw: "ps ! k = (p, w)" by force
  have p: "0 \<le> p" "p < 2 ^ 31" using wf nth_mem[OF k] pw by (auto simp: wf_ports_def)
  have w: "map length (map (\<lambda>(p, w). replicate (nat w) p) ps) = weights ps"
    by (auto simp: weights_def)
  let ?c = "sum_list (take k (weights ps))"
  have "sum_list (take (Suc k) (weights ps)) = ?c + nat w"
    using k by (simp add: take_Suc_conv_app_nth lw) (simp add: weights_def pw)
  then have up: "unat r - ?c < nat w"
    using slot_upper[OF n'] slot_lower[OF n'] by (simp add: k_def)
  have "port_list ps ! unat r = replicate (nat w) p ! (unat r - ?c)"
    using concat_nth_slot[of "unat r" "map (\<lambda>(p, w). replicate (nat w) p) ps"] n k pw
    by (simp add: port_list_def w k_def[symmetric] del: map_map)
  also have "\<dots> = p" using up by simp
  finally have sp: "port_list ps ! unat r = p" .
  have "cfg_ranges (csp_cfg ps) ! (2 * k) = to_u32 p"
    using csp_data_nth[OF nn k, of 0] k pw length_csp_data[of 0 ps]
    by (simp add: csp_cfg_def Let_def case_prod_unfold)
  moreover have "random_port_at (csp_cfg ps) r = Some (to_int32 (cfg_ranges (csp_cfg ps) ! (2 * k)))"
    unfolding k_def by (rule random_port_at_table[OF csp_table_ok[OF wf] _ n'])
      (simp add: csp_cfg_def lw case_prod_unfold Let_def)
  ultimately show ?thesis using sp p by (simp add: to_int32_to_u32 int_ok_def)
qed

interpretation csp: uniform_sampler "\<lambda>ps. random_port_at (csp_cfg ps)" port_list wf_ports
  "\<lambda>ps. binmask_bits (int (sum_list (weights ps))) 0"
proof
  fix ps and r :: u32
  show "wf_ports ps \<Longrightarrow> unat r < length (port_list ps) \<Longrightarrow>
      random_port_at (csp_cfg ps) r = Some (port_list ps ! unat r)"
    by (rule random_port_at_nth)
  show "wf_ports ps \<Longrightarrow> length (port_list ps) \<le> 2 ^ 32"
    by (simp add: length_port_list wf_ports_def)
  show "wf_ports ps \<Longrightarrow> binmask_bits (int (sum_list (weights ps))) 0 \<le> 32"
    by (intro binmask_bits_le) (simp_all add: wf_ports_def)
  show "wf_ports ps \<Longrightarrow> length (port_list ps) \<le> 2 ^ binmask_bits (int (sum_list (weights ps))) 0"
    using binmask_bits_ge[of "int (sum_list (weights ps))" 0] by (simp add: length_port_list)
qed

end
