(* ===== verification/Cstr.thy ===== *)
theory Cstr
  imports Prelude "HOL-Library.Char_ord"
begin

text \<open>
  The parts of C's string library the program uses, on strings without their terminating NUL:
  \<open>strstr\<close>, decimal printing (\<open>%d\<close> of \<open>printf\<close>), and the \<open>%d\<close> conversion of \<open>scanf\<close>, with its three
  outcomes: end of input, no number, or a number and the rest of the input. A number that does not
  fit an \<open>int\<close> is undefined behaviour, which the callers report as \<open>None\<close>.
\<close>

section \<open>Characters and searching\<close>

definition is_space :: "char \<Rightarrow> bool" where
  "is_space c \<longleftrightarrow> of_char c \<in> {9, 10, 11, 12, 13, 32 :: nat}"

definition is_digit :: "char \<Rightarrow> bool" where
  "is_digit c \<longleftrightarrow> 48 \<le> (of_char c :: nat) \<and> (of_char c :: nat) \<le> 57"

definition digit_val :: "char \<Rightarrow> nat" where
  "digit_val c = of_char c - 48"

definition starts_with :: "string \<Rightarrow> string \<Rightarrow> bool" where
  "starts_with pre s \<longleftrightarrow> take (length pre) s = pre"

text \<open>\<open>strstr\<close>: the suffix that starts at the first occurrence of the needle.\<close>

fun strstr :: "string \<Rightarrow> string \<Rightarrow> string option" where
  "strstr [] needle = (if needle = [] then Some [] else None)"
| "strstr (c # s) needle = (if starts_with needle (c # s) then Some (c # s) else strstr s needle)"

section \<open>Decimal numbers\<close>

fun dec_string :: "nat \<Rightarrow> string" where
  "dec_string n = (if n < 10 then [char_of (48 + n)]
     else dec_string (n div 10) @ [char_of (48 + n mod 10)])"

declare dec_string.simps [simp del]

definition int_string :: "int \<Rightarrow> string" where
  "int_string i = (if i < 0 then CHR ''-'' # dec_string (nat (- i)) else dec_string (nat i))"

fun scan_digits :: "nat \<Rightarrow> string \<Rightarrow> nat \<times> string" where
  "scan_digits acc [] = (acc, [])"
| "scan_digits acc (c # cs) =
     (if is_digit c then scan_digits (10 * acc + digit_val c) cs else (acc, c # cs))"

datatype conv = Eof | Nomatch | Conv int string

definition scan_d :: "string \<Rightarrow> conv" where
  "scan_d s =
     (case dropWhile is_space s of [] \<Rightarrow> Eof
      | c # cs \<Rightarrow>
        let (neg, ds) = (if c = CHR ''-'' then (True, cs)
                         else if c = CHR ''+'' then (False, cs) else (False, c # cs))
        in (case ds of [] \<Rightarrow> Nomatch
            | d # _ \<Rightarrow> if is_digit d
                then let (n, rest) = scan_digits 0 ds
                     in Conv (if neg then - int n else int n) rest
                else Nomatch))"

lemma digit_char [simp]:
  assumes "n < 10"
  shows "is_digit (char_of (48 + n))" "digit_val (char_of (48 + n)) = n"
    "\<not> is_space (char_of (48 + n))"
proof -
  have "(of_char (char_of (48 + n) :: char) :: nat) = 48 + n"
    using assms by (simp add: of_char_of)
  then show "is_digit (char_of (48 + n))" "digit_val (char_of (48 + n)) = n"
    "\<not> is_space (char_of (48 + n))"
    using assms by (simp_all add: is_digit_def digit_val_def is_space_def)
qed

lemma dec_string_digits: "\<forall>c \<in> set (dec_string n). is_digit c"
proof (induction n rule: dec_string.induct)
  case (1 n)
  then show ?case by (subst dec_string.simps) auto
qed

lemma dec_string_nonempty [simp]: "dec_string n \<noteq> []"
  by (subst dec_string.simps) simp

lemma scan_digits_dec: "scan_digits 0 (dec_string n @ rest) = scan_digits n rest"
proof (induction n arbitrary: rest rule: dec_string.induct)
  case (1 n)
  show ?case
  proof (cases "n < 10")
    case True
    then show ?thesis by (subst dec_string.simps) simp
  next
    case False
    have "scan_digits 0 (dec_string n @ rest)
        = scan_digits 0 (dec_string (n div 10) @ char_of (48 + n mod 10) # rest)"
      using False by (subst dec_string.simps) simp
    also have "\<dots> = scan_digits (n div 10) (char_of (48 + n mod 10) # rest)"
      using "1.IH" False by simp
    also have "\<dots> = scan_digits n rest" by simp
    finally show ?thesis .
  qed
qed

lemma is_digit_distinct: "is_digit c \<Longrightarrow> c \<noteq> CHR '','' \<and> c \<noteq> CHR '':'' \<and> c \<noteq> CHR ''-'' \<and> c \<noteq> CHR ''+'' \<and> \<not> is_space c"
  by (auto simp: is_digit_def is_space_def)

text \<open>Reading back a printed number, up to the first character that is no digit.\<close>

lemma scan_d_dec:
  assumes "rest = [] \<or> \<not> is_digit (hd rest)"
  shows "scan_d (dec_string n @ rest) = Conv (int n) rest"
proof -
  obtain c cs where c: "dec_string n = c # cs" by (cases "dec_string n") auto
  then have dig: "is_digit c" using dec_string_digits[of n] by simp
  then have dw: "dropWhile is_space (dec_string n @ rest) = c # cs @ rest"
    using is_digit_distinct[OF dig] c by simp
  have "scan_digits 0 (c # cs @ rest) = (n, rest)"
    using scan_digits_dec[of n rest] assms c by (cases rest) auto
  then show ?thesis using dw dig is_digit_distinct[OF dig] by (simp add: scan_d_def del: scan_digits.simps)
qed

section \<open>Fields of a given width\<close>

lemma scan_d_int:
  assumes "rest = [] \<or> \<not> is_digit (hd rest)"
  shows "scan_d (int_string i @ rest) = Conv i rest"
proof (cases "i < 0")
  case False
  then show ?thesis using scan_d_dec[OF assms, of "nat i"] by (simp add: int_string_def)
next
  case True
  obtain c cs where c: "dec_string (nat (- i)) = c # cs" by (cases "dec_string (nat (- i))") auto
  have "scan_digits 0 (dec_string (nat (- i)) @ rest) = (nat (- i), rest)"
    using scan_digits_dec[of "nat (- i)" rest] assms by (cases rest) auto
  moreover have "is_digit c" using dec_string_digits[of "nat (- i)"] c by simp
  ultimately show ?thesis using True c by (simp add: scan_d_def int_string_def is_space_def)
qed

lemma scan_digits_length: "length (snd (scan_digits acc s)) \<le> length s"
  by (induction acc s rule: scan_digits.induct) auto

lemma scan_d_length: "scan_d s = Conv v rest \<Longrightarrow> length rest \<le> length s"
proof -
  assume v: "scan_d s = Conv v rest"
  have len: "length r \<le> length t" if "scan_digits acc t = (n, r)" for acc n r t
    using scan_digits_length[of acc t] that by simp
  have "length rest \<le> length (dropWhile is_space s)"
    using v by (auto simp: scan_d_def Let_def split: list.splits if_splits prod.splits dest!: len)
  then show ?thesis using length_dropWhile_le[of is_space s] by simp
qed

text \<open>\<open>%nd\<close> of \<open>scanf\<close>: at most \<open>n\<close> characters after the white space, a sign included.\<close>

definition scan_dw :: "nat \<Rightarrow> string \<Rightarrow> conv" where
  "scan_dw n s =
     (let s = dropWhile is_space s in
      case scan_d (take n s) of Conv v rest \<Rightarrow> Conv v (rest @ drop n s) | c \<Rightarrow> c)"

definition zero_pad :: "nat \<Rightarrow> string \<Rightarrow> string" where
  "zero_pad n s = replicate (n - length s) (CHR ''0'') @ s"

text \<open>\<open>%03d\<close> of \<open>printf\<close>.\<close>

definition fmt03 :: "int \<Rightarrow> string" where
  "fmt03 i = (if i < 0 then CHR ''-'' # zero_pad 2 (dec_string (nat (- i)))
     else zero_pad 3 (dec_string (nat i)))"

lemma length_dec_string: "n < 10 ^ k \<Longrightarrow> 0 < k \<Longrightarrow> length (dec_string n) \<le> k"
proof (induction n arbitrary: k rule: dec_string.induct)
  case (1 n)
  show ?case
  proof (cases "n < 10")
    case True
    with 1 show ?thesis by (subst dec_string.simps) simp
  next
    case False
    then obtain j where k: "k = Suc j" "0 < j" using 1 by (cases k; cases "k = 1") auto
    then have "n div 10 < 10 ^ j" using 1 by (simp add: less_mult_imp_div_less mult.commute)
    with 1 k False show ?thesis by (subst dec_string.simps) simp
  qed
qed

lemma length_fmt03: "-100 < i \<Longrightarrow> i < 1000 \<Longrightarrow> length (fmt03 i) = 3"
  using length_dec_string[of "nat (- i)" 2] length_dec_string[of "nat i" 3]
  by (auto simp: fmt03_def zero_pad_def)

text \<open>A number read in a field of three characters.\<close>

lemma scan_digits_bound: "fst (scan_digits acc s) < (acc + 1) * 10 ^ length s"
proof (induction s arbitrary: acc)
  case (Cons c s)
  show ?case
  proof (cases "is_digit c")
    case True
    then have d: "digit_val c \<le> 9" by (simp add: is_digit_def digit_val_def le_diff_conv)
    have "fst (scan_digits (10 * acc + digit_val c) s) < (10 * acc + digit_val c + 1) * 10 ^ length s"
      by (rule Cons.IH)
    also have "\<dots> \<le> (10 * acc + 10) * 10 ^ length s" using d by (intro mult_right_mono) simp_all
    finally show ?thesis using True by (simp add: algebra_simps)
  next
    case False
    have "acc < (acc + 1) * 1" by simp
    also have "\<dots> \<le> (acc + 1) * 10 ^ length (c # s)" by (rule mult_le_mono2) simp
    finally have "acc < (acc + 1) * 10 ^ length (c # s)" .
    with False show ?thesis by simp
  qed
qed simp

lemma scan_dw3_bounds:
  assumes "scan_dw 3 s = Conv v rest"
  shows "-100 < v \<and> v < 1000"
proof -
  define f where "f = take 3 (dropWhile is_space s)"
  obtain r where r: "scan_d f = Conv v r"
    using assms by (auto simp: scan_dw_def f_def Let_def split: conv.splits)
  define t where "t = dropWhile is_space f"
  have len: "length t \<le> 3"
    unfolding t_def f_def by (rule order_trans[OF length_dropWhile_le]) simp
  have "scan_d f = Eof" if "t = []" using that by (simp only: scan_d_def t_def list.case)
  then obtain c cs where t: "t = c # cs" using r by (cases t) auto
  have b2: "fst (scan_digits 0 cs) < 100"
    using scan_digits_bound[of 0 cs] power_increasing[of "length cs" 2 "10::nat"] len t by simp
  have b3: "fst (scan_digits 0 (c # cs)) < 1000"
    using scan_digits_bound[of 0 "c # cs"] power_increasing[of "length (c # cs)" 3 "10::nat"] len t
    by (simp del: scan_digits.simps)
  show ?thesis using r b2 b3
    by (auto simp: scan_d_def t_def[symmetric] t Let_def simp del: scan_digits.simps
        split: if_splits prod.splits list.splits)
qed

end
