(* ===== verification/Portspec.thy ===== *)
theory Portspec
  imports Csw Cstr
begin

text \<open>
  \<open>make_port_ranges\<close> of \<^verbatim>\<open>target.c\<close>: two passes of \<open>sscanf(spec, "%d:%d", &port, &points)\<close> over the
  comma-separated parts of a portspec, the first to size the table and the second to fill it.

  \<open>sscanf\<close> answers \<open>-1\<close> at the end of the input and \<open>0\<close> when there is no number; the code stops on \<open>0\<close>
  only. \<open>port\<close> keeps its previous value when the conversion fails, and is indeterminate (\<open>None\<close>) at
  first: storing it then is undefined behaviour, as is any \<open>int\<close> overflow.
\<close>

definition sscanf_dd :: "string \<Rightarrow> (int \<times> int option \<times> int option) option" where
  "sscanf_dd s =
     (case scan_d s of
        Eof \<Rightarrow> Some (-1, None, None)
      | Nomatch \<Rightarrow> Some (0, None, None)
      | Conv p rest \<Rightarrow>
        if \<not> int_ok p then None
        else (case rest of [] \<Rightarrow> Some (1, Some p, None)
              | c # rest' \<Rightarrow>
                if c \<noteq> CHR '':'' then Some (1, Some p, None)
                else (case scan_d rest' of
                        Conv q _ \<Rightarrow> if int_ok q then Some (2, Some p, Some q) else None
                      | _ \<Rightarrow> Some (1, Some p, None))))"

definition next_spec :: "string \<Rightarrow> string option" where
  "next_spec s = map_option tl (strstr s '','')"

lemma strstr_length: "strstr s n = Some t \<Longrightarrow> length t \<le> length s"
  by (induction s) (auto split: if_splits)

lemma next_spec_shorter: "next_spec s = Some t \<Longrightarrow> length t < length s"
proof -
  assume "next_spec s = Some t"
  then obtain u where u: "strstr s '','' = Some u" "t = tl u" by (auto simp: next_spec_def)
  have "u \<noteq> []" using u(1) by (induction s) (auto split: if_splits)
  with strstr_length[OF u(1)] u(2) show ?thesis by (cases u) auto
qed

text \<open>The first pass returns \<open>(port, num, max)\<close>.\<close>

function mpr_pass1 :: "string \<Rightarrow> int option \<Rightarrow> int \<Rightarrow> int \<Rightarrow> (int option \<times> int \<times> int) option" where
  "mpr_pass1 spec port num mx =
     (case sscanf_dd spec of None \<Rightarrow> None
      | Some (ret, p, q) \<Rightarrow>
        let port = (if p = None then port else p); points = (case q of None \<Rightarrow> 1 | Some v \<Rightarrow> v) in
        if ret = 0 then Some (port, num, mx)
        else (case (cadd num 1, cadd mx points) of
                (Some num, Some mx) \<Rightarrow>
                  (case next_spec spec of None \<Rightarrow> Some (port, num, mx)
                   | Some spec' \<Rightarrow> mpr_pass1 spec' port num mx)
              | _ \<Rightarrow> None))"
  by pat_completeness auto
termination
  by (relation "measure (\<lambda>(spec, port, num, mx). length spec)") (auto dest: next_spec_shorter)

text \<open>
  The second pass returns the words stored through \<open>data\<close>; \<open>room\<close> is the number of entries the
  block still has space for, and a store beyond it is \<open>None\<close>.
\<close>

function mpr_pass2 :: "string \<Rightarrow> int option \<Rightarrow> int \<Rightarrow> int \<Rightarrow> u32 list option" where
  "mpr_pass2 spec port acc room =
     (case sscanf_dd spec of None \<Rightarrow> None
      | Some (ret, p, q) \<Rightarrow>
        let port = (if p = None then port else p); points = (case q of None \<Rightarrow> 1 | Some v \<Rightarrow> v) in
        if ret = 0 then Some []
        else if room \<le> 0 then None
        else (case (cadd acc points, port) of
                (Some acc, Some pt) \<Rightarrow>
                  (case csub acc 1 of None \<Rightarrow> None
                   | Some lst \<Rightarrow>
                     map_option (\<lambda>d. to_u32 pt # to_u32 lst # d)
                       (case next_spec spec of None \<Rightarrow> Some []
                        | Some spec' \<Rightarrow> mpr_pass2 spec' port acc (room - 1)))
              | _ \<Rightarrow> None))"
  by pat_completeness auto
termination
  by (relation "measure (\<lambda>(spec, port, acc, room). length spec)") (auto dest: next_spec_shorter)

declare mpr_pass1.simps [simp del] mpr_pass2.simps [simp del]

text \<open>\<open>while(mask<max) mask <<= 1\<close> on \<open>int\<close>.\<close>

partial_function (option) mpr_mask :: "int \<Rightarrow> int \<Rightarrow> int option" where
  "mpr_mask mx msk =
     (if msk < mx then (case cmul msk 2 of None \<Rightarrow> None | Some m \<Rightarrow> mpr_mask mx m) else Some msk)"

definition make_port_ranges :: "(nat \<Rightarrow> bool) \<Rightarrow> string \<Rightarrow> range_cfg ptr option" where
  "make_port_ranges malloc portspec =
     (case mpr_pass1 portspec None 0 0 of None \<Rightarrow> None
      | Some (port, num, mx) \<Rightarrow>
        (case cmul num 2 of None \<Rightarrow> None
         | Some n2 \<Rightarrow>
           if \<not> malloc (unat (12 + word_of_int n2 * 4 :: u64)) then Some Null
           else (case (csub mx 1, mpr_mask mx 1) of
                   (Some mx1, Some msk) \<Rightarrow>
                     map_option (\<lambda>d. Ptr \<lparr>cfg_num = num, cfg_max_idx = to_u32 mx1,
                         cfg_mask = to_u32 (msk - 1), cfg_ranges = d\<rparr>)
                       (mpr_pass2 portspec port 0 num)
                 | _ \<Rightarrow> None)))"

section \<open>Well-formed portspecs\<close>

definition spec_entry :: "int \<times> int \<Rightarrow> string" where
  "spec_entry e = dec_string (nat (fst e)) @ CHR '':'' # dec_string (nat (snd e))"

fun render_spec :: "(int \<times> int) list \<Rightarrow> string" where
  "render_spec [] = []"
| "render_spec [e] = spec_entry e"
| "render_spec (e # es) = spec_entry e @ CHR '','' # render_spec es"

lemma strstr_comma: "\<forall>c \<in> set s. c \<noteq> CHR '','' \<Longrightarrow>
    strstr (s @ rest) '','' = strstr rest '','' \<and> strstr s '','' = None"
  by (induction s) (auto simp: starts_with_def)

lemma spec_entry_no_comma: "\<forall>c \<in> set (spec_entry e). c \<noteq> CHR '',''"
  using dec_string_digits is_digit_distinct by (fastforce simp: spec_entry_def)

lemma next_spec_entry:
  "next_spec (spec_entry e @ CHR '','' # rest) = Some rest" "next_spec (spec_entry e) = None"
  using strstr_comma[OF spec_entry_no_comma, of e "CHR '','' # rest"]
    strstr_comma[OF spec_entry_no_comma, of e "[]"]
  by (simp_all add: next_spec_def starts_with_def)

lemma sscanf_entry:
  assumes "rest = [] \<or> hd rest = CHR '',''" and "0 \<le> p" "0 \<le> w" "int_ok p" "int_ok w"
  shows "sscanf_dd (spec_entry (p, w) @ rest) = Some (2, Some p, Some w)"
proof -
  have nd: "rest = [] \<or> \<not> is_digit (hd rest)" using assms(1) by (auto simp: is_digit_def)
  have c: "\<not> is_digit CHR '':''" by (simp add: is_digit_def)
  have "scan_d (dec_string (nat p) @ CHR '':'' # dec_string (nat w) @ rest)
      = Conv p (CHR '':'' # dec_string (nat w) @ rest)"
    using assms(2) c by (subst scan_d_dec) auto
  moreover have "scan_d (dec_string (nat w) @ rest) = Conv w rest"
    using assms(3) nd by (subst scan_d_dec) auto
  ultimately show ?thesis using assms by (simp add: sscanf_dd_def spec_entry_def)
qed

definition spec_ok :: "(int \<times> int) list \<Rightarrow> bool" where
  "spec_ok ps \<longleftrightarrow> (\<forall>(p, w) \<in> set ps. 0 \<le> p \<and> p < 2 ^ 31 \<and> 0 \<le> w) \<and>
     length ps < 2 ^ 30 \<and> sum_list (weights ps) \<le> 2 ^ 30"

lemma weights_Cons: "weights ((p, w) # ps) = nat w # weights ps"
  by (simp add: weights_def)

lemma mpr_pass1_render:
  assumes "\<forall>(p, w) \<in> set ps. 0 \<le> p \<and> p < 2 ^ 31 \<and> 0 \<le> w" and "ps \<noteq> []"
    and "0 \<le> num" "num + int (length ps) < 2 ^ 31"
    and "0 \<le> mx" "mx + int (sum_list (weights ps)) < 2 ^ 31"
  shows "mpr_pass1 (render_spec ps) port num mx
           = Some (Some (fst (List.last ps)), num + int (length ps), mx + int (sum_list (weights ps)))"
  using assms
proof (induction ps arbitrary: port num mx rule: render_spec.induct)
  case 1
  then show ?case by simp
next
  case (2 e)
  obtain p w where e: "e = (p, w)" by force
  have ok: "int_ok p" "int_ok w" "int_ok (num + 1)" "int_ok (mx + w)"
    using 2 e by (auto simp: int_ok_def weights_def)
  have "sscanf_dd (spec_entry (p, w)) = Some (2, Some p, Some w)"
    using sscanf_entry[of "[]" p w] 2 e ok by simp
  with 2 e ok show ?case
    by (subst mpr_pass1.simps) (simp add: next_spec_entry weights_def)
next
  case (3 e f es)
  obtain p w where e: "e = (p, w)" by force
  have ok: "int_ok p" "int_ok w" "int_ok (num + 1)" "int_ok (mx + w)"
    using 3 e by (auto simp: int_ok_def weights_Cons)
  have "sscanf_dd (spec_entry (p, w) @ CHR '','' # render_spec (f # es)) = Some (2, Some p, Some w)"
    using 3 e ok by (intro sscanf_entry) auto
  moreover have "mpr_pass1 (render_spec (f # es)) (Some p) (num + 1) (mx + w) =
      Some (Some (fst (List.last (f # es))), num + 1 + int (length (f # es)),
        mx + w + int (sum_list (weights (f # es))))"
    by (rule "3.IH") (use 3 e in \<open>auto simp: weights_Cons\<close>)
  ultimately show ?case using 3 e ok
    by (subst mpr_pass1.simps) (simp add: next_spec_entry weights_Cons)
qed

lemma mpr_pass2_render:
  assumes "\<forall>(p, w) \<in> set ps. 0 \<le> p \<and> p < 2 ^ 31 \<and> 0 \<le> w" and "ps \<noteq> []"
    and "int (length ps) \<le> room" and "0 \<le> acc" "acc + int (sum_list (weights ps)) < 2 ^ 31"
  shows "mpr_pass2 (render_spec ps) port acc room = Some (map to_u32 (fst (csp_data acc ps)))"
  using assms
proof (induction ps arbitrary: port acc room rule: render_spec.induct)
  case 1
  then show ?case by simp
next
  case (2 e)
  obtain p w where e: "e = (p, w)" by force
  have ok: "int_ok p" "int_ok w" "int_ok (acc + w)" "int_ok (acc + w - 1)"
    using 2 e by (auto simp: int_ok_def weights_def)
  have "sscanf_dd (spec_entry (p, w)) = Some (2, Some p, Some w)"
    using sscanf_entry[of "[]" p w] 2 e ok by simp
  with 2 e ok show ?case
    by (subst mpr_pass2.simps) (simp add: next_spec_entry weights_def Let_def)
next
  case (3 e f es)
  obtain p w where e: "e = (p, w)" by force
  have ok: "int_ok p" "int_ok w" "int_ok (acc + w)" "int_ok (acc + w - 1)"
    using 3 e by (auto simp: int_ok_def weights_Cons)
  have "sscanf_dd (spec_entry (p, w) @ CHR '','' # render_spec (f # es)) = Some (2, Some p, Some w)"
    using 3 e ok by (intro sscanf_entry) auto
  moreover have "mpr_pass2 (render_spec (f # es)) (Some p) (acc + w) (room - 1) =
      Some (map to_u32 (fst (csp_data (acc + w) (f # es))))"
    by (rule "3.IH") (use 3 e in \<open>auto simp: weights_Cons\<close>)
  ultimately show ?case using 3 e ok
    by (subst mpr_pass2.simps)
      (simp add: next_spec_entry weights_Cons Let_def case_prod_unfold del: csp_data.simps(2),
       simp add: case_prod_unfold Let_def)
qed

lemma mpr_mask_bits: "mx \<le> 2 ^ 30 \<Longrightarrow> k \<le> 30 \<Longrightarrow> mpr_mask mx (2 ^ k) = Some (2 ^ binmask_bits mx k)"
proof (induction mx k rule: binmask_bits.induct)
  case (1 mx k)
  show ?case
  proof (cases "2 ^ k < mx")
    case True
    then have "(2::int) ^ k < 2 ^ 30" using 1 by linarith
    then have k: "k < 30" by (rule power_less_imp_less_exp[rotated]) simp
    then have "(2::int) ^ Suc k \<le> 2 ^ 30" by (intro power_increasing) simp_all
    then have "(2::int) ^ Suc k < 2 ^ 31" by (rule le_less_trans) simp
    then have "int_ok (2 ^ Suc k)" by (intro int_ok_nonneg) simp_all
    then have "int_ok (2 ^ k * 2)" by (simp add: mult.commute)
    with 1 k True show ?thesis
      by (subst mpr_mask.simps, subst binmask_bits.simps) (simp add: mult.commute)
  next
    case False
    then show ?thesis by (subst mpr_mask.simps, subst binmask_bits.simps) simp
  qed
qed

lemma make_port_ranges_render:
  assumes ok: "spec_ok ps" and ne: "ps \<noteq> []"
    and m: "malloc (unat (12 + word_of_int (int (length ps) * 2) * 4 :: u64))"
  shows "make_port_ranges malloc (render_spec ps) = Some (Ptr (csp_cfg ps))"
proof -
  let ?n = "int (length ps)" and ?t = "int (sum_list (weights ps))"
  have el: "\<forall>(p, w) \<in> set ps. 0 \<le> p \<and> p < 2 ^ 31 \<and> 0 \<le> w" using ok by (simp add: spec_ok_def)
  have b: "?n < 2 ^ 30" "?t \<le> 2 ^ 30" using ok by (simp_all add: spec_ok_def)
  have p1: "mpr_pass1 (render_spec ps) None 0 0 = Some (Some (fst (List.last ps)), ?n, ?t)"
    using mpr_pass1_render[OF el ne, of 0 0 None] b by simp
  have p2: "mpr_pass2 (render_spec ps) port 0 ?n = Some (map to_u32 (fst (csp_data 0 ps)))" for port
    by (rule mpr_pass2_render[OF el ne]) (use b in simp_all)
  have msk: "mpr_mask ?t 1 = Some (2 ^ binmask_bits ?t 0)"
    using mpr_mask_bits[of ?t 0] b by simp
  have tt: "snd (csp_data 0 ps) = ?t"
    using csp_data_tot[of ps 0] el by force
  have "int_ok (?n * 2)" "int_ok (?t - 1)" using b by (auto simp: int_ok_def)
  then show ?thesis using m p1 p2 msk tt binmask_loop_bits[of ?t 0]
    by (simp add: make_port_ranges_def csp_cfg_def case_prod_unfold Let_def get_binmask_def)
qed

section \<open>Portspecs with no number\<close>

lemma make_port_ranges_unparsable:
  assumes "sscanf_dd portspec = Some (0, p, q)" and "malloc 12"
  shows "make_port_ranges malloc portspec
           = Some (Ptr \<lparr>cfg_num = 0, cfg_max_idx = - 1, cfg_mask = 0, cfg_ranges = []\<rparr>)"
proof -
  have "mpr_pass1 portspec None 0 0 = Some (p, 0, 0)"
    using assms(1) by (subst mpr_pass1.simps) (simp add: Let_def)
  moreover have "mpr_pass2 portspec port 0 0 = Some []" for port
    using assms(1) by (subst mpr_pass2.simps) (simp add: Let_def)
  moreover have "mpr_mask 0 1 = Some 1" by (subst mpr_mask.simps) simp
  ultimately show ?thesis using assms(2)
    by (simp add: make_port_ranges_def int_ok_def to_u32_def)
qed

lemma random_port_at_empty: "cfg_num cfg = 0 \<Longrightarrow> random_port_at cfg r = Some (-1)"
  by (simp add: random_port_at_def random_port_loop.simps)

end
