(* ===== verification/Sockets.thy ===== *)
theory Sockets
  imports Prelude
begin

unbundle bit_operations_syntax

text \<open>
  \<^verbatim>\<open>socket_utils.c\<close> over an operating system that is a parameter: a record of its calls as functions on
  a world \<open>'w\<close> (the clock, the descriptors and the peers are all in it). What the code relies on is
  stated where it is used: a \<open>read\<close> of \<open>n\<close> bytes delivers at most \<open>n\<close>.

  A negative result of the code is kept as the integer it is, since callers tell \<open>-1\<close> from \<open>-2\<close> and
  decode smaller ones.
\<close>

section \<open>The operating system\<close>

datatype errno = ECONNREFUSED | ENETUNREACH | EINPROGRESS | EAGAIN | EINTR | EPIPE | ECONNRESET
  | EADDRINUSE | EADDRNOTAVAIL | EOTHER

record revents =
  ev_in :: bool
  ev_out :: bool
  ev_err :: bool
  ev_hup :: bool

text \<open>
  \<open>os_ms\<close> is \<open>get_ms\<close>; \<open>os_getfl\<close> and \<open>os_setfl\<close> are \<open>fcntl\<close> with \<open>F_GETFL\<close>, \<open>F_SETFL\<close>; \<open>os_poll\<close> polls
  one descriptor for reading or (\<open>True\<close>) writing; \<open>os_read\<close> answers \<open>None\<close> for an error, whose
  \<open>errno\<close> the world holds.
\<close>

record 'w os =
  os_ms :: "'w \<Rightarrow> u64 \<times> 'w"
  os_socket :: "'w \<Rightarrow> int \<times> 'w"
  os_linger :: "int \<Rightarrow> 'w \<Rightarrow> 'w"
  os_cloexec :: "int \<Rightarrow> 'w \<Rightarrow> 'w"
  os_getfl :: "int \<Rightarrow> 'w \<Rightarrow> int \<times> 'w"
  os_setfl :: "int \<Rightarrow> u32 \<Rightarrow> 'w \<Rightarrow> int \<times> 'w"
  os_connect :: "int \<Rightarrow> u32 \<Rightarrow> u16 \<Rightarrow> 'w \<Rightarrow> (int \<times> errno) \<times> 'w"
  os_poll :: "int \<Rightarrow> bool \<Rightarrow> int \<Rightarrow> 'w \<Rightarrow> (int \<times> revents) \<times> 'w"
  os_read :: "int \<Rightarrow> nat \<Rightarrow> 'w \<Rightarrow> byte list option \<times> 'w"
  os_write :: "int \<Rightarrow> byte list \<Rightarrow> 'w \<Rightarrow> int \<times> 'w"
  os_close :: "int \<Rightarrow> 'w \<Rightarrow> 'w"
  os_errno :: "'w \<Rightarrow> errno"

definition O_NONBLOCK :: u32 where "O_NONBLOCK = 0x800"
definition NO_LINGER :: u32 where "NO_LINGER = 1"
definition NO_CLOEXEC :: u32 where "NO_CLOEXEC = 2"

section \<open>Connecting\<close>

definition set_socket_blocking :: "'w os \<Rightarrow> int \<Rightarrow> bool \<Rightarrow> 'w \<Rightarrow> int \<times> 'w" where
  "set_socket_blocking os sock blocking w =
     (let (flags, w) = os_getfl os sock w in
      if flags = -1 then (-1, w)
      else let fl = (if blocking then to_u32 flags AND NOT O_NONBLOCK else to_u32 flags OR O_NONBLOCK);
               (r, w) = os_setfl os sock fl w
           in if r = -1 then (-2, w) else (sock, w))"

definition socket4_setup :: "'w os \<Rightarrow> u32 \<Rightarrow> 'w \<Rightarrow> int \<times> 'w" where
  "socket4_setup os flags w =
     (let (sock, w) = os_socket os w in
      if sock = -1 then (-1, w)
      else let w = (if flags AND NO_LINGER = 0 then os_linger os sock w else w);
               w = (if flags AND NO_CLOEXEC = 0 then os_cloexec os sock w else w)
           in (sock, w))"

definition socket4_try_connect :: "'w os \<Rightarrow> int \<Rightarrow> u32 \<Rightarrow> int \<Rightarrow> 'w \<Rightarrow> int \<times> 'w" where
  "socket4_try_connect os sock ip port w =
     (let (r, w) = set_socket_blocking os sock False w in
      if r < 0 then (-2, os_close os sock w)
      else let ((cres, err), w) = os_connect os sock ip (word_of_int port) w in
        if cres = 0 then set_socket_blocking os sock True w
        else if err = ECONNREFUSED \<or> err = ENETUNREACH then (-1, os_close os sock w)
        else if err \<noteq> EINPROGRESS then (-2, os_close os sock w)
        else (- sock - 2, w))"

definition socket4_connect :: "'w os \<Rightarrow> u32 \<Rightarrow> int \<Rightarrow> int \<Rightarrow> 'w \<Rightarrow> int \<times> 'w" where
  "socket4_connect os ip port timeout w =
     (let (sock, w) = socket4_setup os 0 w in
      if sock < 0 then (-2, w)
      else let (sock, w) = socket4_try_connect os sock ip port w in
        if sock \<ge> -2 then (sock, w)
        else let sock = - sock - 2; ((pres, ev), w) = os_poll os sock True timeout w in
          if pres > 0 \<and> ev_out ev \<and> \<not> (ev_err ev \<or> ev_hup ev)
          then set_socket_blocking os sock True w
          else (-1, os_close os sock w))"

section \<open>Reading and writing all\<close>

text \<open>\<open>deadline - get_ms()\<close> as \<open>long long\<close>, and its conversion to the \<open>int\<close> that \<open>poll\<close> takes.\<close>

definition towait :: "u64 \<Rightarrow> u64 \<Rightarrow> int" where
  "towait deadline now = sint (deadline - now)"

definition poll_ms :: "int \<Rightarrow> int" where
  "poll_ms t = to_int32 (to_u32 t)"

text \<open>\<open>acc\<close> is what is in the buffer so far; the result tells success and the buffer's contents.\<close>

function read_all_loop :: "'w os \<Rightarrow> int \<Rightarrow> nat \<Rightarrow> u64 \<Rightarrow> byte list \<Rightarrow> 'w \<Rightarrow> bool \<times> byte list \<times> 'w" where
  "read_all_loop os sock sz deadline acc w =
     (if length acc < sz then
        let (now, w) = os_ms os w; t = towait deadline now in
        if t \<le> 0 then (False, acc, w)
        else let ((r, ev), w) = os_poll os sock False (poll_ms t) w in
          if r \<noteq> 1 \<or> \<not> ev_in ev then (False, acc, w)
          else let (d, w) = os_read os sock (sz - length acc) w in
            if d = None \<or> d = Some [] then (False, acc, w)
            else read_all_loop os sock sz deadline (acc @ the d) w
      else (True, acc, w))"
  by pat_completeness auto
termination
  by (relation "measure (\<lambda>(os, sock, sz, deadline, acc, w). sz - length acc)")
    (auto, metis diff_less_mono2 length_greater_0_conv less_add_same_cancel1)

declare read_all_loop.simps [simp del]

definition read_all :: "'w os \<Rightarrow> int \<Rightarrow> nat \<Rightarrow> u64 \<Rightarrow> 'w \<Rightarrow> bool \<times> byte list \<times> 'w" where
  "read_all os sock sz deadline w = read_all_loop os sock sz deadline [] w"

text \<open>\<open>written\<close> counts the bytes the calls so far reported.\<close>

function write_all_loop :: "'w os \<Rightarrow> int \<Rightarrow> byte list \<Rightarrow> nat \<Rightarrow> 'w \<Rightarrow> int \<times> 'w" where
  "write_all_loop os fd buf written w =
     (if written < length buf then
        let (r, w) = os_write os fd (drop written buf) w in
        if r \<le> 0 then (r, w) else write_all_loop os fd buf (written + nat r) w
      else (int (length buf), w))"
  by pat_completeness auto
termination
  by (relation "measure (\<lambda>(os, fd, buf, written, w). length buf - written)") auto

declare write_all_loop.simps [simp del]

definition write_all :: "'w os \<Rightarrow> int \<Rightarrow> byte list \<Rightarrow> 'w \<Rightarrow> int \<times> 'w" where
  "write_all os fd buf w = write_all_loop os fd buf 0 w"

section \<open>No descriptor is leaked\<close>

text \<open>
  What is relied on: a function \<open>fds\<close> tells the open descriptors of a world, \<open>socket\<close> opens a fresh
  one, \<open>close\<close> closes its argument, and no other call changes them.
\<close>

definition tracks_fds :: "'w os \<Rightarrow> ('w \<Rightarrow> int set) \<Rightarrow> bool" where
  "tracks_fds os fds \<longleftrightarrow>
     (\<forall>w. case os_socket os w of (s, w') \<Rightarrow>
        if s = -1 then fds w' = fds w else 0 \<le> s \<and> s \<notin> fds w \<and> fds w' = insert s (fds w)) \<and>
     (\<forall>fd w. fds (os_close os fd w) = fds w - {fd}) \<and>
     (\<forall>fd w. fds (os_linger os fd w) = fds w) \<and> (\<forall>fd w. fds (os_cloexec os fd w) = fds w) \<and>
     (\<forall>fd w. fds (snd (os_getfl os fd w)) = fds w) \<and>
     (\<forall>fd fl w. fds (snd (os_setfl os fd fl w)) = fds w) \<and>
     (\<forall>fd ip port w. fds (snd (os_connect os fd ip port w)) = fds w) \<and>
     (\<forall>fd wr t w. fds (snd (os_poll os fd wr t w)) = fds w)"

text \<open>\<open>fcntl\<close> does not fail on an open socket.\<close>

definition fcntl_works :: "'w os \<Rightarrow> bool" where
  "fcntl_works os \<longleftrightarrow> (\<forall>fd w. fst (os_getfl os fd w) \<noteq> -1) \<and> (\<forall>fd fl w. fst (os_setfl os fd fl w) \<noteq> -1)"

lemma tracksD:
  assumes "tracks_fds os fds"
  shows "os_socket os w = (s, w') \<Longrightarrow>
      if s = -1 then fds w' = fds w else 0 \<le> s \<and> s \<notin> fds w \<and> fds w' = insert s (fds w)"
    and "fds (os_close os fd w) = fds w - {fd}"
    and "fds (os_linger os fd w) = fds w"
    and "fds (os_cloexec os fd w) = fds w"
    and "os_getfl os fd w = (r, w') \<Longrightarrow> fds w' = fds w"
    and "os_setfl os fd fl w = (r, w') \<Longrightarrow> fds w' = fds w"
    and "os_connect os fd ip port w = (c, w') \<Longrightarrow> fds w' = fds w"
    and "os_poll os fd wr t w = (e, w') \<Longrightarrow> fds w' = fds w"
proof -
  note t = assms[unfolded tracks_fds_def]
  show "os_socket os w = (s, w') \<Longrightarrow>
      if s = -1 then fds w' = fds w else 0 \<le> s \<and> s \<notin> fds w \<and> fds w' = insert s (fds w)"
    using spec[OF conjunct1[OF t], of w] by simp
  show "fds (os_close os fd w) = fds w - {fd}" "fds (os_linger os fd w) = fds w"
    "fds (os_cloexec os fd w) = fds w" using t by simp_all
  have e: "fds (snd (os_getfl os fd w)) = fds w" "fds (snd (os_setfl os fd fl w)) = fds w"
    "fds (snd (os_connect os fd ip port w)) = fds w" "fds (snd (os_poll os fd wr t w)) = fds w"
    using t by simp_all
  show "os_getfl os fd w = (r, w') \<Longrightarrow> fds w' = fds w" using e(1) by simp
  show "os_setfl os fd fl w = (r, w') \<Longrightarrow> fds w' = fds w" using e(2) by simp
  show "os_connect os fd ip port w = (c, w') \<Longrightarrow> fds w' = fds w" using e(3) by simp
  show "os_poll os fd wr t w = (e, w') \<Longrightarrow> fds w' = fds w" using e(4) by simp
qed

lemma set_socket_blocking_ok:
  assumes "tracks_fds os fds" "fcntl_works os"
  shows "\<exists>w'. set_socket_blocking os sock b w = (sock, w') \<and> fds w' = fds w"
proof -
  obtain fl w1 where w1: "os_getfl os sock w = (fl, w1)" by force
  define f where "f = (if b then to_u32 fl AND NOT O_NONBLOCK else to_u32 fl OR O_NONBLOCK)"
  obtain r w2 where w2: "os_setfl os sock f w1 = (r, w2)" by force
  have "fl \<noteq> -1" "r \<noteq> -1" using assms(2) w1 w2 by (metis fcntl_works_def fst_conv)+
  moreover have "fds w2 = fds w" using tracksD(5,6)[OF assms(1)] w1 w2 by metis
  ultimately show ?thesis using w1 w2 by (simp add: set_socket_blocking_def f_def)
qed

lemma socket4_setup_ok:
  assumes "tracks_fds os fds" "socket4_setup os fl w = (s, w')"
  shows "if s = -1 then fds w' = fds w else 0 \<le> s \<and> s \<notin> fds w \<and> fds w' = insert s (fds w)"
proof -
  obtain s0 w0 where s0: "os_socket os w = (s0, w0)" by force
  note f = tracksD(1)[OF assms(1) s0] tracksD(3,4)[OF assms(1)]
  have "s = s0 \<and> fds w' = fds w0" using assms(2) s0 f(2,3)
    by (auto simp: socket4_setup_def Let_def split: if_splits)
  with f(1) show ?thesis by simp
qed

text \<open>What the result of \<open>socket4_try_connect\<close> says about the socket it was given.\<close>

lemma try_connect_ok:
  assumes os: "tracks_fds os fds" "fcntl_works os" and sock: "0 < sock"
    and r: "socket4_try_connect os sock ip port w = (r, w')"
  shows "(r = sock \<and> fds w' = fds w) \<or> (r < -2 \<and> - r - 2 = sock \<and> fds w' = fds w) \<or>
    ((r = -1 \<or> r = -2) \<and> fds w' = fds w - {sock})"
proof -
  obtain w1 where w1: "set_socket_blocking os sock False w = (sock, w1)" "fds w1 = fds w"
    using set_socket_blocking_ok[OF os] by blast
  obtain cres err w2 where w2: "os_connect os sock ip (word_of_int port) w1 = ((cres, err), w2)"
    by (cases "os_connect os sock ip (word_of_int port) w1") (auto simp: split_paired_all)
  then have f2: "fds w2 = fds w" using tracksD(7)[OF os(1)] w1(2) by metis
  obtain w3 where w3: "set_socket_blocking os sock True w2 = (sock, w3)" "fds w3 = fds w2"
    using set_socket_blocking_ok[OF os] by blast
  have cl: "fds (os_close os sock w2) = fds w2 - {sock}" by (rule tracksD(2)[OF os(1)])
  show ?thesis using r w1 w2 w3 f2 cl sock
    by (auto simp: socket4_try_connect_def split: if_splits)
qed

lemma socket4_connect_fds:
  assumes "tracks_fds os fds" "fcntl_works os" "0 \<in> fds w"
    and "socket4_connect os ip port timeout w = (s, w')"
  shows "0 < s \<and> s \<notin> fds w \<and> fds w' = insert s (fds w) \<or> (s = -1 \<or> s = -2) \<and> fds w' = fds w"
proof -
  obtain s1 w1 where s1: "socket4_setup os 0 w = (s1, w1)" by force
  note su = socket4_setup_ok[OF assms(1) s1]
  show ?thesis
  proof (cases "s1 < 0")
    case True
    then show ?thesis using assms(4) s1 su by (auto simp: socket4_connect_def split: if_splits)
  next
    case False
    then have f1: "0 < s1" "s1 \<notin> fds w" "fds w1 = insert s1 (fds w)"
      using su assms(3) by (auto split: if_splits intro: le_neq_trans)
    obtain r w2 where r: "socket4_try_connect os s1 ip port w1 = (r, w2)" by force
    note tc = try_connect_ok[OF assms(1,2) f1(1) r]
    show ?thesis
    proof (cases "r \<ge> -2")
      case True
      with tc f1 show ?thesis using assms(4) s1 r False by (auto simp: socket4_connect_def)
    next
      case no: False
      with tc f1(1) have sr: "- r - 2 = s1" "fds w2 = fds w1" by auto
      obtain pres ev w3 where po: "os_poll os s1 True timeout w2 = ((pres, ev), w3)" by (metis prod.exhaust)
      then have f3: "fds w3 = fds w2" using tracksD(8)[OF assms(1)] by metis
      obtain w4 where w4: "set_socket_blocking os s1 True w3 = (s1, w4)" "fds w4 = fds w3"
        using set_socket_blocking_ok[OF assms(1,2)] by blast
      have cl: "fds (os_close os s1 w3) = fds w3 - {s1}" by (rule tracksD(2)[OF assms(1)])
      show ?thesis using assms(4) s1 r False no sr po f3 w4 cl f1
        by (auto simp: socket4_connect_def split: if_splits)
    qed
  qed
qed


section \<open>A scripted peer\<close>

text \<open>
  An operating system with one peer: the segments it sends, in order (a \<open>read\<close> gets at most the rest
  of one segment), whether it closes afterwards, how \<open>connect\<close> answers, and at most how many bytes one
  \<open>write\<close> takes. The clock stands still.
\<close>

record peer =
  pe_in :: "byte list list"
  pe_eof :: bool
  pe_out :: "byte list"
  pe_mss :: nat
  pe_conn :: "errno option"
  pe_fds :: "int set"
  pe_now :: u64

fun peer_read :: "nat \<Rightarrow> byte list list \<Rightarrow> byte list \<times> byte list list" where
  "peer_read n [] = ([], [])"
| "peer_read n (s # ss) = (take n s, if length s \<le> n then ss else drop n s # ss)"

definition peer_os :: "peer os" where
  "peer_os = \<lparr>
     os_ms = (\<lambda>w. (pe_now w, w)),
     os_socket = (\<lambda>w. (if 3 \<in> pe_fds w then (-1, w) else (3, w\<lparr>pe_fds := insert 3 (pe_fds w)\<rparr>))),
     os_linger = (\<lambda>fd w. w), os_cloexec = (\<lambda>fd w. w),
     os_getfl = (\<lambda>fd w. (2, w)), os_setfl = (\<lambda>fd fl w. (0, w)),
     os_connect = (\<lambda>fd ip port w. (case pe_conn w of None \<Rightarrow> ((0, EOTHER), w) | Some e \<Rightarrow> ((-1, e), w))),
     os_poll = (\<lambda>fd wr t w. (if wr then ((1, \<lparr>ev_in = False, ev_out = True, ev_err = False, ev_hup = False\<rparr>), w)
        else if pe_in w \<noteq> [] \<or> pe_eof w
        then ((1, \<lparr>ev_in = True, ev_out = False, ev_err = False, ev_hup = False\<rparr>), w)
        else ((0, \<lparr>ev_in = False, ev_out = False, ev_err = False, ev_hup = False\<rparr>), w))),
     os_read = (\<lambda>fd n w. case peer_read n (pe_in w) of (d, ss) \<Rightarrow> (Some d, w\<lparr>pe_in := ss\<rparr>)),
     os_write = (\<lambda>fd b w. (int (min (pe_mss w) (length b)), w\<lparr>pe_out := pe_out w @ take (pe_mss w) b\<rparr>)),
     os_close = (\<lambda>fd w. w\<lparr>pe_fds := pe_fds w - {fd}\<rparr>),
     os_errno = (\<lambda>w. EOTHER)\<rparr>"

lemma peer_os_simps [simp]:
  "os_ms peer_os w = (pe_now w, w)"
  "os_read peer_os fd n w = (case peer_read n (pe_in w) of (d, ss) \<Rightarrow> (Some d, w\<lparr>pe_in := ss\<rparr>))"
  "os_write peer_os fd b w = (int (min (pe_mss w) (length b)), w\<lparr>pe_out := pe_out w @ take (pe_mss w) b\<rparr>)"
  "os_close peer_os fd w = w\<lparr>pe_fds := pe_fds w - {fd}\<rparr>"
  "os_getfl peer_os fd w = (2, w)" "os_setfl peer_os fd fl w = (0, w)"
  by (simp_all add: peer_os_def)

lemma peer_tracks: "tracks_fds peer_os pe_fds" "fcntl_works peer_os"
  by (simp_all add: tracks_fds_def fcntl_works_def peer_os_def split: option.splits)


text \<open>Segments are non-empty; \<open>peer_read\<close> splits their concatenation.\<close>

lemma peer_read_concat:
  "peer_read n ss = (d, ss') \<Longrightarrow> concat ss = d @ concat ss' \<and> length d \<le> n \<and>
     ([] \<notin> set ss \<longrightarrow> [] \<notin> set ss' \<and> (d = [] \<longleftrightarrow> n = 0 \<or> ss = []))"
  by (cases ss) (auto split: if_splits)

lemma read_all_loop_peer:
  assumes "[] \<notin> set (pe_in w)" "0 < towait deadline (pe_now w)" "length acc \<le> sz"
  shows "\<exists>ss. read_all_loop peer_os fd sz deadline acc w =
      (sz \<le> length acc + length (concat (pe_in w)),
       acc @ take (sz - length acc) (concat (pe_in w)), w\<lparr>pe_in := ss\<rparr>) \<and>
    concat ss = drop (sz - length acc) (concat (pe_in w)) \<and> [] \<notin> set ss"
  using assms
proof (induction "sz - length acc" arbitrary: acc w rule: less_induct)
  case less
  show ?case
  proof (cases "length acc < sz")
    case False
    with less.prems show ?thesis
      by (subst read_all_loop.simps) (auto intro!: exI[of _ "pe_in w"])
  next
    case short: True
    show ?thesis
    proof (cases "pe_in w = []")
      case True
      then have w: "w\<lparr>pe_in := []\<rparr> = w" by (cases w) simp
      show ?thesis using True short less.prems(2) w
        by (subst read_all_loop.simps) (auto simp: peer_os_def Let_def intro!: exI[of _ "[]"])
    next
      case False
      obtain d ss where d: "peer_read (sz - length acc) (pe_in w) = (d, ss)" by force
      note pr = peer_read_concat[OF d]
      have ne: "d \<noteq> []" using pr less.prems(1) short False by auto
      have le: "length (acc @ d) \<le> sz"
      proof -
        have "length d \<le> sz - length acc" using pr by blast
        then show ?thesis using short by simp
      qed
      have dec: "sz - length (acc @ d) < sz - length acc" using ne short by (cases d) auto
      let ?w = "w\<lparr>pe_in := ss\<rparr>"
      obtain ss' where IH: "read_all_loop peer_os fd sz deadline (acc @ d) ?w =
          (sz \<le> length (acc @ d) + length (concat ss),
           (acc @ d) @ take (sz - length (acc @ d)) (concat ss), ?w\<lparr>pe_in := ss'\<rparr>)"
        "concat ss' = drop (sz - length (acc @ d)) (concat ss)" "[] \<notin> set ss'"
        using less.hyps[OF dec, of ?w] less.prems pr le by auto
      have "read_all_loop peer_os fd sz deadline acc w = read_all_loop peer_os fd sz deadline (acc @ d) ?w"
        using short less.prems(2) False d ne
        by (subst read_all_loop.simps) (simp add: peer_os_def Let_def)
      moreover have "length d \<le> sz - length acc" using pr by simp
      ultimately show ?thesis using IH pr by (intro exI[of _ ss']) auto
    qed
  qed
qed

text \<open>C27: \<open>read_all\<close> does not depend on how the stream is cut into segments: before its deadline it
  fails exactly when the peer sends fewer bytes than asked for, and delivers the first bytes of the
  stream, leaving the rest unread.\<close>

theorem read_all_segments:
  assumes "[] \<notin> set (pe_in w)" "0 < towait deadline (pe_now w)"
  shows "\<exists>ss. read_all peer_os fd sz deadline w =
      (sz \<le> length (concat (pe_in w)), take sz (concat (pe_in w)), w\<lparr>pe_in := ss\<rparr>) \<and>
    concat ss = drop sz (concat (pe_in w))"
  using read_all_loop_peer[OF assms, of "[]" sz fd] by (auto simp: read_all_def)

abbreviation (input) peer1 :: peer where
  "peer1 \<equiv> \<lparr>pe_in = [[1, 2], [3], [4, 5, 6]], pe_eof = False, pe_out = [], pe_mss = 2,
     pe_conn = None, pe_fds = {0}, pe_now = 0\<rparr>"

theorem read_all_segments_witness:
  "\<exists>ss. read_all peer_os 3 4 100 peer1 = (True, [1, 2, 3, 4], peer1\<lparr>pe_in := ss\<rparr>) \<and> concat ss = [5, 6]"
proof -
  have "0 < towait 100 0" by (simp add: towait_def)
  then show ?thesis using read_all_segments[of peer1 100 3 4] by simp
qed

text \<open>C28: \<open>write_all\<close> writes everything, in order, however few bytes each \<open>write\<close> takes.\<close>

theorem write_all_complete:
  assumes "0 < pe_mss w"
  shows "write_all peer_os fd buf w = (int (length buf), w\<lparr>pe_out := pe_out w @ buf\<rparr>)"
proof -
  have "write_all_loop peer_os fd buf n w = (int (length buf), w\<lparr>pe_out := pe_out w @ drop n buf\<rparr>)"
    if "0 < pe_mss w" "n \<le> length buf" for n w
    using that
  proof (induction "length buf - n" arbitrary: n w rule: less_induct)
    case less
    let ?k = "min (pe_mss w) (length buf - n)"
    show ?case
    proof (cases "n < length buf")
      case True
      have "write_all_loop peer_os fd buf (n + ?k) (w\<lparr>pe_out := pe_out w @ take (pe_mss w) (drop n buf)\<rparr>)
          = (int (length buf), w\<lparr>pe_out := (pe_out w @ take (pe_mss w) (drop n buf)) @ drop (n + ?k) buf\<rparr>)"
        using less.hyps[of "n + ?k" "w\<lparr>pe_out := pe_out w @ take (pe_mss w) (drop n buf)\<rparr>"] less.prems True
        by auto
      moreover have "take (pe_mss w) (drop n buf) @ drop (n + ?k) buf = drop n buf"
        by (cases "pe_mss w \<le> length buf - n") (simp_all add: min_def add.commute[of n] flip: drop_drop)
      ultimately show ?thesis using less.prems True
        by (subst write_all_loop.simps) (auto simp: min_def)
    next
      case False
      with less.prems show ?thesis by (subst write_all_loop.simps) simp
    qed
  qed
  from this[OF assms, of 0] show ?thesis by (simp add: write_all_def)
qed

theorem write_all_complete_witness: "write_all peer_os 3 [7, 8, 9] peer1 = (3, peer1\<lparr>pe_out := [7, 8, 9]\<rparr>)"
  using write_all_complete[of peer1 3 "[7, 8, 9]"] by simp

end
