(* ===== verification/Ts.thy ===== *)
theory Ts
  imports Sockets "HOL-Library.Monad_Syntax"
begin

unbundle bit_operations_syntax

text \<open>
  \<^verbatim>\<open>modules/ts.c\<close>: sockets that are plain or carry TLS. The TLS library is a parameter, a record of the
  calls made of it as functions on the world; \<open>None\<close> in place of the record is a build without
  \<open>HAVE_TLS\<close>. The loops over TLS end only when the library or the deadline ends them, so they are
  partial functions: \<open>None\<close> is a loop that never ends.
\<close>

section \<open>The TLS library and the socket\<close>

record 'w tls =
  tls_want_read :: int
  tls_want_write :: int
  tls_setup :: "int \<Rightarrow> 'w \<Rightarrow> int \<times> 'w"
  tls_handshake :: "int \<Rightarrow> 'w \<Rightarrow> int \<times> 'w"
  tls_read :: "int \<Rightarrow> nat \<Rightarrow> 'w \<Rightarrow> (int \<times> byte list) \<times> 'w"
  tls_write :: "int \<Rightarrow> byte list \<Rightarrow> 'w \<Rightarrow> int \<times> 'w"
  tls_free :: "int \<Rightarrow> 'w \<Rightarrow> 'w"

record tsocket =
  ts_fd :: int
  ts_is_ssl :: bool

definition CONN_RESET :: int where "CONN_RESET = -10"
definition ERR_FAILED :: int where "ERR_FAILED = -11"

text \<open>The callbacks the library reads and writes through: the error codes they translate \<open>errno\<close> to.\<close>

definition bio_error :: "errno \<Rightarrow> int \<Rightarrow> int" where
  "bio_error e want =
     (if e = EAGAIN \<or> e = EINTR then want
      else if e = EPIPE \<or> e = ECONNRESET then CONN_RESET else ERR_FAILED)"

definition ts_bio_recv :: "'w os \<Rightarrow> 'w tls \<Rightarrow> tsocket \<Rightarrow> nat \<Rightarrow> 'w \<Rightarrow> (int \<times> byte list) \<times> 'w" where
  "ts_bio_recv os tls ts n w =
     (case os_read os (ts_fd ts) n w of
        (None, w) \<Rightarrow> ((bio_error (os_errno os w) (tls_want_read tls), []), w)
      | (Some d, w) \<Rightarrow> ((int (length d), d), w))"

definition ts_bio_send :: "'w os \<Rightarrow> 'w tls \<Rightarrow> tsocket \<Rightarrow> byte list \<Rightarrow> 'w \<Rightarrow> int \<times> 'w" where
  "ts_bio_send os tls ts buf w =
     (let (r, w) = os_write os (ts_fd ts) buf w
      in if r < 0 then (bio_error (os_errno os w) (tls_want_write tls), w) else (r, w))"

text \<open>\<open>ts_socket\<close>: when \<open>fcntl\<close> fails, \<open>is_ssl\<close> keeps what the uninitialised struct held.\<close>

definition ts_socket :: "'w os \<Rightarrow> bool \<Rightarrow> int \<Rightarrow> 'w \<Rightarrow> tsocket \<times> int \<times> 'w" where
  "ts_socket os junk fd w =
     (let (fl, w) = os_getfl os fd w; (r, w) = os_setfl os fd (to_u32 fl OR O_NONBLOCK) w
      in if r = -1 then (\<lparr>ts_fd = fd, ts_is_ssl = junk\<rparr>, 0, w)
         else (\<lparr>ts_fd = fd, ts_is_ssl = False\<rparr>, 1, w))"

definition ts_wait :: "'w os \<Rightarrow> tsocket \<Rightarrow> u64 \<Rightarrow> bool \<Rightarrow> 'w \<Rightarrow> bool \<times> 'w" where
  "ts_wait os ts deadline want_write w =
     (let (now, w) = os_ms os w; t = towait deadline now in
      if t \<le> 0 then (False, w)
      else let ((r, ev), w) = os_poll os (ts_fd ts) want_write (poll_ms t) w
        in if r \<noteq> 1 \<or> \<not> (if want_write then ev_out ev else ev_in ev) then (False, w) else (True, w))"

section \<open>The handshake\<close>

partial_function (option) handshake_loop ::
  "'w os \<Rightarrow> 'w tls \<Rightarrow> tsocket \<Rightarrow> u64 \<Rightarrow> 'w \<Rightarrow> (bool \<times> 'w) option" where
  "handshake_loop os tls ts deadline w =
     (let (r, w) = tls_handshake tls (ts_fd ts) w in
      if r = 0 then Some (True, w)
      else if r \<noteq> tls_want_read tls \<and> r \<noteq> tls_want_write tls then Some (False, w)
      else let (ok, w) = ts_wait os ts deadline (r = tls_want_write tls) w in
        if ok then handshake_loop os tls ts deadline w else Some (False, w))"

definition ts_go_tls :: "'w os \<Rightarrow> 'w tls option \<Rightarrow> tsocket \<Rightarrow> u64 \<Rightarrow> 'w \<Rightarrow> (int \<times> tsocket \<times> 'w) option" where
  "ts_go_tls os have ts deadline w =
     (case have of None \<Rightarrow> Some (0, ts, w)
      | Some tls \<Rightarrow>
          let (r, w) = tls_setup tls (ts_fd ts) w in
          if r \<noteq> 0 then Some (0, ts, tls_free tls (ts_fd ts) w)
          else do {
            (ok, w) \<leftarrow> handshake_loop os tls ts deadline w;
            Some (if ok then (1, ts\<lparr>ts_is_ssl := True\<rparr>, w) else (0, ts, tls_free tls (ts_fd ts) w))
          })"

section \<open>Reading and writing\<close>

text \<open>\<open>ssl\<close> is the library when the socket carries TLS (and the build has it).\<close>

definition ts_ssl :: "'w tls option \<Rightarrow> tsocket \<Rightarrow> 'w tls option" where
  "ts_ssl have ts = (if ts_is_ssl ts then have else None)"

partial_function (option) ts_read_loop ::
  "'w os \<Rightarrow> 'w tls option \<Rightarrow> tsocket \<Rightarrow> nat \<Rightarrow> u64 \<Rightarrow> byte list \<Rightarrow> 'w \<Rightarrow> (bool \<times> byte list \<times> 'w) option" where
  "ts_read_loop os ssl ts sz deadline acc w =
     (if sz \<le> length acc then Some (True, acc, w)
      else (case ssl of
        None \<Rightarrow>
          let (ok, w) = ts_wait os ts deadline False w in
          if \<not> ok then Some (False, acc, w)
          else let (d, w) = os_read os (ts_fd ts) (sz - length acc) w in
            if d = None \<or> d = Some [] then Some (False, acc, w)
            else ts_read_loop os ssl ts sz deadline (acc @ the d) w
      | Some tls \<Rightarrow>
          let ((r, d), w) = tls_read tls (ts_fd ts) (sz - length acc) w in
          if r = 0 \<or> (r < 0 \<and> r \<noteq> tls_want_read tls \<and> r \<noteq> tls_want_write tls) then Some (False, acc, w)
          else if r < 0 then
            let (ok, w) = ts_wait os ts deadline (r = tls_want_write tls) w in
            if \<not> ok then Some (False, acc, w) else ts_read_loop os ssl ts sz deadline acc w
          else ts_read_loop os ssl ts sz deadline (acc @ d) w))"

definition ts_read_all ::
  "'w os \<Rightarrow> 'w tls option \<Rightarrow> tsocket \<Rightarrow> nat \<Rightarrow> u64 \<Rightarrow> 'w \<Rightarrow> (bool \<times> byte list \<times> 'w) option" where
  "ts_read_all os have ts sz deadline w = ts_read_loop os (ts_ssl have ts) ts sz deadline [] w"

partial_function (option) ts_write_loop ::
  "'w os \<Rightarrow> 'w tls option \<Rightarrow> tsocket \<Rightarrow> byte list \<Rightarrow> u64 \<Rightarrow> nat \<Rightarrow> 'w \<Rightarrow> (bool \<times> 'w) option" where
  "ts_write_loop os ssl ts buf deadline written w =
     (if length buf \<le> written then Some (True, w)
      else (case ssl of
        None \<Rightarrow>
          let (ok, w) = ts_wait os ts deadline True w in
          if \<not> ok then Some (False, w)
          else let (r, w) = os_write os (ts_fd ts) (drop written buf) w in
            if r \<le> 0 then Some (False, w)
            else ts_write_loop os ssl ts buf deadline (written + nat r) w
      | Some tls \<Rightarrow>
          let (r, w) = tls_write tls (ts_fd ts) (drop written buf) w in
          if r = 0 \<or> (r < 0 \<and> r \<noteq> tls_want_read tls \<and> r \<noteq> tls_want_write tls) then Some (False, w)
          else if r < 0 then
            let (ok, w) = ts_wait os ts deadline (r = tls_want_write tls) w in
            if \<not> ok then Some (False, w) else ts_write_loop os ssl ts buf deadline written w
          else ts_write_loop os ssl ts buf deadline (written + nat r) w))"

definition ts_write_all ::
  "'w os \<Rightarrow> 'w tls option \<Rightarrow> tsocket \<Rightarrow> byte list \<Rightarrow> u64 \<Rightarrow> 'w \<Rightarrow> (bool \<times> 'w) option" where
  "ts_write_all os have ts buf deadline w = ts_write_loop os (ts_ssl have ts) ts buf deadline 0 w"

definition ts_close :: "'w os \<Rightarrow> 'w tls option \<Rightarrow> tsocket \<Rightarrow> 'w \<Rightarrow> tsocket \<times> 'w" where
  "ts_close os have ts w =
     (let w' = os_close os (ts_fd ts) w in
      case ts_ssl have ts of None \<Rightarrow> (ts\<lparr>ts_fd := -1\<rparr>, w')
      | Some tls \<Rightarrow> (ts\<lparr>ts_fd := -1, ts_is_ssl := False\<rparr>, tls_free tls (ts_fd ts) w'))"

section \<open>Plain sockets\<close>

lemma ts_read_loop_plain:
  "ts_read_loop os None ts sz deadline acc w = Some (read_all_loop os (ts_fd ts) sz deadline acc w)"
proof (induction "sz - length acc" arbitrary: acc w rule: less_induct)
  case less
  have IH: "ts_read_loop os None ts sz deadline (acc @ y) v
      = Some (read_all_loop os (ts_fd ts) sz deadline (acc @ y) v)"
    if "y \<noteq> []" "\<not> sz \<le> length acc" for y v
    by (rule less.hyps) (use that in \<open>cases y, auto\<close>)
  show ?case
    by (subst ts_read_loop.simps, subst read_all_loop.simps)
      (auto simp: ts_wait_def Let_def not_less IH split: prod.splits)
qed

lemma ts_read_all_is_read_all:
  "\<not> ts_is_ssl ts \<Longrightarrow> ts_read_all os have ts sz deadline w = Some (read_all os (ts_fd ts) sz deadline w)"
  by (simp add: ts_read_all_def ts_ssl_def ts_read_loop_plain read_all_def)

lemma ts_write_loop_plain: "\<exists>r. ts_write_loop os None ts buf deadline n w = Some r"
proof (induction "length buf - n" arbitrary: n w rule: less_induct)
  case less
  have IH: "\<exists>r. ts_write_loop os None ts buf deadline (n + nat k) v = Some r"
    if "0 < k" "\<not> length buf \<le> n" for k v
    by (rule less.hyps) (use that in auto)
  show ?case
    by (subst ts_write_loop.simps)
      (auto simp: Let_def not_le IH simp del: split_paired_Ex split: prod.splits)
qed

lemma ts_write_loop_peer:
  assumes "0 < towait deadline (pe_now w)" "0 < pe_mss w" "n \<le> length buf"
  shows "ts_write_loop peer_os None ts buf deadline n w = Some (True, w\<lparr>pe_out := pe_out w @ drop n buf\<rparr>)"
  using assms
proof (induction "length buf - n" arbitrary: n w rule: less_induct)
  case less
  let ?k = "min (pe_mss w) (length buf - n)"
  let ?w = "w\<lparr>pe_out := pe_out w @ take (pe_mss w) (drop n buf)\<rparr>"
  show ?case
  proof (cases "n < length buf")
    case True
    have "ts_write_loop peer_os None ts buf deadline (n + ?k) ?w
        = Some (True, ?w\<lparr>pe_out := pe_out ?w @ drop (n + ?k) buf\<rparr>)"
      by (rule less.hyps) (use less.prems True in auto)
    moreover have "take (pe_mss w) (drop n buf) @ drop (n + ?k) buf = drop n buf"
      by (cases "pe_mss w \<le> length buf - n") (simp_all add: min_def add.commute[of n] flip: drop_drop)
    moreover have "ts_wait peer_os ts deadline True w = (True, w)"
      using less.prems by (simp add: ts_wait_def peer_os_def)
    ultimately show ?thesis using less.prems True
      by (subst ts_write_loop.simps) (auto simp: min_def Let_def)
  next
    case False
    with less.prems show ?thesis by (subst ts_write_loop.simps) simp
  qed
qed

text \<open>C29: on a plain socket \<open>ts_read_all\<close> is \<open>read_all\<close>: same polls, same reads, same result, whatever
  the operating system does, in builds with and without TLS. In particular it always returns.\<close>

theorem ts_read_all_plain:
  assumes "\<not> ts_is_ssl ts"
  shows "ts_read_all os have ts sz deadline w = Some (read_all os (ts_fd ts) sz deadline w)"
  using assms by (rule ts_read_all_is_read_all)

theorem ts_read_all_plain_witness:
  "\<exists>ss. ts_read_all peer_os None \<lparr>ts_fd = 3, ts_is_ssl = False\<rparr> 4 100 peer1
     = Some (True, [1, 2, 3, 4], peer1\<lparr>pe_in := ss\<rparr>)"
proof -
  have "read_all peer_os 3 4 100 peer1 = (True, [1, 2, 3, 4], peer1\<lparr>pe_in := [[5, 6]]\<rparr>)"
    by code_simp
  with ts_read_all_plain[of "\<lparr>ts_fd = 3, ts_is_ssl = False\<rparr>" peer_os None 4 100 peer1]
  show ?thesis by auto
qed

end
