(* ===== verification/Cba.thy ===== *)
theory Cba
  imports Cstr "HOL-Library.Monad_Syntax"
begin

unbundle bit_operations_syntax

text \<open>
  The result writer \<^verbatim>\<open>cba.c\<close>. Its thread-local variables are the record \<open>cba_thread\<close>; a call returns
  the new thread state and what it did to the outside, in order: writes made under \<open>fd_lock\<close> as one
  block, writes made without the lock, and what is done when no file is open: text that is printed, and
  \<open>Saved path d\<close>, a file of its own that is made and written, if the system allows it. A formatted string is
  the byte list \<open>vsnprintf\<close> would produce (no NUL byte); the bytes of an array that are not yet
  written are part of the state. \<open>None\<close> is a store or a read outside an array.
\<close>

section \<open>State\<close>

record cba_thread =
  thread_id :: byte
  next_code :: u32
  deferred_buffer :: "byte list"
  deferred_bytes :: int

datatype cba_io =
  Locked "byte list list" | Unlocked "byte list" | Print "byte list" | Saved "byte list" "byte list"

definition CBA_MAXBUFF :: nat where "CBA_MAXBUFF = 32768"
definition CBA_DEFERBUFF :: nat where "CBA_DEFERBUFF = 2048"

definition CBA_HEAD :: byte where "CBA_HEAD = 0"
definition CBA_STR :: byte where "CBA_STR = 1"
definition CBA_FILE :: byte where "CBA_FILE = 2"
definition CBA_DATA :: byte where "CBA_DATA = 3"
definition CBA_INT32 :: byte where "CBA_INT32 = 4"
definition CBA_INT64 :: byte where "CBA_INT64 = 5"
definition CBA_BIT :: byte where "CBA_BIT = 6"

lemmas cba_types = CBA_HEAD_def CBA_STR_def CBA_FILE_def CBA_DATA_def CBA_INT32_def CBA_INT64_def
  CBA_BIT_def

definition ascii :: "string \<Rightarrow> byte list" where
  "ascii s = map (\<lambda>c. of_char c) s"

text \<open>\<open>strlen\<close> of the string that starts an array; \<open>None\<close> when it has no NUL byte.\<close>

fun c_strlen :: "byte list \<Rightarrow> nat option" where
  "c_strlen [] = None"
| "c_strlen (b # bs) = (if b = 0 then Some 0 else map_option Suc (c_strlen bs))"

text \<open>\<open>memcpy\<close> into an array.\<close>

definition arr_put :: "byte list \<Rightarrow> int \<Rightarrow> byte list \<Rightarrow> byte list option" where
  "arr_put xs i ys = (if 0 \<le> i \<and> nat i + length ys \<le> length xs
     then Some (take (nat i) xs @ ys @ drop (nat i + length ys) xs) else None)"

definition cba_thread_init :: "byte \<Rightarrow> cba_thread" where
  "cba_thread_init tid = \<lparr>thread_id = tid, next_code = 0,
     deferred_buffer = replicate CBA_DEFERBUFF 0, deferred_bytes = 0\<rparr>"

text \<open>\<open>cba_open_file\<close>: what it appends to a file of the given size (a little-endian host).\<close>

definition cba_open_file :: "nat \<Rightarrow> byte list" where
  "cba_open_file st_size = (if st_size = 0 then ascii ''L'' else [])"

section \<open>Building packets\<close>

definition write_hdr_buff :: "byte \<Rightarrow> cba_thread \<Rightarrow> byte list \<times> cba_thread" where
  "write_hdr_buff ty t =
     (thread_id t # (ty OR (if next_code t \<noteq> 0 then 0x80 else 0)) #
        (if next_code t \<noteq> 0 then le32 (next_code t) else []),
      t\<lparr>next_code := 0\<rparr>)"

text \<open>
  The deferred half of \<open>write_str_buff\<close>: \<open>buffer\<close> is \<open>deferred_buffer + off\<close>. The result is the new
  thread state and the length added.
\<close>

definition write_str_buff :: "int \<Rightarrow> int \<Rightarrow> byte list \<Rightarrow> cba_thread \<Rightarrow> (cba_thread \<times> int) option" where
  "write_str_buff off bufsize s t = do {
     let buff = take (CBA_MAXBUFF - 1) s;
     let (hdr, t) = write_hdr_buff CBA_STR t;
     let pos = int (length hdr);
     db \<leftarrow> arr_put (deferred_buffer t) off hdr;
     let len = (if int (length buff) \<ge> bufsize - pos - 6
                then (word_of_int (bufsize - pos - 6 - 1) :: u16)
                else word_of_nat (length buff));
     db \<leftarrow> arr_set db (off + pos + int (unat len) - 1) 0;
     db \<leftarrow> arr_put db (off + pos) (le16 len);
     (if unat len \<le> length buff then Some () else None);
     db \<leftarrow> arr_put db (off + pos + 2) (take (unat len) buff);
     Some (t\<lparr>deferred_buffer := db\<rparr>, pos + 2 + int (unat len))
   }"

text \<open>The immediate half: \<open>buffer\<close> is \<open>NULL\<close>.\<close>

definition write_str :: "bool \<Rightarrow> byte list \<Rightarrow> cba_thread \<Rightarrow> cba_thread \<times> cba_io list" where
  "write_str has_file s t =
     (let buff = take (CBA_MAXBUFF - 1) s in
      if \<not> has_file then (t, [Print (buff @ ascii [CHR 0x0A])])
      else let (hdr, t) = write_hdr_buff CBA_STR t in
        (t, [Locked [hdr, le16 (word_of_nat (length buff)), buff]]))"

section \<open>The calls\<close>

definition cba_head :: "bool \<Rightarrow> byte list \<Rightarrow> cba_thread \<Rightarrow> cba_thread option" where
  "cba_head has_file module t = do {
     let len = length module mod 256;
     if \<not> has_file then do {
       db \<leftarrow> (if len \<noteq> 0
              then arr_put (deferred_buffer t) 0
                (take (CBA_DEFERBUFF - 1) (ascii ''module: '' @ module @ ascii [CHR 0x0A]) @ [0])
              else Some (deferred_buffer t));
       n \<leftarrow> c_strlen db;
       Some (t\<lparr>deferred_buffer := db, deferred_bytes := int n\<rparr>)
     } else do {
       let (hdr, t) = write_hdr_buff CBA_HEAD t;
       db \<leftarrow> arr_put (deferred_buffer t) 0 hdr;
       db \<leftarrow> arr_put db (int (length hdr)) [word_of_nat (length module)];
       db \<leftarrow> arr_put db (int (length hdr) + 1) (take len module);
       Some (t\<lparr>deferred_buffer := db, deferred_bytes := int (length hdr) + 1 + int len\<rparr>)
     }
   }"

definition cba_code :: "u32 \<Rightarrow> cba_thread \<Rightarrow> cba_thread" where
  "cba_code c t = t\<lparr>next_code := c\<rparr>"

definition cba_flush :: "bool \<Rightarrow> cba_thread \<Rightarrow> (cba_thread \<times> cba_io list) option" where
  "cba_flush has_file t = do {
     io \<leftarrow> (if deferred_bytes t = 0 then Some []
            else if \<not> has_file
            then map_option (\<lambda>n. [Print (take n (deferred_buffer t))]) (c_strlen (deferred_buffer t))
            else if 0 \<le> deferred_bytes t \<and> nat (deferred_bytes t) \<le> length (deferred_buffer t)
            then Some [Unlocked (take (nat (deferred_bytes t)) (deferred_buffer t))]
            else None);
     Some (t\<lparr>deferred_bytes := 0\<rparr>, io)
   }"

definition cba_defer_str :: "bool \<Rightarrow> byte list \<Rightarrow> cba_thread \<Rightarrow> (cba_thread \<times> cba_io list) option" where
  "cba_defer_str has_file s t =
     (if deferred_bytes t = 0 then Some (write_str has_file s t)
      else let room = int CBA_DEFERBUFF - deferred_bytes t in
        if \<not> has_file then do {
          db \<leftarrow> (if room \<le> 0 then Some (deferred_buffer t)
                 else arr_put (deferred_buffer t) (deferred_bytes t) (take (nat room - 1) s @ [0]));
          n \<leftarrow> c_strlen db;
          db \<leftarrow> arr_put db (int n) [0x0A, 0];
          Some (t\<lparr>deferred_buffer := db, deferred_bytes := int n + 1\<rparr>, [])
        } else do {
          (t', n) \<leftarrow> write_str_buff (deferred_bytes t) room s t;
          Some (t'\<lparr>deferred_bytes := deferred_bytes t + n\<rparr>, [])
        })"

definition cba_vstr :: "bool \<Rightarrow> byte list \<Rightarrow> cba_thread \<Rightarrow> (cba_thread \<times> cba_io list) option" where
  "cba_vstr has_file s t = do {
     (t, io) \<leftarrow> cba_flush has_file t;
     let (t, io') = write_str has_file s t;
     Some (t, io @ io')
   }"

text \<open>\<open>cba_bit\<close> sets the code before it flushes, and prints the decimal code without a file.\<close>

definition cba_bit :: "bool \<Rightarrow> u32 \<Rightarrow> cba_thread \<Rightarrow> (cba_thread \<times> cba_io list) option" where
  "cba_bit has_file code t = do {
     (t, io) \<leftarrow> cba_flush has_file (cba_code code t);
     if \<not> has_file
     then Some (t, io @ [Print (ascii (''bit set for code '' @ int_string (to_int32 code) @ [CHR 0x0A]))])
     else (let (hdr, t) = write_hdr_buff CBA_BIT t in Some (t, io @ [Locked [hdr]]))
   }"

definition cba_int32 :: "bool \<Rightarrow> u32 \<Rightarrow> cba_thread \<Rightarrow> (cba_thread \<times> cba_io list) option" where
  "cba_int32 has_file num t = do {
     (t, io) \<leftarrow> cba_flush has_file t;
     if \<not> has_file
     then Some (t, io @ [Print (ascii (''int32 '' @ int_string (to_int32 num) @ [CHR 0x0A]))])
     else (let (hdr, t) = write_hdr_buff CBA_INT32 t in Some (t, io @ [Locked [hdr, le32 num]]))
   }"

definition cba_int64 :: "bool \<Rightarrow> u64 \<Rightarrow> cba_thread \<Rightarrow> (cba_thread \<times> cba_io list) option" where
  "cba_int64 has_file num t = do {
     (t, io) \<leftarrow> cba_flush has_file t;
     if \<not> has_file
     then Some (t, io @ [Print (ascii (''int64 '' @ int_string (sint num) @ [CHR 0x0A]))])
     else (let (hdr, t) = write_hdr_buff CBA_INT64 t in Some (t, io @ [Locked [hdr, le64 num]]))
   }"

text \<open>The chunk loop of \<open>cba_data\<close>: \<open>rest\<close> is the data from \<open>offset\<close> on.\<close>

function data_chunks :: "byte \<Rightarrow> byte list \<Rightarrow> byte list list" where
  "data_chunks tid rest =
     (let chunk_len = (if CBA_MAXBUFF < length rest then CBA_MAXBUFF else length rest)
      in [tid] # le16 (word_of_nat chunk_len) #
         (if chunk_len = 0 then [] else take chunk_len rest # data_chunks tid (drop chunk_len rest)))"
  by pat_completeness auto
termination
  by (relation "measure (\<lambda>(tid, rest). length rest)") (auto simp: CBA_MAXBUFF_def split: if_splits)

declare data_chunks.simps [simp del]

definition cba_data :: "bool \<Rightarrow> byte list \<Rightarrow> cba_thread \<Rightarrow> (cba_thread \<times> cba_io list) option" where
  "cba_data has_file d t = do {
     (t, io) \<leftarrow> cba_flush has_file t;
     if \<not> has_file
     then Some (t, io @ [Print (ascii (''binary data of length '' @ int_string (int (length d)) @ [CHR 0x0A]))])
     else (let (hdr, t) = write_hdr_buff CBA_DATA t
           in Some (t, io @ [Locked (hdr # data_chunks (thread_id t) d)]))
   }"

text \<open>
  \<open>cba_file\<close>: \<open>reads\<close> are the results of the successive \<open>read(file, buff, CBA_MAXBUFF)\<close>; an empty one,
  which stands for an error too, or the end of the list, ends the loop. Without a result file the contents
  are saved in the directory \<open>save_dir\<close>, outside the packet format; its initial value \<open>"."\<close> stays, since \<open>main\<close>
  never gets a directory to set (theory Args_Props).
\<close>

definition save_path :: "byte list \<Rightarrow> byte list" where
  "save_path name = take 1023 (ascii ''.'' @ ascii ''/'' @ name)"

definition save_file :: "byte list \<Rightarrow> byte list list \<Rightarrow> cba_io list" where
  "save_file name reads = [Print (ascii ''saving file '' @ name @ ascii [CHR 0x0A]),
     Saved (save_path name) (concat (takeWhile (\<lambda>r. r \<noteq> []) reads))]"

fun file_chunks :: "byte \<Rightarrow> byte list list \<Rightarrow> byte list list" where
  "file_chunks tid [] = [[tid], le16 0]"
| "file_chunks tid (r # rs) =
     (if r = [] then [[tid], le16 0]
      else [tid] # le16 (word_of_nat (length r)) # r # file_chunks tid rs)"

definition cba_file ::
  "bool \<Rightarrow> byte list \<Rightarrow> byte list list \<Rightarrow> cba_thread \<Rightarrow> (cba_thread \<times> cba_io list) option" where
  "cba_file has_file name reads t = do {
     (t, io) \<leftarrow> cba_flush has_file t;
     if \<not> has_file then Some (t, io @ save_file name reads)
     else (let (hdr, t) = write_hdr_buff CBA_FILE t; nl = (word_of_nat (length name) :: u16)
           in Some (t, io @ [Locked ([hdr, le16 nl, take (unat nl) name] @ file_chunks (thread_id t) reads)]))
   }"

end
