(* ===== verification/Cba_Reader.thy ===== *)
theory Cba_Reader
  imports Cba "HOL-Library.AList"
begin

unbundle bit_operations_syntax

text \<open>
  The reader of the result format, \<^verbatim>\<open>cba_reader.py\<close>: per-thread states in a dictionary (an association
  list in insertion order), one packet or stream chunk per step. A \<open>struct.error\<close> on a short read is
  \<open>None\<close>. Which modules have their files extracted (\<open>extract_for\<close>) and which file names can be opened
  are parameters; extracted contents are collected in \<open>rd_files\<close>.
\<close>

section \<open>State\<close>

datatype cba_val = V_text "byte list" | V_bytes "byte list" | V_true | V_int int

datatype stream = Ignore | Mem "byte list" | Disk "byte list" "byte list"

type_synonym cba_event = "byte \<times> u32 \<times> cba_val"

record thread_state =
  ts_module :: "byte list"
  ts_dict :: "u32 \<rightharpoonup> cba_val"
  ts_events :: "cba_event list"
  ts_cur_code :: u32
  ts_cur_type :: byte
  ts_stream :: "stream option"

definition ts_reset :: thread_state where
  "ts_reset = \<lparr>ts_module = [], ts_dict = Map.empty, ts_events = [], ts_cur_code = 0,
     ts_cur_type = 0, ts_stream = None\<rparr>"

definition add_event :: "byte \<Rightarrow> u32 \<Rightarrow> cba_val \<Rightarrow> thread_state \<Rightarrow> thread_state" where
  "add_event kind code val ts =
     ts\<lparr>ts_events := ts_events ts @ [(kind, code, val)], ts_dict := (ts_dict ts)(code \<mapsto> val)\<rparr>"

record cba_reader =
  rd_states :: "(byte \<times> thread_state) list"
  rd_files :: "(byte list \<times> byte list) list"

type_synonym entry = "byte list \<times> cba_event list"

record rd_cfg =
  rc_filter :: "byte list option"
  rc_extract :: "byte list \<Rightarrow> bool"
  rc_open :: "byte list \<Rightarrow> bool"

text \<open>\<open>result\<close>: an entry when there are events and the module passes the filter.\<close>

definition rd_result :: "rd_cfg \<Rightarrow> thread_state \<Rightarrow> entry list" where
  "rd_result c ts =
     (if ts_events ts \<noteq> [] \<and> (rc_filter c = None \<or> rc_filter c = Some (ts_module ts))
      then [(ts_module ts, ts_events ts)] else [])"

section \<open>File names\<close>

text \<open>\<open>filename.replace('..', '')\<close>, then one leading slash removed.\<close>

fun drop_dots :: "byte list \<Rightarrow> byte list" where
  "drop_dots (a # b # s) = (if a = 0x2E \<and> b = 0x2E then drop_dots s else a # drop_dots (b # s))"
| "drop_dots s = s"

definition safe_name :: "byte list \<Rightarrow> byte list" where
  "safe_name s = (let s = drop_dots s in if s \<noteq> [] \<and> hd s = 0x2F then tl s else s)"

section \<open>Reading\<close>

text \<open>\<open>file.read(n)\<close> answers at most \<open>n\<close> bytes; \<open>unpack\<close> of fewer bytes than the format needs fails.\<close>

definition rd_bytes :: "nat \<Rightarrow> byte list \<Rightarrow> byte list \<times> byte list" where
  "rd_bytes n bs = (take n bs, drop n bs)"

text \<open>\<open>decode('ascii')\<close> fails on a byte above 127.\<close>

definition decode_ascii :: "byte list \<Rightarrow> byte list option" where
  "decode_ascii s = (if \<forall>b \<in> set s. b < 0x80 then Some s else None)"

definition rd_byte :: "byte list \<Rightarrow> (byte \<times> byte list) option" where
  "rd_byte bs = (case bs of [] \<Rightarrow> None | b # r \<Rightarrow> Some (b, r))"

definition stream_write :: "byte list \<Rightarrow> stream \<Rightarrow> stream" where
  "stream_write b s = (case s of Ignore \<Rightarrow> Ignore | Mem d \<Rightarrow> Mem (d @ b) | Disk n d \<Rightarrow> Disk n (d @ b))"

text \<open>A chunk of the open stream of this thread.\<close>

definition read_chunk :: "thread_state \<Rightarrow> stream \<Rightarrow> byte list \<Rightarrow>
    (thread_state \<times> (byte list \<times> byte list) list \<times> byte list) option" where
  "read_chunk ts s bs = do {
     (l, bs) \<leftarrow> get_le16 bs;
     if l \<noteq> 0 then do {
       let (b, bs) = rd_bytes (unat l) bs;
       Some (ts\<lparr>ts_stream := Some (stream_write b s)\<rparr>, [], bs)
     } else do {
       ts \<leftarrow> (if ts_cur_type ts = CBA_DATA
              then (case s of Mem d \<Rightarrow> Some (add_event (ts_cur_type ts) (ts_cur_code ts) (V_bytes d) ts)
                    | _ \<Rightarrow> None)
              else Some ts);
       Some (ts\<lparr>ts_stream := None\<rparr>, (case s of Disk n d \<Rightarrow> [(n, d)] | _ \<Rightarrow> []), bs)
     }
   }"

text \<open>The body of a packet of type \<open>ty\<close>; a head answers an entry.\<close>

definition read_body :: "rd_cfg \<Rightarrow> byte \<Rightarrow> u32 \<Rightarrow> thread_state \<Rightarrow> byte list \<Rightarrow>
    (thread_state \<times> entry list \<times> byte list) option" where
  "read_body c ty code ts bs =
     (if ty = CBA_HEAD then do {
        (l, bs) \<leftarrow> rd_byte bs;
        let (m, bs) = rd_bytes (unat l) bs;
        m \<leftarrow> decode_ascii m;
        Some (if l \<noteq> 0 then ts_reset\<lparr>ts_module := m\<rparr> else ts_reset, rd_result c ts, bs)
      } else do {
        let ts = ts\<lparr>ts_cur_code := code, ts_cur_type := ty\<rparr>;
        if ty = CBA_STR then do {
          (l, bs) \<leftarrow> get_le16 bs;
          let (s, bs) = rd_bytes (unat l) bs;
          Some (add_event ty code (V_text s) ts, [], bs)
        } else if ty = CBA_DATA then Some (ts\<lparr>ts_stream := Some (Mem [])\<rparr>, [], bs)
        else if ty = CBA_BIT then Some (add_event ty code V_true ts, [], bs)
        else if ty = CBA_INT32 then do {
          (v, bs) \<leftarrow> get_le32 bs;
          Some (add_event ty code (V_int (sint v)) ts, [], bs)
        } else if ty = CBA_INT64 then do {
          (v, bs) \<leftarrow> get_le64 bs;
          Some (add_event ty code (V_int (sint v)) ts, [], bs)
        } else if ty = CBA_FILE then do {
          (l, bs) \<leftarrow> get_le16 bs;
          (n, bs) \<leftarrow> (if rc_extract c (ts_module ts) \<and> l \<noteq> 0
             then (case rd_bytes (unat l) bs of (n, bs) \<Rightarrow>
                     map_option (\<lambda>n. (safe_name n, bs)) (decode_ascii n))
             else Some ([], bs));
          Some (if n \<noteq> []
                then add_event CBA_FILE code (V_text n)
                  (ts\<lparr>ts_stream := Some (if rc_open c n then Disk n [] else Ignore)\<rparr>)
                else ts\<lparr>ts_stream := Some Ignore\<rparr>, [], bs)
        } else Some (ts, [], bs)
      })"

definition ts_of :: "cba_reader \<Rightarrow> byte \<Rightarrow> thread_state" where
  "ts_of r tid = (case map_of (rd_states r) tid of None \<Rightarrow> ts_reset | Some ts \<Rightarrow> ts)"

definition set_ts :: "byte \<Rightarrow> thread_state \<Rightarrow> cba_reader \<Rightarrow> cba_reader" where
  "set_ts tid ts r = r\<lparr>rd_states := AList.update tid ts (rd_states r)\<rparr>"

text \<open>\<open>read_packet\<close> on a non-empty rest of the file.\<close>

definition read_packet :: "rd_cfg \<Rightarrow> cba_reader \<Rightarrow> byte list \<Rightarrow>
    (cba_reader \<times> entry list \<times> byte list) option" where
  "read_packet c r bs = do {
     (tid, bs) \<leftarrow> rd_byte bs;
     let ts = ts_of r tid;
     (case ts_stream ts of
        Some s \<Rightarrow> do {
          (ts, fs, bs) \<leftarrow> read_chunk ts s bs;
          Some ((set_ts tid ts r)\<lparr>rd_files := rd_files r @ fs\<rparr>, [], bs)
        }
      | None \<Rightarrow> do {
          (mtype, bs) \<leftarrow> rd_byte bs;
          (mtype, code, bs) \<leftarrow> (if mtype AND 0x80 \<noteq> 0
             then map_option (\<lambda>(v, bs). (mtype XOR 0x80, v, bs)) (get_le32 bs)
             else Some (mtype, 0, bs));
          (ts, es, bs) \<leftarrow> read_body c mtype code ts bs;
          Some (set_ts tid ts r, es, bs)
        })
   }"

lemma rd_byte_shorter: "rd_byte bs = Some (b, r) \<Longrightarrow> length r < length bs"
  by (cases bs) (auto simp: rd_byte_def)

lemma get_le_shorter:
  "get_le16 bs = Some (v, r) \<Longrightarrow> length r \<le> length bs"
  "get_le32 bs = Some (w, r) \<Longrightarrow> length r \<le> length bs"
  "get_le64 bs = Some (x, r) \<Longrightarrow> length r \<le> length bs"
  by (auto simp: get_le16_def get_le32_def get_le64_def freadle_def split: if_splits)

lemma read_chunk_shorter: "read_chunk ts s bs = Some (ts', fs, bs') \<Longrightarrow> length bs' \<le> length bs"
  by (auto simp: read_chunk_def rd_bytes_def bind_eq_Some_conv Let_def split: if_splits stream.splits
      dest!: get_le_shorter)

lemma read_body_shorter: "read_body c ty code ts bs = Some (ts', es, bs') \<Longrightarrow> length bs' \<le> length bs"
  by (auto simp: read_body_def rd_bytes_def bind_eq_Some_conv Let_def split: if_splits prod.splits
      dest!: get_le_shorter rd_byte_shorter)

lemma read_packet_shorter:
  assumes "read_packet c r bs = Some (r', es, bs')"
  shows "length bs' < length bs"
  using assms
  by (auto simp: read_packet_def bind_eq_Some_conv Let_def split: option.splits if_splits
      dest!: rd_byte_shorter read_chunk_shorter read_body_shorter get_le_shorter)

text \<open>The loop of \<open>entries\<close>, up to the end of the file, and \<open>read_final\<close>.\<close>

function read_packets :: "rd_cfg \<Rightarrow> cba_reader \<Rightarrow> byte list \<Rightarrow> (cba_reader \<times> entry list) option" where
  "read_packets c r bs =
     (if bs = [] then Some (r, [])
      else (case read_packet c r bs of None \<Rightarrow> None
            | Some (r', es, bs') \<Rightarrow> map_option (\<lambda>(r'', es'). (r'', es @ es')) (read_packets c r' bs')))"
  by pat_completeness auto
termination
  by (relation "measure (\<lambda>(c, r, bs). length bs)") (auto dest: read_packet_shorter)

declare read_packets.simps [simp del]

definition read_final :: "rd_cfg \<Rightarrow> cba_reader \<Rightarrow> entry list" where
  "read_final c r = concat (map (\<lambda>(tid, ts). rd_result c ts) (rd_states r))"

definition rd_init :: cba_reader where
  "rd_init = \<lparr>rd_states = [], rd_files = []\<rparr>"

definition cba_entries :: "rd_cfg \<Rightarrow> byte list \<Rightarrow> (entry list \<times> (byte list \<times> byte list) list) option" where
  "cba_entries c bs =
     map_option (\<lambda>(r, es). (es @ read_final c r, rd_files r)) (read_packets c rd_init (drop 1 bs))"

end
