(* ===== verification/Cba_Packets.thy ===== *)
theory Cba_Packets
  imports Cba_Reader
begin

unbundle bit_operations_syntax

text \<open>
  The packets of the result format, between the writer's calls and the reader's steps: their images
  (\<open>enc_packet\<close>), what a reader makes of one packet (\<open>apply_packet\<close>), and the lemma that reading the
  image of a packet has exactly that effect, whatever follows in the file.
\<close>

section \<open>Packets and their images\<close>

datatype pbody =
    P_head "byte list" | P_str "byte list" | P_data "byte list" | P_file "byte list" "byte list list"
  | P_int32 u32 | P_int64 u64 | P_bit

type_synonym packet = "u32 \<times> pbody"

fun ptype :: "pbody \<Rightarrow> byte" where
  "ptype (P_head m) = CBA_HEAD"
| "ptype (P_str s) = CBA_STR"
| "ptype (P_data d) = CBA_DATA"
| "ptype (P_file n rs) = CBA_FILE"
| "ptype (P_int32 v) = CBA_INT32"
| "ptype (P_int64 v) = CBA_INT64"
| "ptype P_bit = CBA_BIT"

definition enc_hdr :: "byte \<Rightarrow> u32 \<Rightarrow> byte \<Rightarrow> byte list" where
  "enc_hdr tid code ty = tid # (ty OR (if code \<noteq> 0 then 0x80 else 0)) # (if code \<noteq> 0 then le32 code else [])"

fun enc_body :: "byte \<Rightarrow> pbody \<Rightarrow> byte list" where
  "enc_body tid (P_head m) = word_of_nat (length m) # m"
| "enc_body tid (P_str s) = le16 (word_of_nat (length s)) @ s"
| "enc_body tid (P_data d) = concat (data_chunks tid d)"
| "enc_body tid (P_file n rs) = le16 (word_of_nat (length n)) @ n @ concat (file_chunks tid rs)"
| "enc_body tid (P_int32 v) = le32 v"
| "enc_body tid (P_int64 v) = le64 v"
| "enc_body tid P_bit = []"

definition enc_packet :: "byte \<Rightarrow> packet \<Rightarrow> byte list" where
  "enc_packet tid p = enc_hdr tid (fst p) (ptype (snd p)) @ enc_body tid (snd p)"

text \<open>What the format can hold. A file name must be extracted by the reader to be skipped.\<close>

fun body_ok :: "pbody \<Rightarrow> bool" where
  "body_ok (P_head m) \<longleftrightarrow> length m < 256 \<and> (\<forall>b \<in> set m. b < 0x80)"
| "body_ok (P_str s) \<longleftrightarrow> length s < 65536"
| "body_ok (P_file n rs) \<longleftrightarrow> length n < 65536 \<and> (\<forall>b \<in> set n. b < 0x80) \<and> (\<forall>r \<in> set rs. length r < 65536)"
| "body_ok _ \<longleftrightarrow> True"

fun readable :: "rd_cfg \<Rightarrow> thread_state \<Rightarrow> pbody \<Rightarrow> bool" where
  "readable c ts (P_file n rs) \<longleftrightarrow> n = [] \<or> rc_extract c (ts_module ts)"
| "readable c ts _ \<longleftrightarrow> True"

section \<open>The effect of a packet on its thread's state\<close>

definition file_content :: "byte list list \<Rightarrow> byte list" where
  "file_content rs = concat (takeWhile (\<lambda>r. r \<noteq> []) rs)"

fun apply_body :: "rd_cfg \<Rightarrow> u32 \<Rightarrow> pbody \<Rightarrow> thread_state \<Rightarrow>
    thread_state \<times> entry list \<times> (byte list \<times> byte list) list" where
  "apply_body c code (P_head m) ts = (ts_reset\<lparr>ts_module := m\<rparr>, rd_result c ts, [])"
| "apply_body c code (P_str s) ts = (add_event CBA_STR code (V_text s) ts, [], [])"
| "apply_body c code (P_data d) ts = (add_event CBA_DATA code (V_bytes d) ts, [], [])"
| "apply_body c code (P_int32 v) ts = (add_event CBA_INT32 code (V_int (sint v)) ts, [], [])"
| "apply_body c code (P_int64 v) ts = (add_event CBA_INT64 code (V_int (sint v)) ts, [], [])"
| "apply_body c code P_bit ts = (add_event CBA_BIT code V_true ts, [], [])"
| "apply_body c code (P_file n rs) ts =
     (let s = safe_name n in
      if s = [] then (ts, [], [])
      else (add_event CBA_FILE code (V_text s) ts, [],
            if rc_open c s then [(s, file_content rs)] else []))"

text \<open>\<open>cur_code\<close> and \<open>cur_type\<close> are scratch variables of the reader: every packet but a head sets them.\<close>

definition apply_packet :: "rd_cfg \<Rightarrow> byte \<Rightarrow> packet \<Rightarrow> cba_reader \<Rightarrow> cba_reader \<times> entry list" where
  "apply_packet c tid p r =
     (let (code, body) = p; ts = ts_of r tid;
          ts = (if ptype body = CBA_HEAD then ts else ts\<lparr>ts_cur_code := code, ts_cur_type := ptype body\<rparr>);
          (ts', es, fs) = apply_body c code body ts
      in ((set_ts tid ts' r)\<lparr>rd_files := rd_files r @ fs\<rparr>, es))"

section \<open>Reading one packet back\<close>

lemma ts_of_set_ts [simp]: "ts_of (set_ts tid ts r) u = (if u = tid then ts else ts_of r u)"
  by (simp add: ts_of_def set_ts_def update_conv')

lemma ts_of_files [simp]: "ts_of (r\<lparr>rd_files := fs\<rparr>) u = ts_of r u"
  by (simp add: ts_of_def)

lemma set_ts_last [simp]: "set_ts tid ts (set_ts tid ts' r) = set_ts tid ts r"
  by (simp add: set_ts_def)

lemma set_ts_files [simp]:
  "rd_files (set_ts tid ts r) = rd_files r"
  "set_ts tid ts (r\<lparr>rd_files := fs\<rparr>) = (set_ts tid ts r)\<lparr>rd_files := fs\<rparr>"
  "(set_ts tid ts r)\<lparr>rd_files := rd_files r\<rparr> = set_ts tid ts r"
  by (simp_all add: set_ts_def)

lemma read_packets_step:
  "read_packet c r bs = Some (r', es, bs') \<Longrightarrow>
   read_packets c r bs = map_option (\<lambda>(r'', es'). (r'', es @ es')) (read_packets c r' bs')"
  by (cases bs, simp add: read_packet_def rd_byte_def)
    (subst read_packets.simps, simp)

lemma rd_byte_Cons [simp]: "rd_byte (b # bs) = Some (b, bs)"
  by (simp add: rd_byte_def)

lemma rd_bytes_append [simp]: "length xs = n \<Longrightarrow> rd_bytes n (xs @ ys) = (xs, ys)"
  by (simp add: rd_bytes_def)

lemma get_le_enc [simp]:
  "get_le16 (le16 a @ r) = Some (a, r)" "get_le32 (le32 b @ r) = Some (b, r)"
  "get_le64 (le64 d @ r) = Some (d, r)"
  by (simp_all add: le16.dec_enc le32.dec_enc le64.dec_enc)

lemma unat_len16 [simp]: "n < 65536 \<Longrightarrow> unat (word_of_nat n :: u16) = n"
  by (simp add: unat_of_nat)

lemma len16_zero: "n < 65536 \<Longrightarrow> (word_of_nat n = (0 :: u16)) \<longleftrightarrow> n = 0"
  using unat_len16[of n] by (auto simp del: unat_len16)

lemma unat_len8 [simp]: "n < 256 \<Longrightarrow> unat (word_of_nat n :: byte) = n"
  by (simp add: unat_of_nat)

lemma len8_zero: "n < 256 \<Longrightarrow> (word_of_nat n = (0 :: byte)) \<longleftrightarrow> n = 0"
  using unat_len8[of n] by (auto simp del: unat_len8)

lemma ptype_flag [simp]:
  "ptype b AND 0x80 = 0" "(ptype b OR 0x80) AND 0x80 = 0x80" "(ptype b OR 0x80) XOR 0x80 = ptype b"
  by (cases b; simp add: cba_types)+

text \<open>The header is consumed, whatever the code.\<close>

lemma read_packet_hdr:
  assumes "ts_stream (ts_of r tid) = None"
  shows "read_packet c r (enc_hdr tid code (ptype b) @ bs) =
    map_option (\<lambda>(ts, es, bs). (set_ts tid ts r, es, bs)) (read_body c (ptype b) code (ts_of r tid) bs)"
  using assms
  by (cases "read_body c (ptype b) code (ts_of r tid) bs")
    (auto simp: read_packet_def enc_hdr_def Let_def)

lemma read_chunk_some:
  assumes "x \<noteq> []" "length x < 65536"
  shows "read_chunk ts s (le16 (word_of_nat (length x)) @ x @ bs)
    = Some (ts\<lparr>ts_stream := Some (stream_write x s)\<rparr>, [], bs)"
  using assms by (simp add: read_chunk_def len16_zero)

text \<open>The chunks of a stream, up to the empty one that closes it.\<close>

lemma read_packets_chunk:
  assumes s: "ts_stream (ts_of r tid) = Some s" and x: "x \<noteq> []" "length x < 65536"
  shows "read_packets c r (tid # le16 (word_of_nat (length x)) @ x @ bs) =
    read_packets c (set_ts tid ((ts_of r tid)\<lparr>ts_stream := Some (stream_write x s)\<rparr>) r) bs"
proof -
  have "read_packet c r (tid # le16 (word_of_nat (length x)) @ x @ bs) =
      Some (set_ts tid ((ts_of r tid)\<lparr>ts_stream := Some (stream_write x s)\<rparr>) r, [], bs)"
    using s read_chunk_some[OF x, of "ts_of r tid" s bs] by (simp add: read_packet_def)
  from read_packets_step[OF this] show ?thesis by (simp add: option.map_ident_strong split_beta)
qed

lemma read_data_chunks:
  assumes "ts_stream (ts_of r tid) = Some (Mem d)" "ts_cur_type (ts_of r tid) = CBA_DATA"
  shows "read_packets c r (concat (data_chunks tid rest) @ bs) =
    read_packets c (set_ts tid ((add_event CBA_DATA (ts_cur_code (ts_of r tid)) (V_bytes (d @ rest))
      (ts_of r tid))\<lparr>ts_stream := None\<rparr>) r) bs"
  using assms
proof (induction tid rest arbitrary: r d rule: data_chunks.induct)
  case (1 tid rest)
  show ?case
  proof (cases "rest = []")
    case True
    have "read_packet c r (tid # le16 0 @ bs) = Some (set_ts tid ((add_event CBA_DATA
        (ts_cur_code (ts_of r tid)) (V_bytes d) (ts_of r tid))\<lparr>ts_stream := None\<rparr>) r, [], bs)"
      using "1.prems" by (simp add: read_packet_def read_chunk_def Let_def)
    from read_packets_step[OF this] True show ?thesis
      by (simp add: data_chunks.simps[of tid "[]"] split_beta option.map_ident_strong)
  next
    case False
    define n where "n = (if CBA_MAXBUFF < length rest then CBA_MAXBUFF else length rest)"
    have n: "n \<le> length rest" "0 < n" "n < 65536"
      using False by (auto simp: n_def CBA_MAXBUFF_def)
    let ?x = "take n rest" and ?ts = "ts_of r tid"
    have x: "?x \<noteq> []" "length ?x < 65536" "length ?x = n" using n by auto
    let ?r = "set_ts tid (?ts\<lparr>ts_stream := Some (Mem (d @ ?x))\<rparr>) r"
    have unf: "data_chunks tid rest
        = [tid] # le16 (word_of_nat (length ?x)) # ?x # data_chunks tid (drop n rest)"
      using n x by (subst data_chunks.simps) (simp add: Let_def n_def)
    have "read_packets c r (concat (data_chunks tid rest) @ bs)
        = read_packets c ?r (concat (data_chunks tid (drop n rest)) @ bs)"
      using read_packets_chunk[OF "1.prems"(1) x(1,2), of c "concat (data_chunks tid (drop n rest)) @ bs"]
      unfolding unf by (simp add: stream_write_def)
    also have "\<dots> = read_packets c (set_ts tid ((add_event CBA_DATA (ts_cur_code (ts_of ?r tid))
        (V_bytes ((d @ ?x) @ drop n rest)) (ts_of ?r tid))\<lparr>ts_stream := None\<rparr>) ?r) bs"
      by (rule "1.IH"[OF n_def]) (use n "1.prems" in simp_all)
    finally show ?thesis by (simp add: add_event_def)
  qed
qed

lemma read_file_chunks:
  assumes "ts_stream (ts_of r tid) = Some s" "ts_cur_type (ts_of r tid) \<noteq> CBA_DATA"
    and "\<forall>x \<in> set rs. length x < 65536"
  shows "read_packets c r (concat (file_chunks tid rs) @ bs) =
    read_packets c ((set_ts tid ((ts_of r tid)\<lparr>ts_stream := None\<rparr>) r)\<lparr>rd_files := rd_files r @
      (case s of Disk n d \<Rightarrow> [(n, d @ file_content rs)] | _ \<Rightarrow> [])\<rparr>) bs"
  using assms
proof (induction tid rs arbitrary: r s rule: file_chunks.induct)
  case (1 tid)
  have "read_packet c r (tid # le16 0 @ bs) = Some ((set_ts tid ((ts_of r tid)\<lparr>ts_stream := None\<rparr>) r)
      \<lparr>rd_files := rd_files r @ (case s of Disk n d \<Rightarrow> [(n, d)] | _ \<Rightarrow> [])\<rparr>, [], bs)"
    using "1.prems" by (simp add: read_packet_def read_chunk_def Let_def)
  from read_packets_step[OF this] show ?case
    by (simp add: split_beta option.map_ident_strong file_content_def cong: stream.case_cong)
next
  case (2 tid x rs)
  show ?case
  proof (cases "x = []")
    case True
    have "read_packet c r (tid # le16 0 @ bs) = Some ((set_ts tid ((ts_of r tid)\<lparr>ts_stream := None\<rparr>) r)
        \<lparr>rd_files := rd_files r @ (case s of Disk n d \<Rightarrow> [(n, d)] | _ \<Rightarrow> [])\<rparr>, [], bs)"
      using "2.prems" by (simp add: read_packet_def read_chunk_def Let_def)
    from read_packets_step[OF this] True show ?thesis
      by (simp add: split_beta option.map_ident_strong file_content_def cong: stream.case_cong)
  next
    case False
    let ?ts = "ts_of r tid"
    let ?r = "set_ts tid (?ts\<lparr>ts_stream := Some (stream_write x s)\<rparr>) r"
    have "read_packets c r (concat (file_chunks tid (x # rs)) @ bs)
        = read_packets c ?r (concat (file_chunks tid rs) @ bs)"
      using read_packets_chunk[OF "2.prems"(1) False, of c "concat (file_chunks tid rs) @ bs"]
        "2.prems" False by simp
    also have "\<dots> = read_packets c ((set_ts tid ((ts_of ?r tid)\<lparr>ts_stream := None\<rparr>) ?r)\<lparr>rd_files :=
        rd_files ?r @ (case stream_write x s of Disk n d \<Rightarrow> [(n, d @ file_content rs)] | _ \<Rightarrow> [])\<rparr>) bs"
      by (rule "2.IH"[OF False]) (use "2.prems" in simp_all)
    finally show ?thesis using False
      by (simp add: stream_write_def file_content_def split: stream.split)
  qed
qed

text \<open>The image of a packet is read with exactly the packet's effect.\<close>

lemma ts_reset_module [simp]: "ts_reset\<lparr>ts_module := []\<rparr> = ts_reset"
  by (simp add: ts_reset_def)

lemma ts_stream_add [simp]: "ts_stream (add_event k c v ts) = ts_stream ts"
  "ts_cur_type (add_event k c v ts) = ts_cur_type ts" "ts_cur_code (add_event k c v ts) = ts_cur_code ts"
  "ts_module (add_event k c v ts) = ts_module ts"
  by (simp_all add: add_event_def)

lemma read_enc_packet:
  assumes idle: "ts_stream (ts_of r tid) = None" and ok: "body_ok body"
    and rd: "readable c (ts_of r tid) body"
  shows "read_packets c r (enc_packet tid (code, body) @ bs) =
    (case apply_packet c tid (code, body) r of (r', es) \<Rightarrow>
       map_option (\<lambda>(r'', es'). (r'', es @ es')) (read_packets c r' bs))"
proof -
  let ?ts = "ts_of r tid"
  let ?tsc = "?ts\<lparr>ts_cur_code := code, ts_cur_type := ptype body\<rparr>"
  have hdr: "read_packets c r (enc_packet tid (code, body) @ bs) =
      map_option (\<lambda>(r'', es'). (r'', es @ es')) (read_packets c (set_ts tid ts r) bs')"
    if "read_body c (ptype body) code ?ts (enc_body tid body @ bs) = Some (ts, es, bs')" for ts es bs'
    using read_packets_step[of c r "enc_packet tid (code, body) @ bs" "set_ts tid ts r" es bs']
      read_packet_hdr[OF idle, of c code body] that by (simp add: enc_packet_def)
  show ?thesis
  proof (cases body)
    case (P_head m)
    have "read_body c CBA_HEAD code ?ts (enc_body tid (P_head m) @ bs)
        = Some (ts_reset\<lparr>ts_module := m\<rparr>, rd_result c ?ts, bs)"
      using ok P_head by (auto simp: read_body_def decode_ascii_def len8_zero Let_def)
    from hdr[unfolded P_head ptype.simps, OF this] P_head show ?thesis
      by (simp add: apply_packet_def Let_def cba_types)
  next
    case (P_str s)
    have "read_body c CBA_STR code ?ts (enc_body tid (P_str s) @ bs)
        = Some (add_event CBA_STR code (V_text s) (?ts\<lparr>ts_cur_code := code, ts_cur_type := CBA_STR\<rparr>), [], bs)"
      using ok P_str by (simp add: read_body_def Let_def cba_types)
    from hdr[unfolded P_str ptype.simps, OF this] P_str show ?thesis
      by (simp add: apply_packet_def Let_def cba_types)
  next
    case (P_data d)
    let ?r = "set_ts tid (?ts\<lparr>ts_cur_code := code, ts_cur_type := CBA_DATA, ts_stream := Some (Mem [])\<rparr>) r"
    have "read_body c CBA_DATA code ?ts (enc_body tid (P_data d) @ bs) = Some (?ts\<lparr>ts_cur_code := code,
        ts_cur_type := CBA_DATA, ts_stream := Some (Mem [])\<rparr>, [], enc_body tid (P_data d) @ bs)"
      by (simp add: read_body_def Let_def cba_types)
    from hdr[unfolded P_data ptype.simps, OF this]
    have "read_packets c r (enc_packet tid (code, P_data d) @ bs)
        = read_packets c ?r (concat (data_chunks tid d) @ bs)"
      by (simp add: split_beta option.map_ident_strong)
    then show ?thesis using P_data read_data_chunks[of ?r tid "[]" c d bs] idle
      by (cases "ts_of r tid") (simp add: apply_packet_def Let_def add_event_def cba_types split_beta option.map_ident_strong)
  next
    case (P_file n rs)
    let ?s = "safe_name n"
    let ?st = "if ?s \<noteq> [] \<and> rc_open c ?s then Disk ?s [] else Ignore"
    let ?tf = "?ts\<lparr>ts_cur_code := code, ts_cur_type := CBA_FILE\<rparr>"
    let ?ta = "(if ?s \<noteq> [] then add_event CBA_FILE code (V_text ?s) ?tf else ?tf)\<lparr>ts_stream := Some ?st\<rparr>"
    have nm: "safe_name [] = []" by (simp add: safe_name_def)
    have "read_body c CBA_FILE code ?ts (enc_body tid (P_file n rs) @ bs)
        = Some (?ta, [], concat (file_chunks tid rs) @ bs)"
      using ok rd P_file nm
      by (auto simp: read_body_def Let_def decode_ascii_def len16_zero cba_types add_event_def)
    from hdr[unfolded P_file ptype.simps, OF this]
    have "read_packets c r (enc_packet tid (code, P_file n rs) @ bs)
        = read_packets c (set_ts tid ?ta r) (concat (file_chunks tid rs) @ bs)"
      by (simp add: split_beta option.map_ident_strong)
    moreover have "ts_stream (ts_of (set_ts tid ?ta r) tid) = Some ?st" by simp
    moreover have "ts_cur_type (ts_of (set_ts tid ?ta r) tid) \<noteq> CBA_DATA" by (simp add: cba_types)
    moreover have "\<forall>x \<in> set rs. length x < 65536" using ok P_file by simp
    ultimately show ?thesis using P_file read_file_chunks[of "set_ts tid ?ta r" tid ?st rs c bs] idle
      by (cases "ts_of r tid") (auto simp: apply_packet_def Let_def add_event_def cba_types split_beta option.map_ident_strong)
  next
    case (P_int32 v)
    have "read_body c CBA_INT32 code ?ts (enc_body tid (P_int32 v) @ bs) = Some (add_event CBA_INT32 code
        (V_int (sint v)) (?ts\<lparr>ts_cur_code := code, ts_cur_type := CBA_INT32\<rparr>), [], bs)"
      by (simp add: read_body_def Let_def cba_types)
    from hdr[unfolded P_int32 ptype.simps, OF this] P_int32 show ?thesis
      by (simp add: apply_packet_def Let_def cba_types)
  next
    case (P_int64 v)
    have "read_body c CBA_INT64 code ?ts (enc_body tid (P_int64 v) @ bs) = Some (add_event CBA_INT64 code
        (V_int (sint v)) (?ts\<lparr>ts_cur_code := code, ts_cur_type := CBA_INT64\<rparr>), [], bs)"
      by (simp add: read_body_def Let_def cba_types)
    from hdr[unfolded P_int64 ptype.simps, OF this] P_int64 show ?thesis
      by (simp add: apply_packet_def Let_def cba_types)
  next
    case P_bit
    have "read_body c CBA_BIT code ?ts (enc_body tid P_bit @ bs) = Some (add_event CBA_BIT code V_true
        (?ts\<lparr>ts_cur_code := code, ts_cur_type := CBA_BIT\<rparr>), [], bs)"
      by (simp add: read_body_def Let_def cba_types)
    from hdr[unfolded P_bit ptype.simps, OF this] P_bit show ?thesis
      by (simp add: apply_packet_def Let_def cba_types)
  qed
qed

end
