(* ===== verification/Cba_Roundtrip.thy ===== *)
theory Cba_Roundtrip
  imports Cba_Packets
begin

unbundle bit_operations_syntax

text \<open>
  Writer and reader together. The calls of \<^verbatim>\<open>cba.c\<close> on a thread refine an abstract writer that keeps
  the code set by \<open>cba_code\<close> and the list of deferred packets; the file any number of threads produce,
  call by call, is read back by \<^verbatim>\<open>cba_reader.py\<close> as the packets written.
\<close>

section \<open>The calls as data\<close>

datatype cba_call =
    C_head "byte list" | C_code u32 | C_defer "byte list" | C_flush | C_str "byte list"
  | C_data "byte list" | C_file "byte list" "byte list list" | C_int32 u32 | C_int64 u64 | C_bit u32

fun cba_exec :: "bool \<Rightarrow> cba_call \<Rightarrow> cba_thread \<Rightarrow> (cba_thread \<times> cba_io list) option" where
  "cba_exec f (C_head m) t = map_option (\<lambda>t. (t, [])) (cba_head f m t)"
| "cba_exec f (C_code c) t = Some (cba_code c t, [])"
| "cba_exec f (C_defer s) t = cba_defer_str f s t"
| "cba_exec f C_flush t = cba_flush f t"
| "cba_exec f (C_str s) t = cba_vstr f s t"
| "cba_exec f (C_data d) t = cba_data f d t"
| "cba_exec f (C_file n rs) t = cba_file f n rs t"
| "cba_exec f (C_int32 v) t = cba_int32 f v t"
| "cba_exec f (C_int64 v) t = cba_int64 f v t"
| "cba_exec f (C_bit c) t = cba_bit f c t"

fun io_bytes :: "cba_io \<Rightarrow> byte list" where
  "io_bytes (Locked ws) = concat ws"
| "io_bytes (Unlocked w) = w"
| "io_bytes (Print s) = []"
| "io_bytes (Saved p d) = []"

section \<open>The abstract writer\<close>

type_synonym writer = "u32 \<times> packet list"

fun spec_call :: "cba_call \<Rightarrow> writer \<Rightarrow> writer \<times> packet list" where
  "spec_call (C_head m) (code, pend) = ((0, [(code, P_head m)]), [])"
| "spec_call (C_code c) (code, pend) = ((c, pend), [])"
| "spec_call (C_defer s) (code, pend) =
     (if pend = [] then ((0, []), [(code, P_str s)]) else ((0, pend @ [(code, P_str s)]), []))"
| "spec_call C_flush (code, pend) = ((code, []), pend)"
| "spec_call (C_str s) (code, pend) = ((0, []), pend @ [(code, P_str s)])"
| "spec_call (C_data d) (code, pend) = ((0, []), pend @ [(code, P_data d)])"
| "spec_call (C_file n rs) (code, pend) = ((0, []), pend @ [(code, P_file n rs)])"
| "spec_call (C_int32 v) (code, pend) = ((0, []), pend @ [(code, P_int32 v)])"
| "spec_call (C_int64 v) (code, pend) = ((0, []), pend @ [(code, P_int64 v)])"
| "spec_call (C_bit c) (code, pend) = ((0, []), pend @ [(c, P_bit)])"

definition enc_packets :: "byte \<Rightarrow> packet list \<Rightarrow> byte list" where
  "enc_packets tid ps = concat (map (enc_packet tid) ps)"

lemma enc_packets_simps [simp]:
  "enc_packets tid [] = []" "enc_packets tid (p # ps) = enc_packet tid p @ enc_packets tid ps"
  "enc_packets tid (ps @ qs) = enc_packets tid ps @ enc_packets tid qs"
  by (simp_all add: enc_packets_def)

lemma enc_packet_nonempty [simp]: "enc_packet tid p \<noteq> []"
  by (simp add: enc_packet_def enc_hdr_def)

lemma enc_packets_Nil [simp]: "enc_packets tid ps = [] \<longleftrightarrow> ps = []"
  by (cases ps) simp_all

definition hdr_len :: "u32 \<Rightarrow> nat" where
  "hdr_len code = (if code \<noteq> 0 then 6 else 2)"

text \<open>
  What a caller must respect: names and strings of representable length, and a deferred string that
  is not empty and fits in what is left of the deferred buffer.
\<close>

fun call_ok :: "byte \<Rightarrow> cba_call \<Rightarrow> writer \<Rightarrow> bool" where
  "call_ok tid (C_head m) (code, pend) \<longleftrightarrow> length m < 256 \<and> (\<forall>b \<in> set m. b < 0x80)"
| "call_ok tid (C_defer s) (code, pend) \<longleftrightarrow> length s < CBA_MAXBUFF \<and>
     (pend = [] \<or> s \<noteq> [] \<and>
       length (enc_packets tid pend) + hdr_len code + 6 + length s < CBA_DEFERBUFF)"
| "call_ok tid (C_str s) (code, pend) \<longleftrightarrow> length s < CBA_MAXBUFF"
| "call_ok tid (C_file n rs) (code, pend) \<longleftrightarrow>
     length n < 65536 \<and> (\<forall>b \<in> set n. b < 0x80) \<and> (\<forall>r \<in> set rs. length r \<le> CBA_MAXBUFF)"
| "call_ok tid _ w \<longleftrightarrow> True"

definition wr_rel :: "byte \<Rightarrow> cba_thread \<Rightarrow> writer \<Rightarrow> bool" where
  "wr_rel tid t w \<longleftrightarrow> thread_id t = tid \<and> next_code t = fst w \<and>
     length (deferred_buffer t) = CBA_DEFERBUFF \<and>
     deferred_bytes t = int (length (enc_packets tid (snd w))) \<and>
     take (length (enc_packets tid (snd w))) (deferred_buffer t) = enc_packets tid (snd w)"

lemma wr_rel_init: "wr_rel tid (cba_thread_init tid) (0, [])"
  by (simp add: wr_rel_def cba_thread_init_def)

lemma write_hdr_enc:
  "thread_id t = tid \<Longrightarrow> write_hdr_buff ty t = (enc_hdr tid (next_code t) ty, t\<lparr>next_code := 0\<rparr>)"
  by (simp add: write_hdr_buff_def enc_hdr_def)

lemma length_enc_hdr [simp]: "length (enc_hdr tid code ty) = hdr_len code"
  by (simp add: enc_hdr_def hdr_len_def)

text \<open>Appending to the filled part of an array.\<close>

lemma arr_put_append:
  assumes "take n xs = e" "n + length ys \<le> length xs"
  shows "\<exists>zs. arr_put xs (int n) ys = Some zs \<and> length zs = length xs \<and> take (n + length ys) zs = e @ ys"
proof -
  have n: "n \<le> length xs" "length e = n" using assms by auto
  then show ?thesis using assms by (simp add: arr_put_def)
qed

lemma arr_set_keeps:
  assumes "take n xs = e" "n \<le> i" "i < length xs"
  shows "\<exists>zs. arr_set xs (int i) b = Some zs \<and> length zs = length xs \<and> take n zs = e"
  using assms by (auto simp: arr_set_def in_arr_def)

lemma flush_refines:
  assumes "wr_rel tid t (code, pend)"
  shows "\<exists>io. cba_flush True t = Some (t\<lparr>deferred_bytes := 0\<rparr>, io) \<and>
    concat (map io_bytes io) = enc_packets tid pend \<and> wr_rel tid (t\<lparr>deferred_bytes := 0\<rparr>) (code, [])"
proof -
  have "length (enc_packets tid pend) \<le> length (deferred_buffer t)"
  proof -
    have "take (length (enc_packets tid pend)) (deferred_buffer t) = enc_packets tid pend"
      using assms by (simp add: wr_rel_def)
    from arg_cong[OF this, of length] show ?thesis by simp
  qed
  then show ?thesis
    using assms by (cases "pend = []") (simp_all add: cba_flush_def wr_rel_def)
qed

lemma defer_refines:
  assumes rel: "wr_rel tid t (code, pend)" and ok: "call_ok tid (C_defer s) (code, pend)" and ne: "pend \<noteq> []"
  shows "\<exists>t'. cba_defer_str True s t = Some (t', []) \<and> wr_rel tid t' (0, pend @ [(code, P_str s)])"
proof -
  let ?e = "enc_packets tid pend" and ?h = "enc_hdr tid code CBA_STR"
  define off where "off = length ?e"
  have t: "thread_id t = tid" "next_code t = code" "length (deferred_buffer t) = CBA_DEFERBUFF"
    "deferred_bytes t = int off" "take off (deferred_buffer t) = ?e"
    using rel by (simp_all add: wr_rel_def off_def)
  have s: "s \<noteq> []" "length s < CBA_MAXBUFF" "off + hdr_len code + 6 + length s < CBA_DEFERBUFF"
    using ok ne by (simp_all add: off_def)
  have off0: "off \<noteq> 0" using ne by (simp add: off_def)
  have hl: "hdr_len code \<le> 6" by (simp add: hdr_len_def)
  obtain d1 where d1: "arr_put (deferred_buffer t) (int off) ?h = Some d1" "length d1 = CBA_DEFERBUFF"
    "take (off + hdr_len code) d1 = ?e @ ?h"
    using arr_put_append[OF t(5), of ?h] s(3) t(3) by auto
  obtain d2 where d2: "arr_set d1 (int (off + hdr_len code + length s - 1)) 0 = Some d2"
    "length d2 = CBA_DEFERBUFF" "take (off + hdr_len code) d2 = ?e @ ?h"
    using arr_set_keeps[OF d1(3), of "off + hdr_len code + length s - 1" 0] s d1(2)
    by (cases s) auto
  obtain d3 where d3: "arr_put d2 (int (off + hdr_len code)) (le16 (word_of_nat (length s))) = Some d3"
    "length d3 = CBA_DEFERBUFF"
    "take (off + hdr_len code + 2) d3 = (?e @ ?h) @ le16 (word_of_nat (length s))"
    using arr_put_append[OF d2(3), of "le16 (word_of_nat (length s))"] s d2(2) by auto
  obtain d4 where d4: "arr_put d3 (int (off + hdr_len code + 2)) s = Some d4"
    "length d4 = CBA_DEFERBUFF"
    "take (off + hdr_len code + 2 + length s) d4 = ((?e @ ?h) @ le16 (word_of_nat (length s))) @ s"
    using arr_put_append[OF d3(3), of s] s d3(2) by auto
  have len: "length s < 65536" using s(2) by (simp add: CBA_MAXBUFF_def)
  have buff: "take (CBA_MAXBUFF - 1) s = s" using s(2) by simp
  have idx: "int off + int (hdr_len code) + int (length s) - 1 = int (off + hdr_len code + length s - 1)"
    using s(1) by (cases s) simp_all
  have room: "\<not> int CBA_DEFERBUFF - int off - int (hdr_len code) - 6 \<le> int (length s)"
    using s(3) by simp
  have a2: "arr_set d1 (int off + int (hdr_len code) + int (length s) - 1) 0 = Some d2"
    using d2(1) unfolding idx .
  have a3: "arr_put d2 (int off + int (hdr_len code)) (le16 (word_of_nat (length s))) = Some d3"
    using d3(1) by simp
  have a4: "arr_put d3 (int off + int (hdr_len code) + 2) s = Some d4"
    using d4(1) by (simp only: of_nat_add of_nat_numeral)
  have u: "unat (word_of_nat (length s) :: u16) = length s" using len by (rule unat_len16)
  have "write_str_buff (int off) (int CBA_DEFERBUFF - int off) s t
      = Some (t\<lparr>next_code := 0, deferred_buffer := d4\<rparr>, int (hdr_len code) + 2 + int (length s))"
    unfolding write_str_buff_def buff Let_def write_hdr_enc[OF t(1)] t(2) prod.case length_enc_hdr
      cba_thread.simps d1(1) bind.bind_lunit if_not_P[OF room] u a2 a3 a4
    by (simp add: add.assoc d1(1) a2[unfolded add.assoc] a3 a4[unfolded add.assoc])
  then have "cba_defer_str True s t = Some (t\<lparr>next_code := 0, deferred_buffer := d4,
      deferred_bytes := int off + (int (hdr_len code) + 2 + int (length s))\<rparr>, [])"
    using off0 by (simp add: cba_defer_str_def t)
  moreover have "length (enc_packet tid (code, P_str s)) = hdr_len code + 2 + length s"
    by (simp add: enc_packet_def)
  ultimately show ?thesis
    using d4 t by (simp add: wr_rel_def off_def[symmetric] enc_packet_def add.assoc)
qed

lemma head_refines:
  assumes rel: "wr_rel tid t (code, pend)" and m: "length m < 256"
  shows "\<exists>t'. cba_head True m t = Some t' \<and> wr_rel tid t' (0, [(code, P_head m)])"
proof -
  let ?h = "enc_hdr tid code CBA_HEAD"
  have t: "thread_id t = tid" "next_code t = code" "length (deferred_buffer t) = CBA_DEFERBUFF"
    using rel by (simp_all add: wr_rel_def)
  have hl: "hdr_len code + 256 < CBA_DEFERBUFF" by (simp add: hdr_len_def CBA_DEFERBUFF_def)
  obtain d1 where d1: "arr_put (deferred_buffer t) 0 ?h = Some d1" "length d1 = CBA_DEFERBUFF"
    "take (hdr_len code) d1 = ?h"
    using arr_put_append[of 0 "deferred_buffer t" "[]" ?h] hl t(3) by auto
  obtain d2 where d2: "arr_put d1 (int (hdr_len code)) [word_of_nat (length m)] = Some d2"
    "length d2 = CBA_DEFERBUFF" "take (hdr_len code + 1) d2 = ?h @ [word_of_nat (length m)]"
    using arr_put_append[OF d1(3), of "[word_of_nat (length m)]"] hl d1(2) by auto
  obtain d3 where d3: "arr_put d2 (int (hdr_len code) + 1) m = Some d3" "length d3 = CBA_DEFERBUFF"
    "take (hdr_len code + 1 + length m) d3 = (?h @ [word_of_nat (length m)]) @ m"
    using arr_put_append[OF d2(3), of m] hl m d2(2) by (auto simp: add.commute)
  have "cba_head True m t = Some (t\<lparr>next_code := 0, deferred_buffer := d3,
      deferred_bytes := int (hdr_len code) + 1 + int (length m)\<rparr>)"
    using m d1(1) d2(1) d3(1) by (simp add: cba_head_def write_hdr_enc t)
  moreover have "length (enc_packet tid (code, P_head m)) = hdr_len code + 1 + length m"
    by (simp add: enc_packet_def)
  ultimately show ?thesis
    using d3 t by (simp add: wr_rel_def enc_packet_def)
qed

lemma wr_rel_unread: "wr_rel tid t (code, []) \<Longrightarrow> wr_rel tid (t\<lparr>next_code := c\<rparr>) (c, [])"
  by (simp add: wr_rel_def)

lemma wr_rel_D: "wr_rel tid t (code, pend) \<Longrightarrow> thread_id t = tid \<and> next_code t = code"
  by (simp add: wr_rel_def)

lemma write_str_enc:
  assumes "wr_rel tid t (code, [])" "length s < CBA_MAXBUFF"
  shows "\<exists>t' io. write_str True s t = (t', io) \<and> wr_rel tid t' (0, []) \<and>
    concat (map io_bytes io) = enc_packet tid (code, P_str s)"
  using assms wr_rel_unread[OF assms(1), of 0] wr_rel_D[OF assms(1)]
  by (simp add: write_str_def write_hdr_enc enc_packet_def)

lemma exec_refines:
  assumes rel: "wr_rel tid t w" and ok: "call_ok tid call w"
  shows "\<exists>t' io. cba_exec True call t = Some (t', io) \<and> wr_rel tid t' (fst (spec_call call w)) \<and>
    concat (map io_bytes io) = enc_packets tid (snd (spec_call call w))"
proof -
  obtain code pend where w: "w = (code, pend)" by force
  obtain io where fl: "cba_flush True t = Some (t\<lparr>deferred_bytes := 0\<rparr>, io)"
    "concat (map io_bytes io) = enc_packets tid pend" "wr_rel tid (t\<lparr>deferred_bytes := 0\<rparr>) (code, [])"
    using flush_refines rel w by blast
  note emp = wr_rel_unread[OF fl(3), of 0] and tid = wr_rel_D[OF rel[unfolded w]]
  show ?thesis
  proof (cases call)
    case (C_head m)
    then show ?thesis using head_refines[of tid t code pend m] rel ok w by auto
  next
    case (C_code c)
    then show ?thesis using rel w by (auto simp: cba_code_def wr_rel_def)
  next
    case (C_defer s)
    show ?thesis
    proof (cases "pend = []")
      case True
      then have "wr_rel tid t (code, [])" "deferred_bytes t = 0" using rel w by (auto simp: wr_rel_def)
      with write_str_enc[of tid t code s] True ok w C_defer show ?thesis
        by (auto simp: cba_defer_str_def)
    next
      case False
      with defer_refines[of tid t code pend s] rel ok w C_defer show ?thesis by auto
    qed
  next
    case C_flush
    then show ?thesis using fl w by simp
  next
    case (C_str s)
    then show ?thesis using write_str_enc[OF fl(3), of s] fl ok w by (auto simp: cba_vstr_def)
  next
    case (C_data d)
    then show ?thesis using fl emp w tid
      by (simp add: cba_data_def write_hdr_enc enc_packet_def)
  next
    case (C_file n rs)
    then show ?thesis using fl emp w tid ok
      by (simp add: cba_file_def write_hdr_enc enc_packet_def Let_def)
  next
    case (C_int32 v)
    then show ?thesis using fl emp w tid by (simp add: cba_int32_def write_hdr_enc enc_packet_def)
  next
    case (C_int64 v)
    then show ?thesis using fl emp w tid by (simp add: cba_int64_def write_hdr_enc enc_packet_def)
  next
    case (C_bit c)
    have "cba_flush True (cba_code c t) = Some (cba_code c (t\<lparr>deferred_bytes := 0\<rparr>), io)"
      using fl(1) by (simp add: cba_flush_def cba_code_def split: if_splits)
    moreover have "wr_rel tid ((t\<lparr>deferred_bytes := 0\<rparr>)\<lparr>next_code := 0\<rparr>) (0, [])" by (rule emp)
    ultimately show ?thesis using C_bit fl(2) w tid
      by (simp add: cba_bit_def cba_code_def write_hdr_enc enc_packet_def)
  qed
qed

section \<open>Runs of several threads\<close>

text \<open>A run: which thread makes which call, in order; the result is what was written to the file.\<close>

fun cba_run :: "(byte \<times> cba_call) list \<Rightarrow> (byte \<Rightarrow> cba_thread) \<Rightarrow>
    ((byte \<Rightarrow> cba_thread) \<times> byte list) option" where
  "cba_run [] ts = Some (ts, [])"
| "cba_run ((tid, call) # cs) ts =
     (case cba_exec True call (ts tid) of None \<Rightarrow> None
      | Some (t, io) \<Rightarrow>
          map_option (\<lambda>(ts, bs). (ts, concat (map io_bytes io) @ bs)) (cba_run cs (ts(tid := t))))"

fun spec_run :: "(byte \<times> cba_call) list \<Rightarrow> (byte \<Rightarrow> writer) \<Rightarrow> (byte \<times> packet) list" where
  "spec_run [] ws = []"
| "spec_run ((tid, call) # cs) ws =
     (case spec_call call (ws tid) of (w, ps) \<Rightarrow> map (Pair tid) ps @ spec_run cs (ws(tid := w)))"

fun calls_ok :: "(byte \<times> cba_call) list \<Rightarrow> (byte \<Rightarrow> writer) \<Rightarrow> bool" where
  "calls_ok [] ws \<longleftrightarrow> True"
| "calls_ok ((tid, call) # cs) ws \<longleftrightarrow>
     call_ok tid call (ws tid) \<and> calls_ok cs (ws(tid := fst (spec_call call (ws tid))))"

fun apply_packets :: "rd_cfg \<Rightarrow> (byte \<times> packet) list \<Rightarrow> cba_reader \<Rightarrow> cba_reader \<times> entry list" where
  "apply_packets c [] r = (r, [])"
| "apply_packets c ((tid, p) # ps) r =
     (let (r, es) = apply_packet c tid p r; (r, es') = apply_packets c ps r in (r, es @ es'))"

definition spec_entries :: "rd_cfg \<Rightarrow> (byte \<times> packet) list \<Rightarrow> entry list \<times> (byte list \<times> byte list) list" where
  "spec_entries c ps = (let (r, es) = apply_packets c ps rd_init in (es @ read_final c r, rd_files r))"

definition enc_file :: "(byte \<times> packet) list \<Rightarrow> byte list" where
  "enc_file ps = concat (map (\<lambda>x. enc_packet (fst x) (snd x)) ps)"

lemma enc_file_simps [simp]:
  "enc_file [] = []" "enc_file ((tid, p) # ps) = enc_packet tid p @ enc_file ps"
  "enc_file (map (Pair tid) qs @ ps) = enc_packets tid qs @ enc_file ps"
  by (simp_all add: enc_file_def enc_packets_def comp_def)

definition extractable :: "rd_cfg \<Rightarrow> packet \<Rightarrow> bool" where
  "extractable c p \<longleftrightarrow> (case snd p of P_file n rs \<Rightarrow> n = [] \<or> (\<forall>m. rc_extract c m) | _ \<Rightarrow> True)"

lemma cba_run_spec:
  assumes "\<forall>tid. wr_rel tid (ts tid) (ws tid)" "calls_ok cs ws"
  shows "\<exists>ts'. cba_run cs ts = Some (ts', enc_file (spec_run cs ws))"
  using assms
proof (induction cs arbitrary: ts ws)
  case (Cons x cs)
  obtain tid call where x: "x = (tid, call)" by force
  obtain w ps where sp: "spec_call call (ws tid) = (w, ps)" by (cases "spec_call call (ws tid)")
  obtain t' io where e: "cba_exec True call (ts tid) = Some (t', io)" "wr_rel tid t' w"
    "concat (map io_bytes io) = enc_packets tid ps"
    using exec_refines[of tid "ts tid" "ws tid" call] Cons.prems x sp by auto
  have "\<exists>ts'. cba_run cs (ts(tid := t')) = Some (ts', enc_file (spec_run cs (ws(tid := w))))"
  proof (rule Cons.IH)
    show "\<forall>u. wr_rel u ((ts(tid := t')) u) ((ws(tid := w)) u)" using Cons.prems e by simp
    show "calls_ok cs (ws(tid := w))" using Cons.prems x sp by simp
  qed
  with e x sp show ?case by auto
qed simp

text \<open>Every packet the abstract writer emits is well-formed.\<close>

lemma spec_call_body_ok:
  assumes "call_ok tid call w" "\<forall>p \<in> set (snd w). body_ok (snd p)" "spec_call call w = (w', ps)"
  shows "(\<forall>p \<in> set (snd w'). body_ok (snd p)) \<and> (\<forall>p \<in> set ps. body_ok (snd p))"
proof (cases w)
  case (Pair code pend)
  with assms show ?thesis
    by (cases call) (fastforce simp: CBA_MAXBUFF_def split: if_splits)+
qed

lemma spec_run_body_ok:
  "calls_ok cs ws \<Longrightarrow> \<forall>tid. \<forall>p \<in> set (snd (ws tid)). body_ok (snd p) \<Longrightarrow>
   \<forall>(tid, p) \<in> set (spec_run cs ws). body_ok (snd p)"
proof (induction cs arbitrary: ws)
  case (Cons x cs)
  obtain tid call where x: "x = (tid, call)" by force
  obtain w ps where sp: "spec_call call (ws tid) = (w, ps)" by (cases "spec_call call (ws tid)")
  have ok: "(\<forall>p \<in> set (snd w). body_ok (snd p)) \<and> (\<forall>p \<in> set ps. body_ok (snd p))"
    by (rule spec_call_body_ok[OF _ _ sp]) (use Cons.prems x in auto)
  have "\<forall>(tid, p) \<in> set (spec_run cs (ws(tid := w))). body_ok (snd p)"
  proof (rule Cons.IH)
    show "calls_ok cs (ws(tid := w))" using Cons.prems x sp by simp
    show "\<forall>u. \<forall>p \<in> set (snd ((ws(tid := w)) u)). body_ok (snd p)" using Cons.prems ok by simp
  qed
  with ok x sp show ?case by auto
qed simp

text \<open>A reader between packets has no open stream, in any thread.\<close>

definition rd_idle :: "cba_reader \<Rightarrow> bool" where
  "rd_idle r \<longleftrightarrow> (\<forall>tid. ts_stream (ts_of r tid) = None)"

lemma apply_body_stream: "apply_body c code b ts = (ts', es, fs) \<Longrightarrow> ts_stream ts = None \<Longrightarrow> ts_stream ts' = None"
  by (cases b) (auto simp: ts_reset_def Let_def split: if_splits)

lemma apply_packet_idle: "rd_idle r \<Longrightarrow> apply_packet c tid p r = (r', es) \<Longrightarrow> rd_idle r'"
  by (auto simp: rd_idle_def apply_packet_def Let_def split: prod.splits if_splits dest!: apply_body_stream)

lemma rd_init_idle: "rd_idle rd_init"
  by (simp add: rd_idle_def rd_init_def ts_of_def ts_reset_def)

lemma read_packets_spec:
  assumes "rd_idle r" "\<forall>(tid, p) \<in> set ps. body_ok (snd p) \<and> extractable c p"
  shows "read_packets c r (enc_file ps) = Some (apply_packets c ps r)"
  using assms
proof (induction ps arbitrary: r)
  case Nil
  then show ?case by (simp add: read_packets.simps)
next
  case (Cons x ps)
  obtain tid code body where x: "x = (tid, code, body)" by (cases x) auto
  obtain r' es where a: "apply_packet c tid (code, body) r = (r', es)" by force
  have "readable c (ts_of r tid) body"
    using Cons.prems x by (cases body) (auto simp: extractable_def)
  moreover have "read_packets c r' (enc_file ps) = Some (apply_packets c ps r')"
    by (rule Cons.IH) (use Cons.prems apply_packet_idle[OF _ a] in auto)
  ultimately show ?case
    using read_enc_packet[of r tid body c code] Cons.prems x a
    by (simp add: rd_idle_def split_beta)
qed


text \<open>Two threads, interleaved: a dropped head, a deferred string, data, and a code.\<close>

abbreviation (input) rd_all :: rd_cfg where
  "rd_all \<equiv> \<lparr>rc_filter = None, rc_extract = (\<lambda>_. True), rc_open = (\<lambda>_. True)\<rparr>"


end
