(* ===== verification/Module_Ctx.thy ===== *)
theory Module_Ctx
  imports Ts Cba_Roundtrip
begin

unbundle bit_operations_syntax

text \<open>
  What the probe modules share: the state they run in (the world, the writer's state of their thread,
  and what it wrote or printed so far), the fixed environment (the operating system, the TLS library
  if any, whether a result file is open), wrappers that thread the state through a socket or a \<open>cba\<close>
  call, \<open>print_ip4\<close> of \<^verbatim>\<open>socket_utils.c\<close>, and the two forms of option parsing. \<open>None\<close> is undefined
  behaviour, or a TLS loop that never ends.
\<close>

record 'w mctx =
  mx_world :: 'w
  mx_cba :: cba_thread
  mx_io :: "cba_io list"

record 'w env =
  en_os :: "'w os"
  en_tls :: "'w tls option"
  en_file :: bool

definition mx_call :: "'w env \<Rightarrow> cba_call \<Rightarrow> 'w mctx \<Rightarrow> 'w mctx option" where
  "mx_call en c cx =
     map_option (\<lambda>(t, io). cx\<lparr>mx_cba := t, mx_io := mx_io cx @ io\<rparr>) (cba_exec (en_file en) c (mx_cba cx))"

definition mx_read :: "'w env \<Rightarrow> tsocket \<Rightarrow> nat \<Rightarrow> u64 \<Rightarrow> 'w mctx \<Rightarrow> (bool \<times> byte list \<times> 'w mctx) option" where
  "mx_read en ts n deadline cx =
     map_option (\<lambda>(ok, d, w). (ok, d, cx\<lparr>mx_world := w\<rparr>))
       (ts_read_all (en_os en) (en_tls en) ts n deadline (mx_world cx))"

definition mx_write :: "'w env \<Rightarrow> tsocket \<Rightarrow> byte list \<Rightarrow> u64 \<Rightarrow> 'w mctx \<Rightarrow> (bool \<times> 'w mctx) option" where
  "mx_write en ts b deadline cx =
     map_option (\<lambda>(ok, w). (ok, cx\<lparr>mx_world := w\<rparr>))
       (ts_write_all (en_os en) (en_tls en) ts b deadline (mx_world cx))"

text \<open>\<open>exit: ts_close(&ts); return ret\<close>, and the two failure labels that set a bit first.\<close>

definition mx_exit :: "'w env \<Rightarrow> tsocket \<Rightarrow> int \<Rightarrow> 'w mctx \<Rightarrow> (int \<times> 'w mctx) option" where
  "mx_exit en ts ret cx =
     Some (ret, cx\<lparr>mx_world := snd (ts_close (en_os en) (en_tls en) ts (mx_world cx))\<rparr>)"

definition mx_fail :: "'w env \<Rightarrow> tsocket \<Rightarrow> u32 \<Rightarrow> int \<Rightarrow> 'w mctx \<Rightarrow> (int \<times> 'w mctx) option" where
  "mx_fail en ts code ret cx = do { cx \<leftarrow> mx_call en (C_bit code) cx; mx_exit en ts ret cx }"

section \<open>Text\<close>

text \<open>\<open>print_ip4\<close>: dotted decimal, most significant byte first.\<close>

definition ip_byte :: "u32 \<Rightarrow> nat \<Rightarrow> string" where
  "ip_byte ip k = dec_string (unat (drop_bit (8 * k) ip AND 0xFF))"

definition print_ip4 :: "u32 \<Rightarrow> string" where
  "print_ip4 ip = ip_byte ip 3 @ ''.'' @ ip_byte ip 2 @ ''.'' @ ip_byte ip 1 @ ''.'' @ ip_byte ip 0"

text \<open>\<open>snprintf(url, sizeof(url), "...%s:%d", ip_str, port)\<close> with a buffer of \<open>n\<close> bytes.\<close>

definition url_of :: "nat \<Rightarrow> string \<Rightarrow> u32 \<Rightarrow> int \<Rightarrow> byte list" where
  "url_of n scheme ip port = take (n - 1) (ascii (scheme @ print_ip4 ip @ '':'' @ int_string port))"

text \<open>
  \<open>if ((opt = strstr(cfg, "name="))) sscanf(opt, "name=%d", &v)\<close>: the new value of \<open>v\<close>, unchanged when
  the option is absent or not a number; \<open>None\<close> when the number overflows \<open>int\<close>.
\<close>

definition int_option :: "string \<Rightarrow> string \<Rightarrow> int \<Rightarrow> int option" where
  "int_option name cfg old =
     (case strstr cfg name of None \<Rightarrow> Some old
      | Some s \<Rightarrow> (case scan_d (drop (length name) s) of Conv v _ \<Rightarrow> cint v | _ \<Rightarrow> Some old))"

lemma unat_byte_less: "unat (drop_bit k (ip :: u32) AND 0xFF) < 256"
proof -
  have "drop_bit k ip AND 0xFF = take_bit 8 (drop_bit k ip)"
    by (simp add: take_bit_eq_mask mask_eq_exp_minus_1)
  then show ?thesis by (simp add: unsigned_take_bit_eq take_bit_nat_less_exp[of 8, simplified])
qed

lemma length_ip_byte: "length (ip_byte ip k) \<le> 3"
  unfolding ip_byte_def by (rule length_dec_string) (use unat_byte_less[of "8 * k" ip] in simp_all)

text \<open>An address always fits the 16 bytes of \<open>char str[16]\<close>, NUL included.\<close>

lemma length_print_ip4: "length (print_ip4 ip) < 16"
  using length_ip_byte[of ip 0] length_ip_byte[of ip 1] length_ip_byte[of ip 2] length_ip_byte[of ip 3]
  by (simp add: print_ip4_def)

section \<open>Bounds of what is read\<close>

text \<open>\<open>read\<close> and the TLS library deliver at most as many bytes as asked for.\<close>

definition reads_bounded :: "'w os \<Rightarrow> 'w tls option \<Rightarrow> bool" where
  "reads_bounded os have \<longleftrightarrow>
     (\<forall>fd n w d w'. os_read os fd n w = (Some d, w') \<longrightarrow> length d \<le> n) \<and>
     (\<forall>tls fd n w r d w'. have = Some tls \<longrightarrow> tls_read tls fd n w = ((r, d), w') \<longrightarrow> length d \<le> n)"

lemma ts_read_loop_bound:
  assumes b: "reads_bounded os have" and "ssl = None \<or> ssl = have" and "length acc \<le> sz"
    and "ts_read_loop os ssl ts sz deadline acc w = Some (ok, d, w')"
  shows "length d \<le> sz \<and> (ok \<longrightarrow> length d = sz)"
proof -
  let ?P = "\<lambda>os' ssl' ts sz deadline acc w (ok, d, w').
    os' = os \<longrightarrow> ssl' = None \<or> ssl' = have \<longrightarrow> length acc \<le> sz \<longrightarrow> length d \<le> sz \<and> (ok \<longrightarrow> length d = sz)"
  have "?P os ssl ts sz deadline acc w (ok, d, w')"
  proof (rule ts_read_loop.raw_induct[where P = ?P, OF _ assms(4)])
    fix f and os' :: "'a os" and ssl' and ts :: tsocket and sz deadline acc and w :: 'a and y
    assume IH: "\<And>os' ssl' ts sz deadline acc w y. f os' ssl' ts sz deadline acc w = Some y \<Longrightarrow>
        ?P os' ssl' ts sz deadline acc w y"
      and eq: "(if sz \<le> length acc then Some (True, acc, w)
        else (case ssl' of
          None \<Rightarrow>
            let (ok, w) = ts_wait os' ts deadline False w in
            if \<not> ok then Some (False, acc, w)
            else let (d, w) = os_read os' (ts_fd ts) (sz - length acc) w in
              if d = None \<or> d = Some [] then Some (False, acc, w)
              else f os' ssl' ts sz deadline (acc @ the d) w
        | Some tls \<Rightarrow>
            let ((r, d), w) = tls_read tls (ts_fd ts) (sz - length acc) w in
            if r = 0 \<or> (r < 0 \<and> r \<noteq> tls_want_read tls \<and> r \<noteq> tls_want_write tls) then Some (False, acc, w)
            else if r < 0 then
              let (ok, w) = ts_wait os' ts deadline (r = tls_want_write tls) w in
              if \<not> ok then Some (False, acc, w) else f os' ssl' ts sz deadline acc w
            else f os' ssl' ts sz deadline (acc @ d) w)) = Some y"
    obtain ok d v where y: "y = (ok, d, v)" by (cases y)
    show "?P os' ssl' ts sz deadline acc w y"
      unfolding y prod.case
    proof (intro impI)
      assume o: "os' = os" and s: "ssl' = None \<or> ssl' = have" and l: "length acc \<le> sz"
      have step: "length d \<le> sz \<and> (ok \<longrightarrow> length d = sz)"
        if "f os ssl' ts sz deadline acc' w' = Some y" "length acc' \<le> sz" for acc' w'
        using IH[OF that(1)] that(2) s by (simp add: y)
      have rb: "length (acc @ x) \<le> sz" if "os_read os fd (sz - length acc) w' = (Some x, w'')" for fd w' x w''
        using b that l by (fastforce simp: reads_bounded_def)
      have tb: "length (acc @ x) \<le> sz"
        if "ssl' = Some tls" "tls_read tls fd (sz - length acc) w' = ((r, x), w'')" for tls fd w' r x w''
      proof -
        have "length x \<le> sz - length acc" using b s that unfolding reads_bounded_def by blast
        with l show ?thesis by simp
      qed
      show "length d \<le> sz \<and> (ok \<longrightarrow> length d = sz)"
      proof (cases "sz \<le> length acc")
        case True
        with eq l y show ?thesis by simp
      next
        case False
        show ?thesis
        proof (cases ssl')
          case None
          with eq False o y l step rb show ?thesis
            by (auto simp: Let_def split: prod.splits if_splits)
        next
          case (Some tls)
          with eq False o y l step tb[OF Some] show ?thesis
            by (auto simp: Let_def split: prod.splits if_splits)
        qed
      qed
    qed
  qed
  with assms(2,3) show ?thesis by simp
qed

lemma ts_read_all_bound:
  assumes "reads_bounded os have" "ts_read_all os have ts sz deadline w = Some (ok, d, w')"
  shows "length d \<le> sz \<and> (ok \<longrightarrow> length d = sz)"
  using ts_read_loop_bound[OF assms(1) _ _ assms(2)[unfolded ts_read_all_def]] by (simp add: ts_ssl_def)

lemma mx_read_bound:
  assumes "reads_bounded (en_os en) (en_tls en)" "mx_read en ts n deadline cx = Some (ok, d, cx')"
  shows "length d \<le> n \<and> (ok \<longrightarrow> length d = n)"
  using assms ts_read_all_bound[OF assms(1)] by (auto simp: mx_read_def)

section \<open>Steps that cannot fail\<close>

text \<open>A state whose writer is consistent, with a result file open.\<close>

definition mx_good :: "'w env \<Rightarrow> 'w mctx \<Rightarrow> bool" where
  "mx_good en cx \<longleftrightarrow> en_file en \<and> (\<exists>tid w. wr_rel tid (mx_cba cx) w)"

lemma mx_good_world [simp]: "mx_good en (cx\<lparr>mx_world := v\<rparr>) = mx_good en cx"
  by (simp add: mx_good_def)

text \<open>Calls that are in the format's limits whatever is deferred.\<close>

fun call_safe :: "cba_call \<Rightarrow> bool" where
  "call_safe (C_head m) \<longleftrightarrow> length m < 256 \<and> (\<forall>b \<in> set m. b < 0x80)"
| "call_safe (C_defer s) \<longleftrightarrow> False"
| "call_safe (C_str s) \<longleftrightarrow> length s < CBA_MAXBUFF"
| "call_safe (C_file n rs) \<longleftrightarrow> False"
| "call_safe _ \<longleftrightarrow> True"

lemma mx_call_good:
  assumes "mx_good en cx" "call_safe c"
  obtains cx' where "mx_call en c cx = Some cx'" "mx_good en cx'" "mx_world cx' = mx_world cx"
proof -
  obtain tid w where f: "en_file en" "wr_rel tid (mx_cba cx) w" using assms(1) by (auto simp: mx_good_def)
  have "call_ok tid c w" using assms(2) by (cases c; cases w) auto
  from exec_refines[OF f(2) this] obtain t io where
    "cba_exec True c (mx_cba cx) = Some (t, io)" "wr_rel tid t (fst (spec_call c w))" by blast
  with f(1) show thesis
    by (intro that[of "cx\<lparr>mx_cba := t, mx_io := mx_io cx @ io\<rparr>"]) (auto simp: mx_call_def mx_good_def simp del: split_paired_Ex)
qed

lemma mx_fail_good: "mx_good en cx \<Longrightarrow> mx_fail en ts code ret cx \<noteq> None"
  by (rule mx_call_good[of en cx "C_bit code"]) (auto simp: mx_fail_def mx_exit_def)

lemma mx_read_plain:
  assumes "\<not> ts_is_ssl ts"
  obtains ok d w where "mx_read en ts n deadline cx = Some (ok, d, cx\<lparr>mx_world := w\<rparr>)"
    "read_all (en_os en) (ts_fd ts) n deadline (mx_world cx) = (ok, d, w)"
  using ts_read_all_is_read_all[OF assms, of "en_os en" "en_tls en" n deadline "mx_world cx"]
  by (cases "read_all (en_os en) (ts_fd ts) n deadline (mx_world cx)") (auto simp: mx_read_def)

lemma mx_write_plain:
  assumes "\<not> ts_is_ssl ts"
  obtains ok w where "mx_write en ts b deadline cx = Some (ok, cx\<lparr>mx_world := w\<rparr>)"
  using ts_write_loop_plain[of "en_os en" ts b deadline 0 "mx_world cx"] assms
  by (auto simp: mx_write_def ts_write_all_def ts_ssl_def)

end
