(* ===== verification/Ip4.thy ===== *)
theory Ip4
  imports Module_Ctx
begin

unbundle bit_operations_syntax

text \<open>
  \<open>parse_ip4\<close> of \<^verbatim>\<open>socket_utils.c\<close>, with the part of C's library it rests on (\<open>inet_aton\<close>: one to four
  numbers, decimal, octal or hexadecimal, the last one filling the remaining bytes), and \<open>print_ip4\<close>
  as its inverse. A text that is no address parses as \<open>0\<close>: \<open>addr\<close> keeps its initial value.
\<close>

section \<open>inet_aton\<close>

definition is_xdigit :: "char \<Rightarrow> bool" where
  "is_xdigit c \<longleftrightarrow> is_digit c \<or> (65 \<le> (of_char c :: nat) \<and> (of_char c :: nat) \<le> 70)
     \<or> (97 \<le> (of_char c :: nat) \<and> (of_char c :: nat) \<le> 102)"

definition xdigit_val :: "char \<Rightarrow> nat" where
  "xdigit_val c = (if is_digit c then digit_val c else (of_char c mod 32) + 9)"

definition is_odigit :: "char \<Rightarrow> bool" where
  "is_odigit c \<longleftrightarrow> is_digit c \<and> digit_val c < 8"

fun scan_base :: "nat \<Rightarrow> (char \<Rightarrow> bool) \<Rightarrow> nat \<Rightarrow> string \<Rightarrow> nat \<times> string" where
  "scan_base b ok acc [] = (acc, [])"
| "scan_base b ok acc (c # cs) =
     (if ok c then scan_base b ok (b * acc + xdigit_val c) cs else (acc, c # cs))"

text \<open>\<open>strtoul(cp, &endp, 0)\<close> on a text that starts with a digit.\<close>

definition strtoul0 :: "string \<Rightarrow> nat \<times> string" where
  "strtoul0 s =
     (case s of
        c # x # d # r \<Rightarrow>
          if c = CHR ''0'' \<and> (x = CHR ''x'' \<or> x = CHR ''X'') \<and> is_xdigit d
          then scan_base 16 is_xdigit 0 (d # r)
          else if c = CHR ''0'' then scan_base 8 is_odigit 0 s else scan_base 10 is_digit 0 s
      | c # r \<Rightarrow> if c = CHR ''0'' then scan_base 8 is_odigit 0 s else scan_base 10 is_digit 0 s
      | [] \<Rightarrow> (0, []))"

text \<open>The parts before the last must be bytes; the last one is bounded by the bytes left.\<close>

fun aton :: "nat \<Rightarrow> u32 \<Rightarrow> string \<Rightarrow> u32 option" where
  "aton left hi s =
     (if s = [] \<or> \<not> is_digit (hd s) then None
      else case strtoul0 s of (v, rest) \<Rightarrow>
        if 2 ^ 32 \<le> v then None
        else case rest of
          [] \<Rightarrow> if v < 256 ^ left then Some (hi OR word_of_nat v) else None
        | c # r \<Rightarrow>
            if c = CHR ''.'' then
              (case left of Suc (Suc k) \<Rightarrow>
                 if v < 256 then aton (Suc k) (hi OR push_bit (8 * Suc k) (word_of_nat v)) r else None
               | _ \<Rightarrow> None)
            else if is_space c \<and> v < 256 ^ left then Some (hi OR word_of_nat v) else None)"

declare aton.simps [simp del]

definition parse_ip4 :: "string \<Rightarrow> u32" where
  "parse_ip4 s = (case aton 4 0 s of None \<Rightarrow> 0 | Some a \<Rightarrow> a)"

section \<open>Round trip\<close>

lemma scan_base_digits: "scan_base 10 is_digit acc s = scan_digits acc s"
  by (induction s arbitrary: acc) (auto simp: xdigit_val_def)

lemma scan_digits_dec_end:
  "rest = [] \<or> \<not> is_digit (hd rest) \<Longrightarrow> scan_digits 0 (dec_string n @ rest) = (n, rest)"
  using scan_digits_dec[of n rest] by (cases rest) auto

lemma char_zero: "n < 10 \<Longrightarrow> char_of (48 + n) = CHR ''0'' \<longleftrightarrow> n = (0 :: nat)"
proof -
  assume n: "n < 10"
  have z: "(CHR ''0'' :: char) = char_of (48 :: nat)" by code_simp
  have "(of_char (char_of (48 + n) :: char) :: nat) = 48 + n" using n by (simp add: of_char_of)
  moreover have "(of_char (char_of (48 :: nat) :: char) :: nat) = 48" by (simp add: of_char_of)
  ultimately show ?thesis unfolding z by (metis add.right_neutral add_left_imp_eq)
qed

lemma dec_string_zero: "dec_string 0 = ''0''"
  using char_zero[of 0] by (subst dec_string.simps) simp

lemma dec_string_hd: "0 < n \<Longrightarrow> hd (dec_string n) \<noteq> CHR ''0''"
proof (induction n rule: dec_string.induct)
  case (1 n)
  show ?case
  proof (cases "n < 10")
    case True
    then show ?thesis using char_zero[of n] 1(2) by (subst dec_string.simps) simp
  next
    case False
    then have "hd (dec_string (n div 10)) \<noteq> CHR ''0''" using 1 by simp
    with False show ?thesis by (subst dec_string.simps) (simp add: hd_append)
  qed
qed

lemma strtoul0_dec:
  assumes "rest = [] \<or> hd rest = CHR ''.''"
  shows "strtoul0 (dec_string n @ rest) = (n, rest)"
proof (cases "n = 0")
  case True
  have "\<not> is_odigit CHR ''.''" "is_odigit CHR ''0''" "xdigit_val CHR ''0'' = 0"
    by (simp_all add: is_odigit_def is_digit_def digit_val_def xdigit_val_def)
  then show ?thesis using assms True
    by (auto simp: strtoul0_def dec_string_zero split: list.splits)
next
  case False
  have nd: "rest = [] \<or> \<not> is_digit (hd rest)" using assms by (auto simp: is_digit_def)
  obtain c cs where c: "dec_string n = c # cs" by (cases "dec_string n") auto
  have "c \<noteq> CHR ''0''" using dec_string_hd[of n] False c by simp
  then have "strtoul0 (dec_string n @ rest) = scan_digits 0 (dec_string n @ rest)"
    by (auto simp: strtoul0_def c scan_base_digits split: list.splits
        simp del: scan_digits.simps scan_base.simps)
  with scan_digits_dec_end[OF nd] show ?thesis by simp
qed

lemma aton_last:
  assumes "n < 256 ^ left" "n < 2 ^ 32"
  shows "aton left hi (dec_string n) = Some (hi OR word_of_nat n)"
proof -
  obtain c cs where c: "dec_string n = c # cs" by (cases "dec_string n") auto
  then have "is_digit c" using dec_string_digits[of n] by simp
  then show ?thesis using strtoul0_dec[of "[]" n] assms c by (subst aton.simps) simp
qed

lemma aton_part:
  assumes "n < 256"
  shows "aton (Suc (Suc k)) hi (dec_string n @ CHR ''.'' # r)
    = aton (Suc k) (hi OR push_bit (8 * Suc k) (word_of_nat n)) r"
proof -
  obtain c cs where c: "dec_string n = c # cs" by (cases "dec_string n") auto
  then have "is_digit c" using dec_string_digits[of n] by simp
  then show ?thesis using strtoul0_dec[of "CHR ''.'' # r" n] assms c by (subst aton.simps) simp
qed

lemma aton_parts:
  assumes "n < 256"
  shows "aton 4 hi (dec_string n @ CHR ''.'' # r) = aton 3 (hi OR push_bit 24 (word_of_nat n)) r"
    "aton 3 hi (dec_string n @ CHR ''.'' # r) = aton 2 (hi OR push_bit 16 (word_of_nat n)) r"
    "aton 2 hi (dec_string n @ CHR ''.'' # r) = aton 1 (hi OR push_bit 8 (word_of_nat n)) r"
proof -
  have q: "(4 :: nat) = Suc (Suc 2)" "(3 :: nat) = Suc 2" "(2 :: nat) = Suc 1" "(1 :: nat) = Suc 0"
    "(24 :: nat) = 8 * Suc 2" "(16 :: nat) = 8 * Suc 1" "(8 :: nat) = 8 * Suc 0" by simp_all
  show "aton 4 hi (dec_string n @ CHR ''.'' # r) = aton 3 (hi OR push_bit 24 (word_of_nat n)) r"
    using aton_part[OF assms, of 2 hi r] by (simp only: q(5) q(1) q(2))
  show "aton 3 hi (dec_string n @ CHR ''.'' # r) = aton 2 (hi OR push_bit 16 (word_of_nat n)) r"
    using aton_part[OF assms, of "Suc 0" hi r] by (simp add: numeral_3_eq_3 numeral_2_eq_2)
  show "aton 2 hi (dec_string n @ CHR ''.'' # r) = aton 1 (hi OR push_bit 8 (word_of_nat n)) r"
    using aton_part[OF assms, of 0 hi r] by (simp add: numeral_2_eq_2)
qed

lemma four_bytes:
  fixes ip :: u32
  defines "b \<equiv> \<lambda>k. drop_bit (8 * k) ip AND 0xFF"
  shows "push_bit 24 (b 3) OR push_bit 16 (b 2) OR push_bit 8 (b 1) OR b 0 = ip"
proof (rule bit_word_eqI)
  fix n :: nat assume n: "n < LENGTH(32)"
  have m: "(0xFF :: u32) = mask 8" by (simp add: mask_eq_exp_minus_1)
  consider "n < 8" | "8 \<le> n" "n < 16" | "16 \<le> n" "n < 24" | "24 \<le> n" by linarith
  then show "bit (push_bit 24 (b 3) OR push_bit 16 (b 2) OR push_bit 8 (b 1) OR b 0) n = bit ip n"
    by cases (use n in \<open>auto simp: b_def m bit_simps\<close>)
qed

lemma parse_print: "parse_ip4 (print_ip4 ip) = ip"
proof -
  let ?n = "\<lambda>k. unat (drop_bit (8 * k) ip AND 0xFF)"
  have b: "?n k < 256" for k by (rule unat_byte_less)
  let ?w = "\<lambda>k. word_of_nat (?n k) :: u32"
  have "print_ip4 ip = dec_string (?n 3) @ CHR ''.'' # (dec_string (?n 2) @ CHR ''.'' #
      (dec_string (?n 1) @ CHR ''.'' # dec_string (?n 0)))"
    by (simp add: print_ip4_def ip_byte_def)
  moreover have "aton 1 hi (dec_string (?n 0)) = Some (hi OR ?w 0)" for hi
    using aton_last[of "?n 0" 1 hi] b[of 0] by simp
  ultimately have "aton 4 0 (print_ip4 ip) = Some (((push_bit 24 (?w 3) OR push_bit 16 (?w 2))
      OR push_bit 8 (?w 1)) OR ?w 0)"
    by (simp only: aton_parts[OF b] or.left_neutral)
  then show ?thesis using four_bytes[of ip] by (simp add: parse_ip4_def or.assoc)
qed


text \<open>An address survives printing and parsing: \<open>parse_ip4 (print_ip4 ip)\<close> is \<open>ip\<close>, for every
  address, so the lists \<open>-l\<close> prints can be fed back to \<open>-x\<close>.\<close>

theorem parse_print_ip4: "parse_ip4 (print_ip4 ip) = ip"
  by (rule parse_print)

end
