(* ===== verification/Outcome.thy ===== *)
theory Outcome
  imports Prelude "HOL-Library.Monad_Syntax"
begin

text \<open>
  Computations that may end the process. \<open>None\<close> is undefined behaviour; \<open>Some (Inl e)\<close> is a process that
  has stopped, by \<open>exit\<close> with a code, or that has used up the steps it was given inside a loop that
  the code does not bound (\<open>Spinning\<close>); \<open>Some (Inr x)\<close> is a result. \<open>then_do\<close> sequences them, and
  \<open>lands m Q\<close> says that \<open>m\<close> is defined, and that what it returns, if it returns, satisfies \<open>Q\<close>.
\<close>

datatype stop = Exited int | Spinning

type_synonym 'a outcome = "(stop + 'a) option"

definition then_do :: "'a outcome \<Rightarrow> ('a \<Rightarrow> 'b outcome) \<Rightarrow> 'b outcome" where
  "then_do m f = (case m of None \<Rightarrow> None | Some (Inl e) \<Rightarrow> Some (Inl e) | Some (Inr x) \<Rightarrow> f x)"

lemma then_do_simps [simp]:
  "then_do None f = None" "then_do (Some (Inl e)) f = Some (Inl e)" "then_do (Some (Inr x)) f = f x"
  by (simp_all add: then_do_def)

lemma then_do_eq_Inr: "then_do m f = Some (Inr y) \<longleftrightarrow> (\<exists>x. m = Some (Inr x) \<and> f x = Some (Inr y))"
  by (auto simp: then_do_def split: option.splits sum.splits)

definition lands :: "'a outcome \<Rightarrow> ('a \<Rightarrow> bool) \<Rightarrow> bool" where
  "lands m Q \<longleftrightarrow> (case m of None \<Rightarrow> False | Some (Inl e) \<Rightarrow> True | Some (Inr x) \<Rightarrow> Q x)"

lemma lands_simps [simp]:
  "lands None Q = False" "lands (Some (Inl e)) Q = True" "lands (Some (Inr x)) Q = Q x"
  by (simp_all add: lands_def)

lemma lands_then: "lands m R \<Longrightarrow> (\<And>x. R x \<Longrightarrow> lands (f x) Q) \<Longrightarrow> lands (then_do m f) Q"
  by (cases m rule: option.exhaust; simp) (rename_tac r, case_tac r; simp)

lemma lands_mono: "lands m R \<Longrightarrow> (\<And>x. R x \<Longrightarrow> Q x) \<Longrightarrow> lands m Q"
  by (auto simp: lands_def split: option.splits sum.splits)

lemma lands_conj: "lands m Q \<Longrightarrow> lands m R \<Longrightarrow> lands m (\<lambda>x. Q x \<and> R x)"
  by (auto simp: lands_def split: option.splits sum.splits)

lemma lands_defined: "lands m Q \<Longrightarrow> m \<noteq> None"
  by (cases m) simp_all

lemma landsD: "lands m Q \<Longrightarrow> m = Some (Inr x) \<Longrightarrow> Q x"
  by simp

lemma lands_cases:
  assumes "lands m Q"
  obtains (stopped) e where "m = Some (Inl e)" | (returned) x where "m = Some (Inr x)" "Q x"
  using assms by (auto simp: lands_def split: option.splits sum.splits)

lemma map_outcome:
  assumes "map_option (map_sum id f) m = Some (Inr y)"
  shows "\<exists>x. m = Some (Inr x) \<and> f x = y"
proof -
  obtain r where r: "m = Some r" using assms by (cases m) auto
  with assms show ?thesis by (cases r) auto
qed

end
