(* ===== verification/Args.thy ===== *)
theory Args
  imports Portspec Csw Ip4 Outcome
begin

unbundle bit_operations_syntax

text \<open>
  The options of \<^verbatim>\<open>cscan.c\<close> and \<open>parse_args\<close>: the loop over \<open>argv\<close>, the values derived from the
  options (table size, rate, interval between two packets), and the choice of the target tables.
  Files are a parameter, and so are the tables compiled into the program (\<open>hardcoded.c\<close> is generated).
  \<open>None\<close> is undefined behaviour: a number outside \<open>int\<close>, an overflow or a division by zero.
\<close>

section \<open>Options\<close>

text \<open>The globals of \<^verbatim>\<open>cscan.c\<close> that options set, under their own names.\<close>

record options =
  packets_per_second :: int
  max_pending_results :: int
  max_pending_sockets :: int
  connect_timeout :: int
  socket_list_excess :: int
  auto_interval :: int
  connect_interval :: int
  bind_ip_n :: u32
  bind_port :: int
  bind_max_retries :: int
  from_stdin :: bool
  list_only :: bool
  daemonize :: bool
  canary_ip :: u32
  canary_port :: int
  canary_after :: int
  stats_every :: int
  stats_every_cba :: int
  output_cba_file :: "string option"
  output_files_dir :: "string option"
  enabled_modules :: string
  modules_config :: string

definition default_options :: "string \<Rightarrow> string \<Rightarrow> options" where
  "default_options mods mcfg = \<lparr>packets_per_second = 520, max_pending_results = 50,
     max_pending_sockets = 0, connect_timeout = 800, socket_list_excess = 1000, auto_interval = 90,
     connect_interval = 500, bind_ip_n = 0, bind_port = 32005, bind_max_retries = 5,
     from_stdin = False, list_only = False, daemonize = False, canary_ip = 0, canary_port = 80,
     canary_after = 5600, stats_every = 1000, stats_every_cba = 10000, output_cba_file = None,
     output_files_dir = None, enabled_modules = mods, modules_config = mcfg\<rparr>"

text \<open>The locals of \<open>parse_args\<close>.\<close>

record arg_state =
  ar_opts :: options
  ranges_file :: "string option"
  ports_file :: "string option"
  portspec :: "string option"
  new_stats_every :: int

definition atoi :: "string \<Rightarrow> int option" where
  "atoi s = (case scan_d s of Conv v _ \<Rightarrow> cint v | _ \<Rightarrow> Some 0)"

definition htonl :: "u32 \<Rightarrow> u32" where
  "htonl x = word_of_nat (le_dec (rev (le32 x)))"

section \<open>The loop\<close>

definition arg_flag :: "string \<Rightarrow> arg_state \<Rightarrow> arg_state" where
  "arg_flag x a =
     (let p = ar_opts a in
      if x = ''-x'' then a\<lparr>ar_opts := p\<lparr>from_stdin := True\<rparr>\<rparr>
      else if x = ''-d'' then a\<lparr>ar_opts := p\<lparr>daemonize := True\<rparr>\<rparr>
      else if x = ''-l'' then a\<lparr>ar_opts := p\<lparr>list_only := True\<rparr>\<rparr>
      else a)"

text \<open>
  An option with its value: \<open>Some None\<close> when \<open>x\<close> is none of the names, and the value is looked at as an
  option itself.
\<close>

definition arg_int :: "(int \<Rightarrow> options \<Rightarrow> options) \<Rightarrow> string \<Rightarrow> arg_state \<Rightarrow> arg_state option option" where
  "arg_int f v a = map_option (\<lambda>i. Some (a\<lparr>ar_opts := f i (ar_opts a)\<rparr>)) (atoi v)"

definition arg_set :: "(options \<Rightarrow> options) \<Rightarrow> arg_state \<Rightarrow> arg_state option option" where
  "arg_set f a = Some (Some (a\<lparr>ar_opts := f (ar_opts a)\<rparr>))"

definition arg_value :: "string \<Rightarrow> string \<Rightarrow> arg_state \<Rightarrow> arg_state option option" where
  "arg_value x v a =
     (if x = ''-t'' then arg_int (\<lambda>i p. p\<lparr>connect_timeout := i\<rparr>) v a
      else if x = ''-r'' then arg_int (\<lambda>i p. p\<lparr>packets_per_second := i\<rparr>) v a
      else if x = ''-m'' then arg_int (\<lambda>i p. p\<lparr>packets_per_second := 0, max_pending_sockets := i\<rparr>) v a
      else if x = ''-pr'' then arg_int (\<lambda>i p. p\<lparr>max_pending_results := i\<rparr>) v a
      else if x = ''-b'' then arg_int (\<lambda>i p. p\<lparr>bind_port := i\<rparr>) v a
      else if x = ''-bi'' then arg_set (\<lambda>p. p\<lparr>bind_ip_n := htonl (parse_ip4 v)\<rparr>) a
      else if x = ''-bt'' then arg_int (\<lambda>i p. p\<lparr>bind_max_retries := i\<rparr>) v a
      else if x = ''-a'' then arg_int (\<lambda>i p. p\<lparr>auto_interval := i\<rparr>) v a
      else if x = ''-ct'' then arg_int (\<lambda>i p. p\<lparr>auto_interval := 0, connect_interval := i\<rparr>) v a
      else if x = ''-e'' then arg_int (\<lambda>i p. p\<lparr>socket_list_excess := i\<rparr>) v a
      else if x = ''-c'' then arg_set (\<lambda>p. p\<lparr>canary_ip := parse_ip4 v\<rparr>) a
      else if x = ''-cp'' then arg_int (\<lambda>i p. p\<lparr>canary_port := i\<rparr>) v a
      else if x = ''-ca'' then arg_int (\<lambda>i p. p\<lparr>canary_after := i\<rparr>) v a
      else if x = ''-mod'' then arg_set (\<lambda>p. p\<lparr>enabled_modules := v\<rparr>) a
      else if x = ''-mcfg'' then arg_set (\<lambda>p. p\<lparr>modules_config := v\<rparr>) a
      else if x = ''-f'' then Some (Some (a\<lparr>ranges_file := Some v\<rparr>))
      else if x = ''-pf'' then Some (Some (a\<lparr>ports_file := Some v\<rparr>))
      else if x = ''-p'' then Some (Some (a\<lparr>portspec := Some v\<rparr>))
      else if x = ''-o'' then arg_set (\<lambda>p. p\<lparr>output_cba_file := Some v\<rparr>) a
      else if x = ''-o'' then arg_set (\<lambda>p. p\<lparr>output_files_dir := Some v\<rparr>) a
      else if x = ''-st'' then map_option (\<lambda>i. Some (a\<lparr>new_stats_every := i\<rparr>)) (atoi v)
      else Some None)"

fun arg_loop :: "string list \<Rightarrow> arg_state \<Rightarrow> arg_state option" where
  "arg_loop [] a = Some a"
| "arg_loop [x] a = Some (arg_flag x a)"
| "arg_loop (x # v # rest) a =
     (let a = arg_flag x a in
      case arg_value x v a of None \<Rightarrow> None
      | Some (Some a) \<Rightarrow> arg_loop rest a
      | Some None \<Rightarrow> arg_loop (v # rest) a)"

section \<open>Derived values and tables\<close>

definition derive_interval :: "options \<Rightarrow> options option" where
  "derive_interval p =
     (if auto_interval p \<noteq> 0
      then do {
        n \<leftarrow> cmul (auto_interval p) (connect_timeout p);
        n \<leftarrow> cmul n 10;
        n \<leftarrow> cdiv n (max_pending_sockets p);
        Some (p\<lparr>connect_interval := n\<rparr>)
      } else Some p)"

definition derive_rates :: "options \<Rightarrow> options option" where
  "derive_rates p = do {
     p \<leftarrow> (if packets_per_second p \<noteq> 0
          then do {
            n \<leftarrow> cmul (packets_per_second p) (connect_timeout p);
            n \<leftarrow> cdiv n 1000;
            Some (p\<lparr>max_pending_sockets := n\<rparr>)
          } else do {
            n \<leftarrow> cmul 1000 (max_pending_sockets p);
            n \<leftarrow> cdiv n (connect_timeout p);
            Some (p\<lparr>packets_per_second := n\<rparr>)
          });
     derive_interval p
   }"

text \<open>\<open>fail\<close> when a table cannot be made; \<open>mem\<close> and \<open>heap\<close> are \<open>malloc\<close> and what it returns.\<close>

record tables =
  tb_ranges :: range_cfg
  tb_ports :: range_cfg

definition need :: "range_cfg ptr \<Rightarrow> stop + range_cfg" where
  "need p = (case p of Null \<Rightarrow> Inl (Exited 1) | Ptr c \<Rightarrow> Inr c)"

definition choose_ranges ::
  "(nat \<Rightarrow> bool) \<Rightarrow> (nat \<Rightarrow> u32) \<Rightarrow> (string \<Rightarrow> byte list option) \<Rightarrow> range_cfg \<Rightarrow> arg_state
    \<Rightarrow> range_cfg outcome" where
  "choose_ranges mem heap files builtin a =
     (case ranges_file a of None \<Rightarrow> Some (Inr builtin)
      | Some f \<Rightarrow> map_option need (load_range_cfg mem heap (files f)))"

definition choose_ports ::
  "(nat \<Rightarrow> bool) \<Rightarrow> (nat \<Rightarrow> u32) \<Rightarrow> (string \<Rightarrow> byte list option) \<Rightarrow> range_cfg \<Rightarrow> arg_state
    \<Rightarrow> range_cfg outcome" where
  "choose_ports mem heap files builtin a =
     (case ports_file a of
        Some f \<Rightarrow> map_option need (load_range_cfg mem heap (files f))
      | None \<Rightarrow> (case portspec a of
          Some s \<Rightarrow> map_option need (make_port_ranges mem s)
        | None \<Rightarrow> Some (Inr builtin)))"

text \<open>\<open>parse_args\<close> on the arguments behind the program's name; asking for help exits.\<close>

definition wants_help :: "string list \<Rightarrow> bool" where
  "wants_help args = (case args of [] \<Rightarrow> False
     | x # _ \<Rightarrow> take 2 x = ''-h'' \<or> take 3 x = ''--h'')"

definition choose_stats :: "arg_state \<Rightarrow> options \<Rightarrow> options" where
  "choose_stats a p =
     (if new_stats_every a \<noteq> 0 then p\<lparr>stats_every := new_stats_every a\<rparr>
      else if output_cba_file p \<noteq> None then p\<lparr>stats_every := stats_every_cba p\<rparr> else p)"

definition arg_init :: "options \<Rightarrow> arg_state" where
  "arg_init dflt = \<lparr>ar_opts = dflt, ranges_file = None, ports_file = None, portspec = None, new_stats_every = 0\<rparr>"

definition parse_args ::
  "(nat \<Rightarrow> bool) \<Rightarrow> (nat \<Rightarrow> u32) \<Rightarrow> (string \<Rightarrow> byte list option) \<Rightarrow> tables \<Rightarrow> options \<Rightarrow> string list
    \<Rightarrow> (options \<times> tables) outcome" where
  "parse_args mem heap files builtin dflt args =
     (if wants_help args then Some (Inl (Exited 1))
      else do {
        a \<leftarrow> arg_loop args (arg_init dflt);
        p \<leftarrow> derive_rates (ar_opts a);
        let p = choose_stats a p;
        then_do (choose_ranges mem heap files (tb_ranges builtin) a) (\<lambda>rs.
        then_do (choose_ports mem heap files (tb_ports builtin) a) (\<lambda>ps.
          Some (Inr (p, \<lparr>tb_ranges = rs, tb_ports = ps\<rparr>))))
      })"

section \<open>The derived values\<close>

lemma cdiv_zero [simp]: "cdiv a 0 = None"
  by (simp add: cdiv_def)

lemma cdiv_nonneg: "0 \<le> a \<Longrightarrow> a < 2 ^ 31 \<Longrightarrow> 0 < b \<Longrightarrow> cdiv a b = Some (a div b)"
  by (rule cdiv_Some) (simp_all add: int_ok_nonneg)



text \<open>The divisions trap exactly on a table without a place, which a low rate or \<open>-m 0\<close> gives, when
  the interval is derived from it, and on \<open>-m\<close> with a timeout of \<open>0\<close>.\<close>

theorem derive_rates_traps:
  assumes "0 \<le> packets_per_second p" "0 \<le> connect_timeout p" "0 \<le> auto_interval p" "0 \<le> max_pending_sockets p"
    and "packets_per_second p * connect_timeout p < 2 ^ 31" "1000 * max_pending_sockets p < 2 ^ 31"
    and "auto_interval p * connect_timeout p * 10 < 2 ^ 31"
  shows "derive_rates p = None \<longleftrightarrow>
    packets_per_second p = 0 \<and> connect_timeout p = 0 \<or>
    auto_interval p \<noteq> 0 \<and>
      (if packets_per_second p = 0 then max_pending_sockets p = 0
       else packets_per_second p * connect_timeout p < 1000)"
proof -
  have n: "derive_interval q = None \<longleftrightarrow> auto_interval p \<noteq> 0 \<and> max_pending_sockets q = 0"
    if "0 \<le> max_pending_sockets q" "auto_interval q = auto_interval p" "connect_timeout q = connect_timeout p" for q
  proof -
    have "int_ok (auto_interval p * connect_timeout p)" "int_ok (auto_interval p * connect_timeout p * 10)"
      using assms(2,3,7) by (simp_all add: int_ok_nonneg)
    then show ?thesis
      using cdiv_nonneg[of "auto_interval p * connect_timeout p * 10" "max_pending_sockets q"] assms(2,3,7) that
      by (cases "max_pending_sockets q = 0") (auto simp: derive_interval_def)
  qed
  have nn: "0 \<le> packets_per_second p * connect_timeout p" using assms(1,2) by simp
  show ?thesis
  proof (cases "packets_per_second p = 0")
    case True
    show ?thesis
    proof (cases "connect_timeout p = 0")
      case False
      then have "derive_rates p = derive_interval
          (p\<lparr>packets_per_second := 1000 * max_pending_sockets p div connect_timeout p\<rparr>)"
        using True assms(2,4,6) cdiv_nonneg by (simp add: derive_rates_def int_ok_nonneg)
      with True False assms(4) n show ?thesis by simp
    qed (use True assms(4,6) in \<open>simp add: derive_rates_def int_ok_nonneg\<close>)
  next
    case False
    then have "derive_rates p = derive_interval
        (p\<lparr>max_pending_sockets := packets_per_second p * connect_timeout p div 1000\<rparr>)"
      using nn assms(5) cdiv_nonneg by (simp add: derive_rates_def int_ok_nonneg)
    moreover have "packets_per_second p * connect_timeout p div 1000 = 0
        \<longleftrightarrow> packets_per_second p * connect_timeout p < 1000" using nn by auto
    ultimately show ?thesis using False n nn by (simp add: pos_imp_zdiv_nonneg_iff)
  qed
qed

theorem derive_rates_traps_witness:
  "derive_rates ((default_options [] [])\<lparr>connect_timeout := 1\<rparr>) = None"
  using derive_rates_traps[of "(default_options [] [])\<lparr>connect_timeout := 1\<rparr>"] by (simp add: default_options_def)

end
