(* ===== verification/Builtin_Data.thy ===== *)
theory Builtin_Data
  imports Args
begin

text \<open>
  The tables compiled into the program, \<^verbatim>\<open>hardcoded.c\<close>: the words of \<open>builtin_ranges\<close> in pieces, and the blocks
  of addresses the presets keep out, \<^verbatim>\<open>presets/reserved.txt\<close> and \<^verbatim>\<open>presets/private.txt\<close>. \<open>data_run\<close> reads the
  words as \<open>compile-targets.py\<close> writes them, end and last index of each range, and checks that the ranges
  are in order, apart, and outside given blocks.
\<close>

section \<open>Blocks\<close>

text \<open>The first and the last address of \<open>a.b.c.d/n\<close>.\<close>

definition cidr :: "int \<Rightarrow> int \<Rightarrow> int \<Rightarrow> int \<Rightarrow> nat \<Rightarrow> int \<times> int" where
  "cidr a b c d n = (let ip = ((a * 256 + b) * 256 + c) * 256 + d in (ip, ip + 2 ^ (32 - n) - 1))"

definition reserved_blocks :: "(int \<times> int) list" where
  "reserved_blocks = [cidr 0 0 0 0 8, cidr 100 64 0 0 10, cidr 127 0 0 0 8, cidr 169 254 0 0 16, cidr 192 0 0 0 24,
     cidr 192 0 0 0 29, cidr 192 0 0 170 32, cidr 192 0 0 171 32, cidr 192 0 2 0 24, cidr 192 88 99 0 24,
     cidr 198 18 0 0 15, cidr 198 51 100 0 24, cidr 203 0 113 0 24, cidr 240 0 0 0 4, cidr 255 255 255 255 32]"

definition private_blocks :: "(int \<times> int) list" where
  "private_blocks = [cidr 10 0 0 0 8, cidr 172 16 0 0 12, cidr 192 168 0 0 16]"

section \<open>The table\<close>

definition ranges_1 :: "int list" where
  "ranges_1 = [
    17563647, 785407, 17842175, 801791, 20119551, 2833407, 24379391, 7027711, 28835839, 11353087, 34603007,
    16989183, 34675711, 17043455, 34758655, 17108991, 34803711, 17113087, 34844671, 17130495, 34905087,
    17170687, 34938879, 17187071, 35012607, 17241343, 35069951, 17274111, 50331647, 32518399, 70633727,
    36043263, 84475903, 49885183, 84557823, 49901567, 86441983, 51769343, 88834047, 54128639, 89063423,
    54325247, 92733439, 57978879, 93714431, 58894335, 93893375, 59054847, 93913087, 59074303, 94437375,
    59582207, 95387647, 60466943, 96731135, 61777663, 97058815, 62039807, 98303999, 63252223, 98959359,
    63645439, 99074047, 63661823, 100663295, 65234687, 135045631, 66062591, 135156735, 66172927, 135172351,
    66187519, 135395839, 66410239, 142606335, 73619967, 147849215, 74668543, 150994943, 76765695, 218103807,
    93542911, 218824703, 93739519, 219283455, 94067199, 219545599, 94198271, 219873279, 94394879, 225443839,
    94657023, 237202687, 96976639, 246595583, 106350847]"

definition ranges_2 :: "int list" where
  "ranges_2 = [
    251658239, 111266047, 251691007, 111272191, 252464127, 111273215, 253266687, 111289343, 253788159,
    111305727, 254050303, 111322111, 254312447, 111338495, 259108863, 111342591, 260151295, 111343615,
    260313087, 111344639, 260391935, 111362047, 260616447, 111366399, 261054975, 111366911, 263012351,
    111375103, 265592831, 111376127, 265751039, 111376639, 271187199, 111412735, 275345919, 111414271,
    293036031, 111415295, 344268799, 111419391, 344596479, 111423487, 345656063, 111425791, 345794559,
    111497471, 385951743, 111556863, 386012671, 111595263, 386093055, 111615743, 386162687, 111616255,
    386256895, 111677695, 386285567, 111681791, 386367487, 111729151, 386416639, 111749631, 386457599,
    111774207, 386482175, 111782399, 386527231, 111786495, 386732031, 111950335, 386816511, 111969279,
    386871295, 111977471, 387134463, 112216575, 387184639, 112249343, 387645439, 112445951, 387986431,
    112721407, 388047871, 112751103, 388182015, 112849407, 388308991, 112951807, 388329471, 112955903,
    388354047, 112959999, 388395007, 112962047, 388575231, 113068543]"

definition ranges_3 :: "int list" where
  "ranges_3 = [
    388624383, 113101311, 388666367, 113102335, 388739071, 113151487, 388771839, 113166847, 388825087,
    113178111, 388919295, 113251839, 388943871, 113255935, 388988671, 113276159, 389206015, 113468671,
    389259263, 113501439, 389378047, 113587455, 389476351, 113661183, 389494783, 113663231, 389539839,
    113677567, 389660671, 113775871, 389730303, 113807615, 389758975, 113817855, 389789183, 113819647,
    389857279, 113860607, 389914623, 113901055, 390033407, 113995775, 390064127, 113996287, 390103039,
    114014719, 390165503, 114048511, 390205439, 114050559, 390232063, 114052607, 390306815, 114054655,
    390594559, 114316799, 390692863, 114356735, 390731775, 114360831, 390767615, 114370047, 390934527,
    114457599, 390991871, 114461695, 391024127, 114462207, 391053311, 114470399, 391086079, 114478591,
    391204863, 114492927, 391225343, 114494975, 391278591, 114513407, 391348223, 114529791, 391380991,
    114542079, 391520255, 114546175, 392167423, 114939391, 392822783, 114955775, 392863743, 114972159,
    392978431, 114980351, 393011199, 114984447, 395309311, 117141247]"

definition ranges_4 :: "int list" where
  "ranges_4 = [
    395895039, 117702655, 397500671, 119275775, 397983999, 119734783, 398442751, 120161023, 398512127,
    120185087, 398537727, 120186111, 398589951, 120209663, 398721023, 120311039, 398779903, 120320767,
    398831615, 120353023, 398856191, 120354047, 398942207, 120399103, 398979071, 120400127, 399044607,
    120449279, 399122431, 120496383, 399216639, 120569087, 399285247, 120588031, 399322111, 120589055,
    399365119, 120611583, 399429631, 120652543, 399512063, 120706303, 399601663, 120764671, 399644671,
    120788223, 399663103, 120788735, 399688703, 120797951, 399816703, 120878847, 399900671, 120940287,
    399924223, 120944895, 399967231, 120962303, 400081919, 121012223, 400147455, 121059327, 400185343,
    121071103, 400318463, 121186303, 400346623, 121186815, 400445439, 121267199, 400486399, 121271295,
    400503807, 121272319, 400916479, 121659391, 401047551, 121692159, 401473535, 122085375, 401866751,
    122445823, 402046719, 122494719, 402456575, 122887935, 402554879, 122920703, 419430399, 139763455,
    421141503, 139829759, 433358335, 139831295, 435161087, 139833343]"

definition ranges_5 :: "int list" where
  "ranges_5 = [
    459735039, 146582527, 469237759, 156019711, 469762047, 156412927, 521795583, 158114815, 529354751,
    165606399, 529727487, 165737471, 534675455, 170619903, 553648127, 189576191, 574685183, 189641727,
    577110015, 189707263, 596639743, 190755839, 610074623, 197374975, 611449343, 198553087, 622886911,
    209071615, 624492543, 210644479, 624570367, 210656767, 624623615, 210689535, 625519615, 211519999,
    633012223, 219012095, 642303999, 228238335, 647053311, 232986623, 655884287, 241801215, 660602879,
    245995519, 671088639, 255629311, 675938303, 255760383, 679346175, 255793151, 679378943, 255809535,
    680524799, 256857087, 689111039, 258102271, 689438719, 258266111, 691863551, 260559871, 693633023,
    262198271, 699990015, 268424191, 705167359, 273535999, 708837375, 276681727, 709099519, 276812799,
    710962175, 278544383, 712507391, 280051711, 713031679, 280444927, 714875903, 281240575, 715128831,
    281437183, 717225983, 282485759, 718274559, 283382783, 720633855, 284693503, 721027071, 284824575,
    736886783, 285611007, 738197503, 286711807, 738493439, 286731007]"

definition ranges_6 :: "int list" where
  "ranges_6 = [
    738985983, 286731519, 739009535, 286732543, 739259391, 286733055, 739519743, 286733567, 739901439,
    286831103, 739935231, 286832127, 740229119, 286836223, 740460543, 286838271, 740620287, 286840319,
    740831231, 286841343, 740860415, 286841855, 741217535, 286842623, 741350399, 286847743, 742264575,
    286849023, 742798079, 286855935, 743182335, 286859007, 744241151, 286860031, 744386559, 286872319,
    744684031, 286873855, 744956927, 286883071, 746532863, 286893823, 746749951, 286899967, 746786815,
    286903807, 746989567, 286904319, 747032575, 286904831, 747101183, 286927871, 747151359, 286953471,
    747241471, 287019007, 747372543, 287084543, 747474943, 287089663, 747700223, 287155199, 748621823,
    287156223, 748879871, 287235071, 748962815, 287236095, 749273087, 287301631, 749404159, 287367167,
    749652735, 287367679, 750139391, 287382015, 750291967, 287383039, 750553087, 287385087, 750656767,
    287392511, 755187711, 287474431, 757137407, 289407743, 757465087, 289702655, 757626367, 289732863,
    757653503, 289734911, 758579199, 290636031, 758661119, 290652415]"

definition ranges_7 :: "int list" where
  "ranges_7 = [
    758906879, 290881791, 759431167, 291340543, 760152063, 291930367, 760182527, 291931135, 768081919,
    299795199, 768425983, 300008191, 768475135, 300040959, 768737279, 300172031, 769556479, 300860159,
    769589247, 300876543, 771278847, 302500607, 772014079, 303219455, 775127039, 306266879, 778371071,
    309478143, 778633215, 309674751, 780730367, 311706367, 782614527, 313524991, 787398655, 318292735,
    787447807, 318325503, 788529151, 319390463, 791487999, 322152703, 791937023, 322545919, 792199167,
    322742527, 793378815, 323791103, 794393087, 323805951, 803471359, 330097407, 803897343, 330261247,
    804666367, 330276607, 804913151, 330473215, 822214655, 330604287, 822607871, 330866431, 825491455,
    333356799, 829947903, 337551103, 830406655, 337747711, 830996479, 338271743, 832053247, 338935295,
    835715071, 342343167, 837287935, 343784959, 839254015, 345472511, 839385087, 345538047, 840302591,
    345669119, 840728575, 345964031, 842530815, 347749887, 842569727, 347750911, 842874879, 347967999,
    844562431, 349475327, 845004799, 349852159, 845217791, 350063615]"

definition ranges_8 :: "int list" where
  "ranges_8 = [
    846200831, 350981119, 846430207, 351144959, 846462975, 351173631, 846524415, 351202303, 846577663,
    351218687, 855638015, 360197119, 856162303, 360328191, 856293375, 360393727, 856686591, 360524799,
    856948735, 360590335, 858128383, 360721407, 858259455, 360786943, 859111423, 360852479, 865468415,
    361114623, 865861631, 361245695, 866123775, 361376767, 866385919, 361442303, 866910207, 361507839,
    867172351, 361638911, 867426303, 361679871, 867696639, 361810943, 867958783, 361942015, 868220927,
    362073087, 868417535, 362138623, 868745215, 362269695, 869527551, 362298367, 870055935, 362429439,
    870293503, 362470399, 871104511, 362535935, 871497727, 362601471, 872284159, 362732543, 877920255,
    362994687, 880246783, 363027455, 880574463, 363060223, 881065983, 363318271, 881885183, 363351039,
    887095295, 363367423, 920649727, 363498495, 962881535, 363525119, 968757247, 363529215, 968852479,
    363546623, 972742911, 363555071, 973996031, 364281087, 978796543, 368950527, 983171071, 373308671,
    985661439, 375667967, 994050047, 383007999, 995191807, 383101183]"

definition ranges_9 :: "int list" where
  "ranges_9 = [
    997064703, 384837887, 999784447, 387492095, 1002438655, 390129919, 1006436351, 390195455, 1020002303,
    403564799, 1023311871, 406743295, 1031340031, 414755071, 1031536639, 414918911, 1037172735, 420489471,
    1039712255, 422963455, 1045364735, 428599551, 1049100287, 432269567, 1049264127, 432285951, 1051443199,
    434448639, 1052246015, 435235071, 1054425087, 437151999, 1055211519, 437922047, 1055260671, 437954815,
    1055522815, 438151423, 1059061759, 441624831, 1066262015, 448562943, 1072693247, 454993919, 1074003967,
    456288255, 1074298879, 456566783, 1074888703, 457140223, 1076707327, 458934271, 1077002239, 459207679,
    1077280767, 459469823, 1077624831, 459748351, 1077869823, 459976959, 1079795711, 461902591, 1079869439,
    461968127, 1080295423, 462361343, 1080688639, 462426879, 1081081855, 462787327, 1082343423, 464007935,
    1083264767, 464912895, 1083265535, 464913407, 1084133887, 465781247, 1085636607, 467283455, 1088421887,
    470035967, 1089107967, 470525439, 1089863679, 471262719, 1089945599, 471328255, 1090273279, 471639551,
    1090519039, 471852543, 1091043327, 472114687, 1091698687, 472507903]"

definition ranges_10 :: "int list" where
  "ranges_10 = [
    1092911103, 473691647, 1093074943, 473822719, 1093736447, 474467839, 1093754111, 474485247, 1093926911,
    474657791, 1094549503, 475018239, 1094582271, 475034623, 1101185023, 481506303, 1102053375, 482373631,
    1107181567, 487165951, 1110704127, 490672127, 1111916543, 491737087, 1112514559, 492269567, 1113751551,
    493498367, 1114931199, 494645247, 1116733439, 496414463, 1117421567, 496971519, 1117830911, 497348095,
    1120206847, 499723775, 1120583679, 500067839, 1120661503, 500126719, 1121468415, 500863999, 1122369535,
    501748735, 1123139583, 502502399, 1123287039, 502633471, 1125056511, 504386559, 1125253119, 504517631,
    1125400575, 504534015, 1127743487, 506860543, 1127969791, 506955775, 1134297087, 513263615, 1134510079,
    513345535, 1136656383, 515475455, 1136787455, 515540991, 1137295359, 515983359, 1137541119, 516196351,
    1138884607, 517523455, 1139015679, 517621759, 1142030335, 520570879, 1145225215, 523634687, 1145331711,
    523724799, 1149758463, 528147455, 1150943231, 529064959, 1152548863, 530539519, 1152712703, 530670591,
    1152843775, 530736127, 1154613247, 532440063, 1155137535, 532833279]"

definition ranges_11 :: "int list" where
  "ranges_11 = [
    1156136959, 533570559, 1158070271, 535487487, 1158676479, 536077311, 1158938623, 536306687, 1160658943,
    537994239, 1160941567, 538268671, 1161330687, 538653695, 1161691135, 538977279, 1161928703, 539182079,
    1162674175, 539902975, 1163624447, 540820479, 1163722751, 540886015, 1163919359, 541017087, 1168982015,
    545555455, 1169129471, 545686527, 1169182719, 545707007, 1169686527, 546206719, 1169891327, 546210815,
    1170247679, 546268159, 1170423807, 546422783, 1176584191, 552566783, 1176829951, 552796159, 1179910143,
    555827199, 1182973951, 558628863, 1183039487, 558678015, 1184366591, 559972351, 1184628735, 560103423,
    1189134335, 564477951, 1192361983, 567689215, 1192493055, 567754751, 1201143807, 576143359, 1208188927,
    583155711, 1208831999, 583766015, 1208922111, 583852031, 1210056703, 584966143, 1210335231, 585113599,
    1210621951, 585359359, 1211269119, 585916415, 1211366911, 585997823, 1211386879, 586000895, 1217396735,
    592010495, 1217921023, 592272639, 1218636287, 592725759, 1218904063, 592922367, 1223172095, 597124863,
    1223202815, 597126911, 1224169983, 598001919, 1224191999, 598002943]"

definition ranges_12 :: "int list" where
  "ranges_12 = [
    1244921599, 618715647, 1246898943, 620430591, 1246928895, 620460287, 1247150079, 620673279, 1247510527,
    620968191, 1249007615, 622432511, 1249050623, 622474495, 1249051135, 622474751, 1249051647, 622475007,
    1249534975, 622958079, 1249705983, 623128063, 1251999743, 625356287, 1253048319, 626142719, 1254670335,
    627502591, 1254948863, 627764735, 1255090175, 627873279, 1255137279, 627897855, 1255555071, 628241919,
    1256194047, 628864511, 1256849407, 629257727, 1257242623, 629519871, 1257766911, 629782015, 1258422271,
    630306303, 1264320511, 636155391, 1264943103, 636583423, 1264992255, 636599807, 1265025023, 636616191,
    1266286591, 637861375, 1266438143, 637865471, 1275853823, 647104767, 1277165567, 648349951, 1278197759,
    648530175, 1278541823, 648595711, 1285685247, 655509759, 1289682943, 659376383, 1294958591, 664602879,
    1296268799, 665880319, 1297088511, 666633983, 1297743871, 667224575, 1310490623, 679954943, 1311637503,
    681085439, 1314586623, 683903487, 1315438591, 684689919, 1317044223, 686230015, 1317535743, 686688767,
    1333493759, 702629887, 1333592063, 702695423, 1334378495, 703449087]"

definition ranges_13 :: "int list" where
  "ranges_13 = [
    1359151103, 728188927, 1359298559, 728319999, 1360658431, 729663487, 1362493439, 731490303, 1363410943,
    732276735, 1363935231, 732538879, 1364656127, 732997631, 1370062847, 738338815, 1371668479, 739911679,
    1372618751, 740796415, 1382187007, 750331903, 1384251391, 752379903, 1384382463, 752478207, 1384742911,
    752805887, 1385955327, 754001919, 1386545151, 754460671, 1387333631, 755183615, 1387462655, 755312383,
    1390346239, 758132735, 1400111103, 767832063, 1401567231, 769124351, 1402322943, 769845247, 1406402559,
    773908479, 1407595519, 775035903, 1408630783, 776018943, 1424816895, 792172287, 1425833983, 793165055,
    1426751487, 794066175, 1426866175, 794148095, 1427726847, 794992383, 1435369471, 802598655, 1435423743,
    802610943, 1438859263, 806002431, 1439072255, 806182655, 1440088063, 807182079, 1444937727, 811900671,
    1445199871, 812031743, 1445416959, 812117759, 1446117375, 812773119, 1450639359, 817229567, 1457913855,
    824438527, 1461649407, 827977471, 1464664063, 829878015, 1466073087, 831221503, 1466138623, 831254271,
    1466564607, 831647487, 1474396159, 839409407, 1475493887, 840474367]"

definition ranges_14 :: "int list" where
  "ranges_14 = [
    1475788799, 840752895, 1482883071, 847830783, 1489305599, 854187775, 1489371135, 854220543, 1489502207,
    854286079, 1490075647, 854826751, 1490878463, 855613183, 1490919423, 855637759, 1496842239, 861535999,
    1500127231, 864296703, 1502609407, 866762495, 1505755135, 869891839, 1506689023, 870563583, 1508507647,
    872365823, 1516292095, 880133887, 1518010367, 881706751, 1519583231, 883148543, 1520205823, 883705599,
    1533771775, 897238783, 1533851647, 897284863, 1534656511, 898063103, 1535508479, 898849535, 1539802111,
    903077631, 1539832319, 903107583, 1540332543, 903607551, 1540381951, 903656447, 1541375743, 904649983,
    1541443583, 904717567, 1541622783, 904896255, 1541740031, 905013247, 1541889023, 905161983, 1542361343,
    905633791, 1546928127, 910200319, 1551456255, 914712063, 1551536127, 914745855, 1551583231, 914776063,
    1554219007, 917379071, 1555169279, 918099967, 1555453183, 918252799, 1556881407, 919547135, 1558052863,
    920595711, 1572077567, 934554879, 1578565631, 941026559, 1582071807, 944467199, 1585577983, 947956991,
    1589116927, 951430399, 1589153791, 951431423, 1589575679, 951824639]"

definition ranges_15 :: "int list" where
  "ranges_15 = [
    1592516607, 954732799, 1593131007, 955306239, 1593409535, 955568383, 1599406079, 961532159, 1599569919,
    961679615, 1600496639, 962589951, 1602912255, 964987647, 1605861375, 967920383, 1607991295, 970026751,
    1610612735, 972517119, 1610874879, 972713727, 1611104255, 972803839, 1611661311, 973337855, 1611687935,
    973338879, 1611714559, 973347071, 1611747327, 973348095, 1611770367, 973348607, 1612185599, 973745919,
    1618804735, 980226559, 1618931711, 980320767, 1632239615, 993591807, 1634464255, 995750911, 1648361471,
    1009382399, 1648754687, 1009513471, 1649410047, 1010037759, 1652621311, 1012200447, 1666023423, 1025119231,
    1666088959, 1025135615, 1666400255, 1025168383, 1666547711, 1025201151, 1673560063, 1032066047, 1674575871,
    1033046015, 1679032319, 1036453887, 1681915903, 1038550527, 1694760959, 1047201279, 1696595967, 1048724991,
    1696923647, 1048790527, 1697251327, 1049052671, 1699479551, 1051149823, 1702363135, 1053902335, 1703116799,
    1054393855, 1707081727, 1058063871, 1707591679, 1058246143, 1708130303, 1058639359, 1710030847, 1059491327,
    1713700863, 1062964735, 1717043199, 1066233343, 1719712767, 1068378623]"

definition ranges_16 :: "int list" where
  "ranges_16 = [
    1719877631, 1068526079, 1719992319, 1068624383, 1723195391, 1071761919, 1723858943, 1072351743, 1728053247,
    1073138175, 1730149375, 1075167487, 1737639167, 1082446335, 1741233151, 1083042303, 1741264895, 1083049471,
    1744526079, 1086270719, 1745879039, 1087623423, 1747320831, 1088016639, 1749024767, 1089065215, 1749053439,
    1089073407, 1749090303, 1089093887, 1749172223, 1089159423, 1749204991, 1089175807, 1749278719, 1089224959,
    1749327871, 1089257727, 1749364735, 1089270015, 1749430271, 1089298687, 1749466111, 1089302783, 1749520383,
    1089303295, 1749618687, 1089384191, 1749636095, 1089385215, 1749659647, 1089388799, 1749680127, 1089392895,
    1749787647, 1089431295, 1749877247, 1089469695, 1749932031, 1089503487, 1749983231, 1089524479, 1750008063,
    1089532927, 1750069247, 1089543679, 1750163455, 1089547775, 1750204415, 1089548799, 1750349311, 1089558527,
    1750373887, 1089559039, 1750441983, 1089575423, 1750492159, 1089576447, 1750523903, 1089584639, 1750615551,
    1089602559, 1750638591, 1089603583, 1750663167, 1089611775, 1750716415, 1089623039, 1750735871, 1089624063,
    1750880255, 1089636351, 1750917119, 1089654271, 1750966271, 1089673727]"

definition ranges_17 :: "int list" where
  "ranges_17 = [
    1750995967, 1089674239, 1751061503, 1089719039, 1751101439, 1089739263, 1751165183, 1089761023, 1751234559,
    1089795839, 1751277567, 1089804031, 1751306239, 1089807103, 1751388159, 1089872639, 1751474687, 1089893631,
    1751659519, 1089911551, 1751719935, 1089932031, 1751778303, 1089941247, 1751830527, 1089971455, 1751886847,
    1090001663, 1751987199, 1090041599, 1752084479, 1090087935, 1752113151, 1090096127, 1752248319, 1090149375,
    1752281087, 1090161151, 1752299519, 1090163199, 1752391679, 1090236415, 1752420351, 1090248191, 1752444927,
    1090255359, 1752557567, 1090265599, 1752654847, 1090329599, 1752675839, 1090331135, 1752739839, 1090342911,
    1752778239, 1090364927, 1752862719, 1090381311, 1752947711, 1090446847, 1753078271, 1090480127, 1753133055,
    1090484223, 1753341951, 1090607103, 1754365951, 1091229695, 1754398719, 1091244031, 1754660863, 1091375103,
    1754923007, 1091506175, 1755578367, 1092030463, 1755873279, 1092194303, 1755971583, 1092259839, 1757626367,
    1093843967, 1757675519, 1093876735, 1758035967, 1093975039, 1758461951, 1094237183, 1760116735, 1095367679,
    1760296959, 1095499775, 1760395263, 1095532543, 1760443903, 1095564799]"

definition ranges_18 :: "int list" where
  "ranges_18 = [
    1760526335, 1095630335, 1761083391, 1096154623, 1761165311, 1096171007, 1761345535, 1096318463, 1768996863,
    1103838719, 1777336319, 1111178751, 1777532927, 1111244287, 1778404863, 1111985151, 1779105791, 1112640511,
    1779695615, 1112902655, 1781792767, 1114213375, 1782513663, 1114672127, 1784479743, 1116441599, 1784741887,
    1116507135, 1793523711, 1125026815, 1796472831, 1127386111, 1796931583, 1127451647, 1798701055, 1127648255,
    1804861439, 1133415423, 1805254655, 1133677567, 1805844479, 1134201855, 1806172159, 1134332927, 1806696447,
    1134660607, 1806864383, 1134697471, 1806958591, 1134763007, 1806997503, 1134769151, 1807155199, 1134908415,
    1807351807, 1135039487, 1807564799, 1135121407, 1810628607, 1138168831, 1811054079, 1138394623, 1811611647,
    1138460159, 1816036351, 1142556671, 1818361855, 1144864767, 1818886143, 1145126911, 1820327935, 1146306559,
    1821622271, 1146339327, 1821999103, 1146372095, 1822605311, 1146552319, 1822623231, 1146553855, 1822796543,
    1146695935, 1822916607, 1146761471, 1822982143, 1146810623, 1823129599, 1146925311, 1823154175, 1146933503,
    1823156735, 1146935807, 1823159295, 1146938111, 1823161855, 1146940415]"

definition ranges_19 :: "int list" where
  "ranges_19 = [
    1823539199, 1147317503, 1823576063, 1147319551, 1823703039, 1147429119, 1824129023, 1147822335, 1826947071,
    1150509311, 1834352639, 1157882111, 1836810239, 1160208639, 1837088767, 1160470783, 1839955967, 1163321599,
    1841168383, 1164501247, 1843658751, 1166926079, 1844707327, 1167958271, 1849688063, 1172873471, 1850408959,
    1173463295, 1851654143, 1174610175, 1866465279, 1189290239, 1866601727, 1189353215, 1867513855, 1190196991,
    1869742079, 1192294143, 1873510399, 1195800319, 1874460671, 1196717823, 1875902463, 1198028543, 1876769791,
    1198633727, 1877213183, 1199059711, 1883865087, 1205449471, 1885995007, 1207415551, 1887174655, 1208398591,
    1888354303, 1209316095, 1898971135, 1219801855, 1899364351, 1219928831, 1908848639, 1229282047, 1913164799,
    1233579775, 1916174335, 1236102911, 1920450559, 1240280831, 1921187839, 1241001727, 1926234111, 1245851391,
    1930952703, 1250045695, 1936064511, 1254764287, 1937309695, 1255747327, 1938882559, 1257123583, 1939472383,
    1257647871, 1940914175, 1258696447, 1941438463, 1259089663, 1945272319, 1262792447, 1945763839, 1262923519,
    1947009023, 1264021247, 1949827071, 1266773759, 1950089215, 1266904831]"

definition ranges_20 :: "int list" where
  "ranges_20 = [
    1951531007, 1268150015, 1951727615, 1268215551, 1955381247, 1271803647, 1955987455, 1272000255, 1956380671,
    1272196863, 1956855807, 1272344319, 1957232639, 1272475391, 1957429247, 1272540927, 1958150143, 1273130751,
    1958871039, 1273261823, 1959034879, 1273291007, 1959395327, 1273618687, 1960213503, 1274273023, 1962147839,
    1276173567, 1962622975, 1276517631, 1966276607, 1280154879, 1967915007, 1281727743, 1981284351, 1294966015,
    1981685503, 1295236095, 1983905791, 1297333247, 1985544191, 1298775039, 1987985407, 1301150719, 1988755455,
    1301904383, 1989279743, 1302313983, 1991376895, 1304280063, 1992163327, 1305000959, 1992379903, 1305151999,
    1992949759, 1305721343, 1993773055, 1306348031, 1994391551, 1306919423, 1994693631, 1306920447, 1997029375,
    1309099519, 1997930495, 1309857279, 1998290943, 1310086655, 1998389247, 1310152191, 1999290367, 1310987775,
    1999437823, 1311067647, 2001794047, 1313358335, 2014838783, 1326331391, 2015231999, 1326462463, 2015340543,
    1326488575, 2016739327, 1327864831, 2017591295, 1328520191, 2018246655, 1329044479, 2019426303, 1329961983,
    2021656575, 1329964031, 2030305279, 1338418175, 2032500735, 1340482559]"

definition ranges_21 :: "int list" where
  "ranges_21 = [
    2033188863, 1340744703, 2033385471, 1340810239, 2036072447, 1343425279, 2042626047, 1349716735, 2046296063,
    1352862463, 2050162687, 1356335871, 2053439487, 1359547135, 2056314879, 1362356991, 2056830975, 1362855167,
    2058944511, 1364952319, 2060132351, 1365943551, 2060189695, 1365972735, 2063122431, 1368643327, 2063400959,
    1368905471, 2065678335, 1371117311, 2067267583, 1371641599, 2067529727, 1371772671, 2077097983, 1381144319,
    2079948799, 1383864063, 2081652735, 1385404159, 2081947647, 1385535231, 2084895743, 1388221183, 2091778047,
    1394905855, 2094792703, 1397789439, 2097151999, 1399886591, 2100854783, 1403327231, 2111307775, 1413762303,
    2122842111, 1424772351, 2123300863, 1424968959, 2124152831, 1425689855, 2124808191, 1426148607, 2125201407,
    1426410751, 2125987839, 1426935039, 2130509823, 1431325951, 2130706431, 1431391487, 2156134399, 1431653631,
    2156331007, 1431719167, 2156496639, 1431819263, 2156724223, 1431852031, 2157051903, 1431917567, 2157182975,
    1431983103, 2157314047, 1432048639, 2158362623, 1432114175, 2158690303, 1432179711, 2159149055, 1432245247,
    2159476735, 1432376319, 2159673343, 1432441855, 2160066559, 1432472575]"

definition ranges_22 :: "int list" where
  "ranges_22 = [
    2160721919, 1432538111, 2160918527, 1432603647, 2161901567, 1432669183, 2162028543, 1432681471, 2162228991,
    1432682495, 2162425855, 1432748031, 2162556927, 1432813567, 2162884607, 1432879103, 2163408895, 1433010175,
    2163671039, 1433141247, 2164326399, 1433206783, 2164588543, 1433272319, 2164916223, 1433337855, 2165506047,
    1433403391, 2165544959, 1433403903, 2166489087, 1433467903, 2166972415, 1433879551, 2167068671, 1433958399,
    2167341055, 1434155007, 2167537663, 1434220543, 2168061951, 1434351615, 2168258559, 1434417151, 2168651775,
    1434482687, 2169372671, 1434548223, 2169765887, 1434613759, 2169962495, 1434679295, 2171666431, 1434744831,
    2172321791, 1434875903, 2172583935, 1434941439, 2173173759, 1435072511, 2173370367, 1435138047, 2173436415,
    1435138559, 2173632511, 1435204095, 2173782015, 1435206143, 2176057343, 1435337215, 2176442367, 1435656703,
    2176647167, 1435787775, 2176974847, 1435918847, 2177171455, 1435984383, 2177761279, 1436049919, 2177957887,
    1436115455, 2178220031, 1436180991, 2179268607, 1436770815, 2179563519, 1436995839, 2179596287, 1437012223,
    2180710399, 1437143295, 2180904959, 1437203711, 2181103615, 1437269247]"

definition ranges_23 :: "int list" where
  "ranges_23 = [
    2182021119, 1437400319, 2182348799, 1437465855, 2182742015, 1437599999, 2182877439, 1437604095, 2183266303,
    1437735167, 2183462911, 1437800703, 2184044543, 1438120191, 2184380415, 1438134527, 2184708095, 1438200063,
    2184839167, 1438265599, 2185166847, 1438331135, 2185494527, 1438396671, 2186151935, 1438529791, 2186412031,
    1438595327, 2186543103, 1438660863, 2187137023, 1438664959, 2187263999, 1438791423, 2187333375, 1438795263,
    2187657215, 1438926335, 2188115967, 1439122943, 2188855807, 1439272959, 2189230079, 1439338495, 2189623295,
    1439404031, 2190147583, 1439412223, 2191065087, 1439477759, 2191143935, 1439491071, 2191327231, 1439556607,
    2191720447, 1439622143, 2191851519, 1439687679, 2192891903, 1439745023, 2193244159, 1439826943, 2193358847,
    1439925247, 2193489919, 1439990783, 2193752063, 1440052223, 2194341887, 1440314367, 2194472959, 1440379903,
    2194735103, 1440445439, 2194866175, 1440510975, 2195128319, 1440574463, 2195587071, 1440639999, 2196045823,
    1440771071, 2196094975, 1440787455, 2196176895, 1440852991, 2196570111, 1440918527, 2196897791, 1441049599,
    2197159935, 1441180671, 2197487615, 1441377279, 2197946367, 1441573887]"

definition ranges_24 :: "int list" where
  "ranges_24 = [
    2202599423, 1441639423, 2203779071, 1441770495, 2203975679, 1441836031, 2204631039, 1442163711, 2204827647,
    1442229247, 2205024255, 1442360319, 2205548543, 1442556927, 2205679615, 1442622463, 2206130175, 1442802431,
    2206334975, 1442867967, 2206431487, 1442890751, 2207711231, 1443218431, 2207907839, 1443283967, 2208432127,
    1443415039, 2208721407, 1443637759, 2208956415, 1443703295, 2209546239, 1443849727, 2210004991, 1443948031,
    2210105343, 1443949055, 2210135039, 1443956223, 2210267135, 1444021759, 2210398207, 1444087295, 2211053567,
    1444480511, 2211184639, 1444546047, 2211446783, 1444611583, 2211839999, 1444677119, 2212171775, 1444680959,
    2212364287, 1444745471, 2212430847, 1444746495, 2212690943, 1444811007, 2212823039, 1444876543, 2213087487,
    1444935679, 2213412863, 1445001215, 2213806079, 1445328895, 2214133759, 1445394431, 2214592511, 1445457919,
    2224287743, 1445584895, 2224488447, 1445650431, 2224765951, 1445796095, 2224947199, 1445861631, 2225733631,
    1446320383, 2225864703, 1446385919, 2226126847, 1446516991, 2226388991, 1446582527, 2226782207, 1446713599,
    2227175423, 1446975743, 2227568639, 1447106815, 2227765247, 1447172351]"

definition ranges_25 :: "int list" where
  "ranges_25 = [
    2227961855, 1447237887, 2228682751, 1447303423, 2228879359, 1447368959, 2228980479, 1447369727, 2229207039,
    1447500799, 2229341439, 1447503359, 2229500415, 1447503871, 2229600255, 1447569407, 2230190079, 1447630847,
    2230644991, 1447676159, 2230976511, 1447741695, 2231107583, 1447807231, 2231369727, 1447938303, 2231681023,
    1447954687, 2232614911, 1448020223, 2233794559, 1448085759, 2234122239, 1448216831, 2235903999, 1448229119,
    2235944959, 1448233215, 2237202431, 1448298751, 2237333503, 1448364287, 2237923327, 1448429823, 2238775295,
    1448954111, 2239758335, 1449412863, 2240086015, 1449608447, 2240937983, 1450198271, 2241200127, 1450329343,
    2241593343, 1450591487, 2241855487, 1450722559, 2242183167, 1450788095, 2242576383, 1451050239, 2242904063,
    1451246847, 2243403775, 1451263231, 2243624959, 1451328767, 2244149247, 1451525375, 2245132287, 1452180735,
    2245722111, 1452442879, 2246006783, 1452596479, 2246221823, 1452648191, 2246639615, 1452713727, 2247294975,
    1453172479, 2248204287, 1453950719, 2248409087, 1454016255, 2248605695, 1454081791, 2248802303, 1454147327,
    2249523199, 1454409471, 2249850879, 1454524159, 2250113023, 1454589695]"

definition ranges_26 :: "int list" where
  "ranges_26 = [
    2250309631, 1454655231, 2250506239, 1454720767, 2250967039, 1455116031, 2251292671, 1455181567, 2251423743,
    1455247103, 2251751423, 1455312639, 2251882495, 1455378175, 2252459007, 1455627007, 2252996607, 1455692543,
    2253127679, 1455758079, 2253389823, 1455823615, 2253848575, 1455889151, 2254110719, 1455954687, 2254700543,
    1456151295, 2254831615, 1456216831, 2255093759, 1456282367, 2255486975, 1456347903, 2255618047, 1456413439,
    2256207871, 1456421631, 2256560127, 1456435967, 2256994303, 1456626943, 2257256447, 1456692479, 2257453055,
    1456823551, 2257780735, 1457002751, 2258436095, 1457068287, 2258632703, 1457133823, 2258894847, 1457264895,
    2259419135, 1457309951, 2260008959, 1457506559, 2260533247, 1457572095, 2260728319, 1457586943, 2261057535,
    1457652479, 2261204991, 1457660671, 2261577727, 1457853183, 2262040575, 1457984255, 2262429695, 1458176767,
    2262827007, 1458307839, 2263154687, 1458438911, 2263860223, 1458685695, 2264202751, 1458876671, 2264530943,
    1459073279, 2264989695, 1459447039, 2265906943, 1459905535, 2266103807, 1459971071, 2266497023, 1460298751,
    2266955775, 1460626431, 2267283455, 1460691967, 2267545599, 1460757503]"

definition ranges_27 :: "int list" where
  "ranges_27 = [
    2267679999, 1460760831, 2268659711, 1460891903, 2268921855, 1460957439, 2269183999, 1461022975, 2269839359,
    1461088511, 2270494719, 1461154047, 2270630911, 1461158655, 2270963967, 1461169151, 2271678975, 1461172223,
    2271870975, 1461237759, 2272698367, 1461245951, 2273181695, 1461508095, 2274689023, 1461573631, 2276065279,
    1461639167, 2276786175, 1461704703, 2276950015, 1461712895, 2277900287, 1461843967, 2278817535, 1462302463,
    2279145471, 1462499071, 2280562687, 1462507263, 2280980479, 1462523647, 2281011967, 1462524159, 2281046015,
    1462540543, 2281701375, 1462544639, 2281897983, 1462675711, 2282237951, 1462687999, 2283175935, 1462720767,
    2285895679, 1465342207, 2291204095, 1465473279, 2291392511, 1465596159, 2291924991, 1465792767, 2292121599,
    1465862143, 2292514815, 1466124287, 2292645887, 1466189823, 2292842495, 1466255359, 2293170175, 1466386431,
    2293563391, 1466517503, 2293694463, 1466583039, 2293811199, 1466634239, 2295136255, 1466699775, 2296356863,
    1466740735, 2296512511, 1466806271, 2296774655, 1466920959, 2297036799, 1467052031, 2297357055, 1467306751,
    2297724927, 1467339519, 2297823231, 1467405055, 2298478591, 1467929343]"

definition ranges_28 :: "int list" where
  "ranges_28 = [
    2299920383, 1468388095, 2300312575, 1468714751, 2300641023, 1468779775, 2301296639, 1469238527, 2301624319,
    1469304063, 2301886463, 1469369599, 2302410751, 1469500671, 2302869503, 1469745407, 2303194879, 1469911039,
    2303459327, 1469976575, 2303721471, 1470107647, 2303954175, 1470140927, 2304471807, 1470170367, 2304638975,
    1470235903, 2304901119, 1470366975, 2305294335, 1470606847, 2305556479, 1470655999, 2305687551, 1470721535,
    2306015743, 1470722047, 2306342911, 1470852863, 2306670591, 1470918399, 2306998271, 1470983935, 2307325695,
    1471180287, 2307653631, 1471245823, 2307784703, 1471311359, 2307981311, 1471442431, 2308177919, 1471507967,
    2308571135, 1471581695, 2308898815, 1471647231, 2308997119, 1471679999, 2309226495, 1471747327, 2309804031,
    1471997183, 2309947391, 1472062719, 2310012927, 1472095487, 2310311423, 1472095999, 2310496255, 1472100095,
    2310531583, 1472100607, 2310733823, 1472168191, 2310864895, 1472233727, 2311127039, 1472307711, 2311324159,
    1472308223, 2311847935, 1472570367, 2312110079, 1472635903, 2312634367, 1472771327, 2312765439, 1472836863,
    2313020415, 1472960511, 2313486335, 1473031167, 2313617407, 1473096703]"

definition ranges_29 :: "int list" where
  "ranges_29 = [
    2314207231, 1473358847, 2314993663, 1473424383, 2315321343, 1473554687, 2315714559, 1473685759, 2315811071,
    1473710591, 2316107775, 1473841663, 2316304383, 1473972735, 2316670207, 1474141951, 2316894207, 1474207487,
    2317680639, 1474533119, 2317823999, 1474543615, 2318139391, 1474674687, 2318286847, 1474677759, 2319187199,
    1474770175, 2319384575, 1474835711, 2319712255, 1475097855, 2320039935, 1475352319, 2320236543, 1475417855,
    2320629759, 1475483391, 2320891903, 1475614463, 2321154047, 1475745535, 2321481727, 1475811071, 2321809407,
    1476007679, 2321940479, 1476073215, 2322375679, 1476442879, 2322591999, 1476500479, 2323054591, 1476631551,
    2323447807, 1476959231, 2323726335, 1477092351, 2323841023, 1477157887, 2324087039, 1477338367, 2327838719,
    1477797119, 2328076287, 1477801215, 2328367103, 1477853439, 2329214207, 1478508031, 2330394623, 1479556607,
    2330591231, 1479622143, 2330668543, 1479624703, 2330918911, 1479690239, 2331443199, 1479952383, 2331512831,
    1479956479, 2332426239, 1480480767, 2332687359, 1480676351, 2332884991, 1480741631, 2333081599, 1480807167,
    2333999103, 1481245439, 2335244287, 1481474047, 2335440895, 1481539583]"

definition ranges_30 :: "int list" where
  "ranges_30 = [
    2335705343, 1481738495, 2335899647, 1481804031, 2336024575, 1481861375, 2336072191, 1481885439, 2336620543,
    1482096383, 2336948223, 1482358527, 2337079295, 1482422015, 2337275903, 1482487551, 2337472511, 1482553087,
    2337669119, 1482616575, 2338127871, 1482682111, 2338521087, 1482878719, 2338717695, 1483009791, 2340159487,
    1484319999, 2340356095, 1484451071, 2340487167, 1484516607, 2340683263, 1484647167, 2341139199, 1484971519,
    2341666815, 1485299199, 2342060031, 1485626879, 2342536191, 1485840895, 2342846463, 1485971967, 2343108607,
    1486103039, 2343433727, 1486362623, 2343731199, 1486591999, 2343931647, 1486694143, 2344550399, 1486825215,
    2344591359, 1486827263, 2344878079, 1487089407, 2345074687, 1487220479, 2346513407, 1488593663, 2346713087,
    1488659199, 2347106303, 1488921343, 2348875775, 1489052415, 2350023167, 1489061119, 2351955967, 1489126655,
    2353790975, 1489192191, 2354249727, 1489388799, 2354511871, 1489454335, 2354774015, 1489585407, 2355098623,
    1489713407, 2355560447, 1489975551, 2355895551, 1489982975, 2358312959, 1490048511, 2358509567, 1490114047,
    2358771711, 1490310655, 2359156735, 1490359807, 2359558143, 1490490879]"

definition ranges_31 :: "int list" where
  "ranges_31 = [
    2359885823, 1490753023, 2360279039, 1491015167, 2360414975, 1491085567, 2361065471, 1491151103, 2361196543,
    1491216639, 2361311231, 1491265791, 2362507263, 1491462399, 2362605567, 1491495167, 2362806271, 1491595007,
    2363555839, 1491857151, 2363752447, 1491922687, 2364080127, 1491988223, 2364211199, 1492053759, 2364407807,
    1492119295, 2364866559, 1492512511, 2364997631, 1492578047, 2365259775, 1492709119, 2365390847, 1492807423,
    2365784063, 1493069567, 2366046207, 1493135103, 2366173183, 1493196543, 2366439423, 1493325567, 2366767103,
    1493522175, 2367029247, 1493587711, 2367548671, 1493606399, 2367881215, 1493671935, 2367993343, 1493672447,
    2368143359, 1493737983, 2368274431, 1493803519, 2368864255, 1493869055, 2369978367, 1493934591, 2370699263,
    1494000127, 2370961407, 1494065663, 2371223551, 1494196735, 2371420159, 1494236671, 2371682303, 1494433279,
    2371944447, 1494498815, 2372075519, 1494561279, 2372222975, 1494643199, 2372272127, 1494674943, 2372534271,
    1494806015, 2372993023, 1494937087, 2373038079, 1494949375, 2373451775, 1495075327, 2373711103, 1495174911,
    2374206463, 1495536383, 2374696959, 1495864063, 2375012351, 1495982847]"

definition ranges_32 :: "int list" where
  "ranges_32 = [
    2375110655, 1496003327, 2376084735, 1496727551, 2376269823, 1496793087, 2376368127, 1496803327, 2377252863,
    1497524223, 2377908223, 1497589759, 2378039295, 1497655295, 2378505727, 1498056191, 2378760191, 1498187263,
    2379284479, 1498646015, 2380201983, 1498777087, 2380595199, 1498973695, 2380857343, 1499039231, 2381185023,
    1499104767, 2381316095, 1499170303, 2381512447, 1499233791, 2381905919, 1499430399, 2382346239, 1499477503,
    2382430207, 1499543039, 2382667775, 1499575807, 2382692351, 1499583999, 2383124735, 1499754239, 2383282175,
    1499885311, 2383419391, 1499956991, 2384789503, 1501202175, 2385281023, 1501513471, 2385510399, 1501644543,
    2385725439, 1501645055, 2385825279, 1501714175, 2385968895, 1501774847, 2386165759, 1501905919, 2386427903,
    1502102527, 2386690047, 1502233599, 2387020543, 1502498559, 2387202559, 1502548223, 2387345407, 1502613759,
    2387476479, 1502679295, 2387598335, 1502735615, 2387998719, 1502995711, 2388262911, 1503061247, 2388369407,
    1503100159, 2388590591, 1503165695, 2388983807, 1503296767, 2389508095, 1503558911, 2390425599, 1504279807,
    2391015423, 1504607487, 2391945727, 1505472255, 2392195071, 1505685247]"

definition ranges_33 :: "int list" where
  "ranges_33 = [
    2392579071, 1505872639, 2393505791, 1506659071, 2394488831, 1507248895, 2394882047, 1507314431, 2394951167,
    1507317247, 2395672575, 1507845631, 2395863551, 1507907071, 2396389375, 1507972607, 2396913663, 1508356607,
    2397136895, 1508383231, 2397438975, 1508449791, 2397710335, 1508492799, 2398064639, 1508595199, 2398355455,
    1508857343, 2398552063, 1508988415, 2399207423, 1509250559, 2399685119, 1509251071, 2399707135, 1509255167,
    2400239103, 1509282815, 2401036799, 1509436927, 2401064959, 1509447679, 2401180671, 1509448703, 2401380863,
    1509449215, 2401558527, 1509453311, 2401682431, 1509453823, 2401839103, 1509462015, 2402353151, 1509593087,
    2402549759, 1509658623, 2403074047, 1509789695, 2403203583, 1509853695, 2403598335, 1509984767, 2405105663,
    1510050303, 2405203967, 1510074879, 2405564415, 1510361599, 2406023167, 1510623743, 2406285311, 1510689279,
    2406809087, 1511016447, 2406940671, 1511081983, 2407071743, 1511163391, 2407202815, 1511228927, 2407596031,
    1511491071, 2407792639, 1511556607, 2408185855, 1511622143, 2410086399, 1512146431, 2410348543, 1512211967,
    2411003903, 1512655359, 2411200511, 1512720895, 2411753471, 1513139455]"

definition ranges_34 :: "int list" where
  "ranges_34 = [
    2412052479, 1513213183, 2412249087, 1513344255, 2412445695, 1513409791, 2412904447, 1513540863, 2413625343,
    1513868543, 2413758975, 1513869567, 2413820415, 1513914367, 2414149631, 1513979903, 2414346239, 1514045439,
    2414804991, 1514176511, 2414936063, 1514242047, 2415263743, 1514356479, 2415722495, 1514422015, 2416115711,
    1514684159, 2416306175, 1514809087, 2416568831, 1515000063, 2416771071, 1515065599, 2416967679, 1515131135,
    2417360895, 1515196415, 2417885183, 1515393023, 2418212863, 1515458559, 2418343935, 1515523839, 2418868223,
    1515720447, 2419130367, 1515890431, 2419720191, 1516283647, 2419903487, 1516335871, 2420178943, 1516466943,
    2420307199, 1516504319, 2420766207, 1516698367, 2421081087, 1516732159, 2421686271, 1517059839, 2421948415,
    1517108991, 2422154239, 1517183743, 2422407167, 1517314815, 2423914495, 1517380351, 2424045567, 1517445887,
    2424307711, 1517511423, 2425159679, 1518232319, 2426521855, 1518349311, 2426667007, 1518414847, 2426863615,
    1518480383, 2426994687, 1518545919, 2427256831, 1518610431, 2427552767, 1518709759, 2427846655, 1518955519,
    2428174335, 1519086591, 2428699135, 1519540735, 2429026303, 1519667199]"

definition ranges_35 :: "int list" where
  "ranges_35 = [
    2429268991, 1519778815, 2429444095, 1519787007, 2429878271, 1520114687, 2431188991, 1520770047, 2431901695,
    1520826879, 2432336127, 1520854271, 2432696319, 1520919807, 2432827391, 1520952575, 2433023999, 1521018111,
    2433286143, 1521149183, 2433742847, 1521540351, 2433941503, 1521605887, 2434465791, 1521671423, 2434859007,
    1521809919, 2435108351, 1521993727, 2435579903, 1521995519, 2435776511, 1522126591, 2436038655, 1522192127,
    2436235263, 1522257663, 2436956159, 1522716415, 2437283839, 1522781951, 2437447679, 1522798335, 2437996543,
    1523035903, 2438136575, 1523036415, 2438463487, 1523167487, 2439905279, 1523233023, 2440560639, 1523298559,
    2441478143, 1523691775, 2441826047, 1523692287, 2447053311, 1523762431, 2448228351, 1524811007, 2448687103,
    1525049087, 2449604607, 1525901055, 2449852927, 1526083839, 2450309119, 1526198527, 2450718719, 1526264063,
    2451046399, 1526460671, 2452946943, 1526657279, 2453471231, 1526722815, 2453929983, 1526984959, 2454388735,
    1527247103, 2454716415, 1527312639, 2454861660, 1527392348, 2454913023, 1527443710, 2454978303, 1527491582,
    2455568383, 1527819262, 2456158207, 1528015870, 2456420351, 1528082174]"

definition ranges_36 :: "int list" where
  "ranges_36 = [
    2456748031, 1528278782, 2456944639, 1528400382, 2457141247, 1528531454, 2457534463, 1528793598, 2458002687,
    1529196286, 2458255359, 1529261822, 2458353663, 1529294590, 2458517503, 1529360126, 2458845183, 1529622270,
    2459043839, 1529689854, 2459217919, 1529693950, 2459500031, 1529706750, 2460152831, 1530031358, 2460286975,
    1530096894, 2460549119, 1530162430, 2460942335, 1530483454, 2461163519, 1530505726, 2461630463, 1530839550,
    2461663231, 1530855934, 2461859839, 1530921470, 2462646271, 1531511294, 2462842879, 1531576830, 2463039487,
    1531642366, 2464219135, 1532658174, 2464481279, 1532723710, 2464743423, 1532920318, 2464991999, 1533103358,
    2465348863, 1533184510, 2465464319, 1533250046, 2465725183, 1533379838, 2466512895, 1534100734, 2466709503,
    1534166270, 2467233791, 1534493950, 2467691775, 1534556670, 2468347903, 1534818814, 2468544511, 1534884350,
    2469003263, 1534949886, 2469265407, 1535080958, 2469363711, 1535083006, 2469593087, 1535148542, 2469789695,
    1535214078, 2470422527, 1535453438, 2470576127, 1535518974, 2470838271, 1535715582, 2471100415, 1535846654,
    2471174143, 1535854846, 2471493631, 1536153854, 2471879935, 1536474366]"

definition ranges_37 :: "int list" where
  "ranges_37 = [
    2472411135, 1536744702, 2472738815, 1536810238, 2473197567, 1536875774, 2473590783, 1537137918, 2473779967,
    1537184766, 2474225407, 1537491710, 2474377215, 1537557246, 2474704895, 1537622782, 2474967039, 1537688318,
    2475294719, 1537819390, 2476277759, 1538212606, 2476474367, 1538278142, 2476804095, 1538476798, 2478245119,
    1538871294, 2478562559, 1539029246, 2479128831, 1539503614, 2480013311, 1540158974, 2480144383, 1540224510,
    2480340991, 1540290046, 2480734207, 1540355582, 2481061887, 1540421118, 2481848319, 1540683262, 2482632191,
    1540746238, 2482893823, 1540808702, 2483290111, 1541070846, 2483486719, 1541136382, 2483683327, 1541196798,
    2486405887, 1541232382, 2486566911, 1541297918, 2486960127, 1541560062, 2487615487, 1542018814, 2487746559,
    1542084350, 2487795711, 1542100222, 2488205311, 1542493438, 2488366335, 1542588926, 2488532991, 1542755326,
    2488684799, 1542773246, 2489309695, 1542773758, 2489909247, 1543039998, 2490409983, 1543474942, 2490630143,
    1543540478, 2491154431, 1543933694, 2491678719, 1544326910, 2492006399, 1544523518, 2492727295, 1544982270,
    2492923903, 1545047806, 2493120511, 1545113342, 2493306879, 1545139966]"

definition ranges_38 :: "int list" where
  "ranges_38 = [
    2493579263, 1545254654, 2493906943, 1545451262, 2494231807, 1545710590, 2494824447, 1546148606, 2495221759,
    1546412542, 2495413247, 1546477054, 2495844863, 1546645502, 2496266239, 1546907646, 2496524287, 1547100158,
    2496722687, 1547228926, 2496987135, 1547359998, 2497314815, 1547491070, 2497445887, 1547556606, 2497576959,
    1547622142, 2497773567, 1547753214, 2497822719, 1547755262, 2497970175, 1547820798, 2498166783, 1547951870,
    2498258431, 1547952382, 2498363391, 1548017918, 2498494463, 1548083454, 2499411967, 1548738814, 2500065279,
    1549260798, 2500395007, 1549522942, 2500788223, 1549850622, 2501443583, 1550440446, 2502492671, 1551358462,
    2503378943, 1551917566, 2503383039, 1551919614, 2503417087, 1551951614, 2503671807, 1552082686, 2503884799,
    1552099070, 2504261631, 1552455422, 2504589311, 1552652030, 2505032447, 1552833022, 2506424319, 1553881598,
    2506522623, 1553954302, 2506751999, 1554085374, 2507528703, 1554796542, 2507826175, 1554953214, 2508259327,
    1555149822, 2508410111, 1555156990, 2508718079, 1555352574, 2508914687, 1555418110, 2509045759, 1555483646,
    2509635583, 1555745790, 2509963263, 1555811326, 2510222335, 1555854078]"

definition ranges_39 :: "int list" where
  "ranges_39 = [
    2510815231, 1555919614, 2511142911, 1555985150, 2511464447, 1556081406, 2511980799, 1556274174, 2512242687,
    1556284414, 2512977919, 1556662782, 2513240063, 1556728318, 2513371135, 1556793854, 2514026495, 1557318142,
    2514223103, 1557449214, 2514354175, 1557514750, 2515861503, 1558956542, 2516254719, 1559173630, 2516582399,
    1559304702, 2516975615, 1559476734, 2517368831, 1559673342, 2517513727, 1559673854, 2517893119, 1559739390,
    2518155263, 1559804926, 2518417407, 1559870462, 2518679551, 1560001534, 2518941695, 1560067070, 2519334911,
    1560329214, 2519858687, 1560525310, 2520055807, 1560590846, 2520383487, 1560656382, 2520776703, 1560918526,
    2521038847, 1561049598, 2521300991, 1561180670, 2522349567, 1561246206, 2522611711, 1561377278, 2522874111,
    1561441022, 2523267071, 1561506558, 2523660287, 1561768702, 2523791359, 1561834238, 2524315647, 1561961214,
    2524774399, 1562026750, 2524970751, 1562034430, 2525142015, 1562139902, 2525298687, 1562205438, 2525757439,
    1562336510, 2526019583, 1562402046, 2526347263, 1562533118, 2526479359, 1562599678, 2526806015, 1562730750,
    2527724287, 1562793982, 2527985663, 1562859518, 2528542719, 1562957822]"

definition ranges_40 :: "int list" where
  "ranges_40 = [
    2528739327, 1563121662, 2528780287, 1563145982, 2529034239, 1563375358, 2529165311, 1563440894, 2529427199,
    1563504126, 2529624063, 1563569662, 2529823231, 1563572222, 2530213887, 1563637758, 2530344959, 1563703294,
    2530738175, 1563834366, 2531393535, 1564030974, 2531590143, 1564162046, 2531852287, 1564227582, 2532114431,
    1564293118, 2532507647, 1564357630, 2532769791, 1564423166, 2532966399, 1564488702, 2533033471, 1564490238,
    2538602495, 1569798654, 2539716607, 1570847230, 2539913215, 1570912766, 2540109823, 1570978302, 2540306431,
    1571043838, 2540364799, 1571085822, 2540634111, 1571151358, 2541158399, 1571528190, 2541551615, 1571692030,
    2542600191, 1572405502, 2542731263, 1572438270, 2543124479, 1572765950, 2543648767, 1573159166, 2543910911,
    1573290238, 2544230399, 1573478142, 2544566271, 1573605118, 2545025023, 1573932798, 2545364991, 1574076158,
    2545824255, 1574285566, 2546991103, 1575401726, 2547187711, 1575532798, 2547527679, 1575741694, 2550202367,
    1577904382, 2551579135, 1577904894, 2551864319, 1577905918, 2552299519, 1577955070, 2553085951, 1578020606,
    2553479167, 1578053374, 2554068991, 1578315518, 2554429439, 1578610430]"

definition ranges_41 :: "int list" where
  "ranges_41 = [
    2554527743, 1578675966, 2555118335, 1578938878, 2555903999, 1579200766, 2556297215, 1579528446, 2557018111,
    1579921662, 2557542399, 1580380414, 2557739007, 1580511486, 2558132223, 1580577022, 2558199807, 1580578558,
    2559049727, 1580644094, 2559246335, 1580708862, 2559697151, 1580897534, 2559967231, 1580963070, 2560106495,
    1580967422, 2560671743, 1581278718, 2564296703, 1584690686, 2565013503, 1584756222, 2566979583, 1586525694,
    2567176191, 1586656766, 2567437567, 1586784510, 2567831551, 1586915582, 2568290303, 1586981118, 2569535487,
    1587570942, 2569994751, 1587768830, 2571236351, 1587878654, 2572746751, 1587944190, 2573205503, 1588200190,
    2573273087, 1588202238, 2573318143, 1588220414, 2573598719, 1588473342, 2573860863, 1588538878, 2574024703,
    1588571646, 2574450687, 1588899326, 2584231935, 1598483966, 2585985023, 1600187902, 2589245439, 1603382782,
    2589491199, 1603612158, 2591555583, 1605660158, 2596487167, 1610575358, 2596683775, 1610739198, 2596732927,
    1610771966, 2596880383, 1610788350, 2598092799, 1611984382, 2600796159, 1614671358, 2601287935, 1614835454,
    2601451519, 1614966526, 2601829887, 1614968062, 2602631167, 1615033598]"

definition ranges_42 :: "int list" where
  "ranges_42 = [
    2602966271, 1615034366, 2603070975, 1615071742, 2603286527, 1615137278, 2603493119, 1615212798, 2603522047,
    1615218686, 2603810815, 1615349758, 2604007423, 1615415294, 2604269567, 1615611902, 2604466175, 1615678206,
    2604793855, 1615874814, 2605278463, 1616093182, 2606721023, 1616513022, 2607349759, 1616578558, 2607532287,
    1616695550, 2607734271, 1616817918, 2607795455, 1616837118, 2608667135, 1616846846, 2608728575, 1616847358,
    2608771583, 1616847870, 2608893951, 1616848382, 2609250303, 1617110526, 2609446911, 1617176062, 2609709055,
    1617339902, 2610028031, 1617527806, 2611675135, 1618314238, 2612199423, 1618445310, 2612592639, 1618510846,
    2613379071, 1619231742, 2614034431, 1619751422, 2614231039, 1619816958, 2614427647, 1619882494, 2615541759,
    1620210174, 2616262655, 1620799998, 2616983551, 1620931070, 2617376767, 1621192702, 2618029055, 1621451774,
    2618154751, 1621504766, 2618425343, 1621570302, 2618753023, 1621832446, 2618949631, 1621897982, 2619113471,
    1621930750, 2619539455, 1622323966, 2619850751, 1622455038, 2620902911, 1623359742, 2621177855, 1623556350,
    2621308927, 1623621886, 2621412863, 1623622398, 2621702143, 1623819006]"

definition ranges_43 :: "int list" where
  "ranges_43 = [
    2622160895, 1624131326, 2622554111, 1624459006, 2622947327, 1624475390, 2623079423, 1624476414, 2623144959,
    1624477438, 2623639551, 1624579838, 2623930367, 1624645374, 2624318719, 1624837118, 2624438783, 1624885758,
    2624585727, 1624951294, 2624913407, 1625147902, 2625990655, 1625164286, 2626420735, 1625541118, 2626945023,
    1625803262, 2627085567, 1625825022, 2627222015, 1625825534, 2627250175, 1625827582, 2627403775, 1625891582,
    2633187327, 1631609598, 2633441279, 1631830782, 2634088447, 1632461566, 2634350591, 1632655358, 2634547199,
    1632720894, 2634874879, 1632786430, 2635005951, 1632851966, 2635268095, 1632917502, 2635589887, 1633108222,
    2635726847, 1633173758, 2637447167, 1634763006, 2637553663, 1634853118, 2638086143, 1634918654, 2638348287,
    1635049726, 2639003647, 1635377406, 2639265791, 1635574014, 2639544319, 1635631358, 2639724543, 1635696894,
    2640445439, 1636024574, 2640707583, 1636221182, 2640838655, 1636286718, 2641231871, 1636483326, 2641494015,
    1636614398, 2642214399, 1637007102, 2642802687, 1637463806, 2643984383, 1637988094, 2644377599, 1638249470,
    2644639743, 1638315006, 2645018879, 1638563070, 2645491711, 1638636798]"

definition ranges_44 :: "int list" where
  "ranges_44 = [
    2645950463, 1638831870, 2646198527, 1638875134, 2646462463, 1638993918, 2646671359, 1639124478, 2647195647,
    1639255550, 2647719935, 1639647230, 2648834047, 1639712766, 2649096191, 1639778302, 2649817087, 1640433662,
    2649948927, 1640434174, 2650304511, 1640593918, 2650472447, 1640653310, 2650800127, 1640772094, 2652700671,
    1640968702, 2653159423, 1641038334, 2653497343, 1641114110, 2654011391, 1641507326, 2654273535, 1641703934,
    2654914047, 1642082302, 2655256575, 1642147838, 2655584255, 1642344446, 2655715327, 1642409982, 2656216063,
    1642514174, 2656763903, 1642645246, 2657236479, 1642724606, 2657550335, 1642790142, 2657878015, 1642986750,
    2658009087, 1643052286, 2658533375, 1643511038, 2658697215, 1643543806, 2658861055, 1643609342, 2659319807,
    1643870206, 2659516415, 1643935742, 2660040703, 1644001278, 2660242175, 1644003070, 2660286463, 1644011262,
    2660827135, 1644470014, 2661073407, 1644585214, 2661416959, 1644650750, 2661448703, 1644651774, 2661482495,
    1644668158, 2662268927, 1645323518, 2662727679, 1645552894, 2662924287, 1645618430, 2663448575, 1645880574,
    2664079359, 1646183678, 2664431615, 1646380286, 2665173503, 1646393086]"

definition ranges_45 :: "int list" where
  "ranges_45 = [
    2665414655, 1646458622, 2665611263, 1646585598, 2665807871, 1646651134, 2666201087, 1646978814, 2667216895,
    1647199998, 2667642879, 1647331070, 2667996159, 1647618814, 2668822527, 1648208638, 2669084671, 1648405246,
    2669345279, 1648583934, 2669789183, 1648944382, 2670133247, 1649075454, 2671230463, 1650041598, 2671443967,
    1650107134, 2671770623, 1650295294, 2671965951, 1650358526, 2672361471, 1650424062, 2672708351, 1650426366,
    2673082367, 1650622974, 2673672191, 1650754046, 2673868799, 1650885118, 2674237439, 1651122686, 2674458623,
    1651322366, 2674854911, 1651587582, 2675047423, 1651636734, 2675376127, 1651833342, 2675956735, 1652119294,
    2676277247, 1652299518, 2676441087, 1652381438, 2677080063, 1652971262, 2677342207, 1653167870, 2677931775,
    1653626366, 2678259711, 1653691902, 2678912511, 1654143742, 2679111679, 1654209278, 2679566847, 1654533374,
    2680815615, 1655327998, 2681100799, 1655482110, 2681188351, 1655484158, 2681224703, 1655503358, 2681864191,
    1655956478, 2682192639, 1656219390, 2682454015, 1656350462, 2682912767, 1656612606, 2683502591, 1656809214,
    2683711999, 1656883454, 2684221439, 1657078014, 2684419327, 1657208318]"

definition ranges_46 :: "int list" where
  "ranges_46 = [
    2684616703, 1657339390, 2684944383, 1657411070, 2685272063, 1657476606, 2685534207, 1657607678, 2685730815,
    1657738750, 2685992959, 1657804286, 2686189567, 1657869822, 2686570495, 1657972222, 2686590975, 1657976318,
    2687303679, 1658043390, 2687560703, 1658177534, 2688614399, 1658963966, 2689151999, 1659370494, 2689466367,
    1659567102, 2689597439, 1659632638, 2689924863, 1659894526, 2690056191, 1659960062, 2690514943, 1660287742,
    2690701823, 1660288254, 2691104767, 1660419326, 2691301375, 1660484862, 2691825663, 1660812542, 2692021247,
    1660877054, 2692546559, 1661270270, 2694381567, 1661335806, 2696609791, 1663498494, 2696806399, 1663564030,
    2697003007, 1663629566, 2697461759, 1663695102, 2697648127, 1663748350, 2697920511, 1663869182, 2698444799,
    1664196862, 2698838015, 1664393470, 2699231231, 1664609534, 2699689983, 1664871678, 2699935743, 1664904446,
    2700083199, 1665032446, 2700267519, 1665085694, 2700541951, 1665151230, 2700836863, 1665380606, 2701328383,
    1665705726, 2701459455, 1665771262, 2701768703, 1665883902, 2701950975, 1666047742, 2702442495, 1666363134,
    2702639103, 1666428670, 2702966783, 1666579710, 2703163391, 1666710782]"

definition ranges_47 :: "int list" where
  "ranges_47 = [
    2703667199, 1667132670, 2703692799, 1667133694, 2704015359, 1667182846, 2704408319, 1667248126, 2704605183,
    1667379198, 2704867327, 1667575806, 2704998399, 1667641342, 2705171199, 1667642110, 2705457151, 1667707646,
    2705850367, 1667968766, 2706374655, 1668165374, 2706735103, 1668460286, 2707030015, 1668529918, 2707554303,
    1668595454, 2708275199, 1668824830, 2708406271, 1668890366, 2708602879, 1668955646, 2708799487, 1669021182,
    2709258239, 1669086718, 2709437183, 1669094654, 2709649407, 1669158142, 2710110207, 1669551358, 2710568959,
    1669944574, 2711355391, 1670468862, 2711821823, 1670537726, 2711945215, 1670539774, 2712535551, 1670540286,
    2713059327, 1670704126, 2713360383, 1670874110, 2713649151, 1671018494, 2714227967, 1671318526, 2714442751,
    1671322110, 2714894335, 1671518718, 2715353087, 1671813630, 2716401663, 1672598526, 2716598271, 1672664062,
    2716860415, 1672730622, 2717122559, 1672861694, 2717712383, 1673254910, 2718040063, 1673517054, 2718758911,
    1674039294, 2718832639, 1674045438, 2719154175, 1674307582, 2719481855, 1674504190, 2719742463, 1674699262,
    2719940607, 1674764798, 2720268287, 1674957310, 2721031679, 1675524094]"

definition ranges_48 :: "int list" where
  "ranges_48 = [
    2721251327, 1675589630, 2721447935, 1675655166, 2721710079, 1675720702, 2722823423, 1676638462, 2723086335,
    1676703998, 2723479551, 1677031678, 2724454399, 1677744382, 2724790271, 1677809918, 2724984831, 1677938942,
    2725380095, 1678086398, 2725575167, 1678215934, 2725838847, 1678408446, 2726166527, 1678605054, 2726303743,
    1678690814, 2726625279, 1678887422, 2727280639, 1679469054, 2727422207, 1679471358, 2728263679, 1680126718,
    2731606015, 1683337982, 2731933695, 1683632894, 2733637631, 1685213438, 2733800447, 1685245182, 2734751743,
    1686097150, 2735079423, 1686228734, 2735180287, 1686230782, 2735259647, 1686267646, 2736652287, 1686333182,
    2736979967, 1686398718, 2737373183, 1686464254, 2737963007, 1686923006, 2738225151, 1686984446, 2738356223,
    1687049982, 2738552831, 1687115518, 2738784255, 1687131902, 2739732479, 1687164670, 2739929087, 1687197438,
    2742339839, 1687374846, 2742488063, 1687376382, 2742550527, 1687392766, 2742681599, 1687457790, 2742943743,
    1687572478, 2743336959, 1687638014, 2743599103, 1687703550, 2744057855, 1688096766, 2744254463, 1688162302,
    2744647679, 1688293374, 2745106431, 1688715262, 2745630719, 1689108478]"

definition ranges_49 :: "int list" where
  "ranges_49 = [
    2746023935, 1689272318, 2746122239, 1689305086, 2746363903, 1689382910, 2746482687, 1689481214, 2747203583,
    1690071038, 2748121087, 1690923006, 2748579839, 1691054078, 2748710911, 1691119614, 2749300735, 1691267070,
    2750021631, 1691594750, 2750283775, 1691725822, 2750742527, 1691791358, 2750939135, 1691856894, 2751856639,
    1692488190, 2752184319, 1692684798, 2752446463, 1692750334, 2753647615, 1692750846, 2754150399, 1693068798,
    2754543615, 1693330942, 2754674687, 1693396478, 2754805759, 1693462014, 2755067903, 1693658622, 2755264511,
    1693724158, 2755592191, 1693986302, 2755985407, 1694051838, 2756116479, 1694084606, 2756346623, 1694183678,
    2756771839, 1694445822, 2757159935, 1694768126, 2757623807, 1695031038, 2758017023, 1695227646, 2758344703,
    1695489790, 2758672383, 1695618558, 2758868479, 1695663102, 2759131135, 1695860222, 2759458815, 1695925758,
    2759655423, 1695991294, 2759917567, 1696187902, 2760111359, 1696217342, 2760249599, 1696286206, 2761492991,
    1697339902, 2761818111, 1697622782, 2762014719, 1697687294, 2762276863, 1697883902, 2762474495, 1697884926,
    2763128831, 1697950462, 2764308479, 1698015998, 2765617663, 1698145534]"

definition ranges_50 :: "int list" where
  "ranges_50 = [
    2768571647, 1698476542, 2769027071, 1698738686, 2769354751, 1698935294, 2769682431, 1699130110, 2770141183,
    1699457790, 2771648511, 1699654398, 2772566015, 1700309758, 2772828159, 1700440830, 2773024767, 1700506366,
    2773483519, 1700932350, 2773762047, 1700948734, 2774204415, 1701374718, 2774859775, 1701636862, 2775121919,
    1701702398, 2775516671, 1701900542, 2775589887, 1701908222, 2776301567, 1702563582, 2776490239, 1702619902,
    2776880383, 1702739966, 2777022463, 1702819582, 2777284607, 1702885118, 2778136575, 1703540478, 2778398719,
    1703737086, 2778726399, 1703995134, 2778797055, 1704000254, 2779185151, 1704131326, 2779840511, 1704655614,
    2780102655, 1704720126, 2780278783, 1704830718, 2780561407, 1704961790, 2780823551, 1705027326, 2780954623,
    1705092862, 2781003775, 1705109246, 2781413375, 1705355006, 2782199807, 1706075902, 2782460159, 1706269694,
    2782719999, 1706271742, 2782837759, 1706305534, 2783071999, 1706424062, 2783248383, 1706489598, 2783576063,
    1706686206, 2783838207, 1706817278, 2784296959, 1707079422, 2784493567, 1707144958, 2784952319, 1707538174,
    2785148927, 1707669246, 2786394111, 1707748862, 2788360191, 1708994046]"

definition ranges_51 :: "int list" where
  "ranges_51 = [
    2788884991, 1709191166, 2789079039, 1709205502, 2789146623, 1709238270, 2789328895, 1709387774, 2790108927,
    1710087934, 2790654975, 1710408446, 2790785023, 1710473982, 2791047167, 1710670590, 2791254015, 1710746366,
    2791571455, 1710873086, 2791768063, 1710938622, 2792226815, 1711133694, 2792489471, 1711199742, 2792937727,
    1711386366, 2792993279, 1711399166, 2795634687, 1713889534, 2798518271, 1716642046, 2800877567, 1718800638,
    2802057215, 1719718142, 2802253823, 1719783678, 2802386687, 1719850750, 2803499007, 1720637182, 2803818495,
    1720760062, 2806317055, 1721612030, 2806726655, 1721759486, 2806906879, 1721890558, 2807103487, 1722019582,
    2807289599, 1722072062, 2807860735, 1722501630, 2808019455, 1722565374, 2808283135, 1722630910, 2808676351,
    1722957566, 2809021439, 1723174398, 2809177599, 1723182334, 2809983743, 1723834366, 2810380287, 1724090110,
    2810773503, 1724417790, 2811426815, 1724948222, 2811691007, 1725013758, 2811887615, 1725079294, 2812372479,
    1725498622, 2812766719, 1725721598, 2813067263, 1725989886, 2813919231, 1726774270, 2814181119, 1726903038,
    2815139583, 1727664638, 2815264255, 1727665150, 2815715327, 1728085502]"

definition ranges_52 :: "int list" where
  "ranges_52 = [
    2816081919, 1728282110, 2816212991, 1728347646, 2816606207, 1728581118, 2817064703, 1728788734, 2817523711,
    1729181950, 2818637823, 1730164990, 2819111935, 1730166014, 2819166207, 1730182398, 2819216895, 1730188030,
    2819290111, 1730189054, 2822523903, 1730190078, 2822965247, 1730318590, 2823290879, 1730480894, 2823553023,
    1730546430, 2823946239, 1730821886, 2824314879, 1731124990, 2825388031, 1732169982, 2825524991, 1732175358,
    2825916415, 1732179454, 2826184447, 1732307710, 2826567679, 1732373246, 2827026431, 1732700926, 2827577855,
    1733055742, 2828009215, 1733272574, 2828172543, 1733345534, 2828402431, 1733410814, 2829187071, 1734149886,
    2829451263, 1734280958, 2829778943, 1734543102, 2830086911, 1734785534, 2830893055, 1735244286, 2831089663,
    1735375358, 2831548415, 1735637502, 2832564223, 1736456702, 2832728063, 1736587774, 2832916991, 1736711166,
    2833121279, 1736842238, 2834038783, 1737587710, 2835349503, 1738767358, 2836398079, 1739553790, 2844131327,
    1739944446, 2844393471, 1740075518, 2844577279, 1740112894, 2844983295, 1740375038, 2845442047, 1740703998,
    2845638655, 1740835070, 2845835263, 1740966142, 2848391167, 1741156606]"

definition ranges_53 :: "int list" where
  "ranges_53 = [
    2848648703, 1741326078, 2848784383, 1741391614, 2849035263, 1741511422, 2849252351, 1741512446, 2849526783,
    1741513470, 2849691647, 1741514494, 2850095103, 1741544190, 2850291455, 1741608702, 2850442751, 1741609214,
    2851209215, 1741805822, 2851711999, 1741806334, 2852323327, 1742068478, 2854288383, 1743967998, 2854878719,
    1744456702, 2855927807, 1745243134, 2856517631, 1745632254, 2857992191, 1746933758, 2858123263, 1747040254,
    2858221567, 1747122174, 2858942463, 1747646462, 2859474943, 1748110334, 2860384255, 1748831230, 2860974079,
    1749289982, 2861301759, 1749552126, 2861383423, 1749553918, 2862022655, 1749881342, 2862940159, 1750667774,
    2863857663, 1751453950, 2864644863, 1751913470, 2864939007, 1752009726, 2865430527, 1752271870, 2865952767,
    1752729854, 2866120191, 1752829694, 2866282495, 1752895230, 2866477311, 1752961790, 2866598399, 1753008126,
    2866909183, 1753102334, 2867855359, 1754030078, 2870738943, 1756651518, 2871853055, 1757569022, 2872309759,
    1757829118, 2872967167, 1757960190, 2873673727, 1757962238, 2877292543, 1761501182, 2879586303, 1761758206,
    2880798719, 1761762302, 2881491455, 1761766910, 2886729727, 1766026750]"

definition ranges_54 :: "int list" where
  "ranges_54 = [
    2889875455, 1768123902, 2891038719, 1768762878, 2892185599, 1769860606, 2892496895, 1770122750, 2892599295,
    1770126846, 2892955647, 1770454526, 2893545471, 1771011582, 2894069759, 1771404798, 2898788351, 1771929086,
    2899902463, 1771994622, 2900390399, 1772417022, 2900557823, 1772421118, 2900683775, 1772422654, 2900782079,
    1772423166, 2900829183, 1772432382, 2901442559, 1772465150, 2901524479, 1772504062, 2901803007, 1772766206,
    2902196223, 1773093886, 2902421503, 1773188094, 2904817663, 1775563774, 2905079807, 1775571966, 2907897855,
    1778258942, 2912616447, 1782911998, 2915041279, 1785009150, 2915106303, 1785010686, 2915631103, 1785403902,
    2915762175, 1785469438, 2917580799, 1787222526, 2917646335, 1787279870, 2917777407, 1787394558, 2918531071,
    1788125694, 2918564351, 1788150782, 2918571007, 1788156926, 2918842367, 1788427262, 2919022591, 1788541950,
    2919071743, 1788574718, 2919219199, 1788656638, 2919759871, 1789180926, 2921594879, 1790491646, 2927099903,
    1795865598, 2927575039, 1796078590, 2927689727, 1796176894, 2927886335, 1796307966, 2928279551, 1796570110,
    2928607231, 1796865022, 2937585663, 1805777918, 2937716735, 1805843454]"

definition ranges_55 :: "int list" where
  "ranges_55 = [
    2938732543, 1806728190, 2946441215, 1814404094, 2947678207, 1815600126, 2948071423, 1815862270, 2948136959,
    1815895038, 2953379839, 1820941310, 2954821631, 1822317566, 2954903551, 1822333950, 2955018239, 1822432254,
    2960107519, 1827455998, 2960605183, 1827952638, 2960867327, 1828198398, 2967453695, 1834768382, 2968649727,
    1835948030, 2974253055, 1841420286, 2975465471, 1842599934, 2976448511, 1843516414, 2983985151, 1851036670,
    2987528191, 1854546942, 2987530751, 1854548478, 2988441599, 1855458302, 2990407679, 1857293310, 2991554559,
    1858309118, 2994733055, 1861471230, 2996174847, 1862847486, 2996568063, 1863109630, 2997010431, 1863521022,
    2997616639, 1864110846, 2997942527, 1864403966, 3004319487, 1870582526, 3004563455, 1870680830, 3006136319,
    1872122622, 3011264511, 1877056254, 3024817151, 1890592510, 3024882175, 1890593022, 3025403903, 1891051774,
    3032481791, 1897998590, 3033070591, 1898325246, 3033530367, 1898718462, 3035365375, 1900422398, 3043426303,
    1908188414, 3048472575, 1913103614, 3048865791, 1913332990, 3050831871, 1915167998, 3056820991, 1920894974,
    3057451007, 1921484798, 3059482623, 1923450878, 3059580927, 1923483646]"

definition ranges_56 :: "int list" where
  "ranges_56 = [
    3066036223, 1929845758, 3070099455, 1933384702, 3081240575, 1944460286, 3081502719, 1944525822, 3082163711,
    1944924670, 3088580607, 1951341310, 3088759807, 1951500030, 3088860671, 1951571198, 3088941055, 1951633662,
    3088990207, 1951666430, 3089014783, 1951670526, 3089043455, 1951682814, 3089100799, 1951703294, 3090305023,
    1951854846, 3091726335, 1953229822, 3091988479, 1953360894, 3092577791, 1953688062, 3092606975, 1953692158,
    3092640767, 1953705470, 3092674559, 1953715710, 3093037055, 1954055166, 3093954559, 1954841598, 3095396351,
    1956217854, 3098017791, 1957790718, 3098116095, 1957823486, 3098214399, 1957889022, 3098275839, 1957917694,
    3098460159, 1957966846, 3099918335, 1959408638, 3100770303, 1959998462, 3100966911, 1960063998, 3102736383,
    1961702398, 3102932991, 1961767934, 3105894655, 1964598526, 3106495487, 1965199102, 3107598335, 1966300926,
    3109235711, 1967937278, 3110299647, 1969000190, 3126984703, 1985684222, 3131310079, 1989878526, 3131768831,
    1990206206, 3134783487, 1992893182, 3145727999, 2003766014, 3148087295, 2005994238, 3150176255, 2007886590,
    3152936959, 2010442494, 3154182143, 2011556606, 3156377599, 2013686526]"

definition ranges_57 :: "int list" where
  "ranges_57 = [
    3156738047, 2014014206, 3161686015, 2018896638, 3161866239, 2019060478, 3162734591, 2019912446, 3163160575,
    2020305662, 3163553791, 2020682494, 3164930047, 2021927678, 3166175231, 2023041790, 3168960511, 2025695998,
    3180658687, 2037360382, 3186950143, 2043520766, 3194650623, 2051090174, 3198681087, 2055104254, 3207872511,
    2064131838, 3211263999, 2067482366, 3211460607, 2067515134, 3212115967, 2068039422, 3219652607, 2075444990,
    3221225471, 2076493566, 3221225983, 2076493822, 3221618687, 2076886270, 3221815295, 2077037566, 3222076415,
    2077102078, 3222326527, 2077220094, 3222437887, 2077252862, 3222599423, 2077345790, 3222906879, 2077519870,
    3223109631, 2077698046, 3223397119, 2077903358, 3223650303, 2078137086, 3224003583, 2078392062, 3224128767,
    2078498558, 3224240127, 2078568190, 3224285439, 2078568958, 3224514047, 2078760958, 3224541439, 2078771966,
    3224606719, 2078816254, 3224626687, 2078817790, 3224747007, 2078916862, 3224961023, 2079104254, 3225157631,
    2079235326, 3225812991, 2079628286, 3226255359, 2080047870, 3226827263, 2080600830, 3226895103, 2080638206,
    3227017983, 2080663550, 3227283967, 2080929278, 3227326463, 2080971518]"

definition ranges_58 :: "int list" where
  "ranges_58 = [
    3227363327, 2080974078, 3227450879, 2081031422, 3227582463, 2081146110, 3227713535, 2081211134, 3227801599,
    2081233662, 3228106751, 2081521150, 3228248575, 2081597438, 3228303359, 2081634814, 3228336127, 2081649150,
    3228745727, 2082041598, 3229036543, 2082316030, 3229548543, 2082807550, 3229608191, 2082808830, 3229712383,
    2082873086, 3230009343, 2083137278, 3230043903, 2083150334, 3230251775, 2083329278, 3230275583, 2083335422,
    3230597119, 2083637758, 3230695423, 2083669502, 3230921215, 2083862526, 3231028991, 2083949054, 3231326207,
    2084227582, 3231424511, 2084309502, 3231561727, 2084397054, 3231948799, 2084765694, 3232169983, 2084962302,
    3232325631, 2084985598, 3232415743, 2085034494, 3232462847, 2085061886, 3232497663, 2085076222, 3232661503,
    2085182718, 3232824831, 2085313278, 3233349631, 2085640958, 3233464319, 2085673726, 3233808383, 2086001406,
    3234167039, 2086294526, 3234398207, 2086525438, 3235782655, 2087775742, 3236241407, 2088216574, 3236477951,
    2088428030, 3236724735, 2088657406, 3236789759, 2088683518, 3236855807, 2088716286, 3236923903, 2088716798,
    3237052415, 2088815102, 3237220351, 2088879614, 3237244927, 2088883710]"

definition ranges_59 :: "int list" where
  "ranges_59 = [
    3237478399, 2089080318, 3237560319, 2089129470, 3237670911, 2089235966, 3237904383, 2089465342, 3237969919,
    2089481726, 3238019071, 2089498110, 3238068223, 2089530878, 3238395903, 2089727230, 3238657535, 2089890558,
    3238723583, 2089891070, 3239330815, 2090432766, 3239526143, 2090514430, 3239579135, 2090567166, 3241146879,
    2092134654, 3241541631, 2092199166, 3241869311, 2092392446, 3242590207, 2092785662, 3243704319, 2093867006,
    3244892927, 2094990078, 3245342719, 2095439614, 3245998079, 2096029438, 3246915583, 2096815870, 3247111167,
    2096879358, 3247439359, 2097075454, 3247800319, 2097173758, 3247850751, 2097207806, 3248226303, 2097583102,
    3248881663, 2098107390, 3249029119, 2098122750, 3249143551, 2098220798, 3249405951, 2098351870, 3250454527,
    2099267838, 3250659327, 2099341566, 3250847743, 2099513598, 3251372031, 2099841278, 3252682239, 2100954878,
    3252912895, 2101053950, 3254740479, 2102881278, 3254845439, 2102955774, 3255599103, 2103676670, 3256354815,
    2104415998, 3256557055, 2104587518, 3257669631, 2105669886, 3257688575, 2105670398, 3257860095, 2105801470,
    3258187775, 2106062590, 3258514431, 2106323710, 3259105279, 2106841854]"

definition ranges_60 :: "int list" where
  "ranges_60 = [
    3259836657, 2107507696, 3259836661, 2107507699, 3260021759, 2107692796, 3260809215, 2108217084, 3260940287,
    2108282620, 3262043647, 2109254908, 3264020479, 2111231484, 3265265663, 2112411132, 3265605631, 2112646140,
    3265724415, 2112764668, 3265915903, 2112890620, 3265986559, 2112961020, 3266641919, 2113550844, 3267756031,
    2114599420, 3268542463, 2115254780, 3268804607, 2115451388, 3269525503, 2116106748, 3269563903, 2116107260,
    3269640191, 2116156412, 3270115327, 2116587004, 3270377471, 2116775420, 3271098367, 2117430780, 3271360511,
    2117627388, 3272671231, 2118807036, 3272826879, 2118897148, 3273981951, 2120027644, 3274688767, 2120668924,
    3275554815, 2121534716, 3275595775, 2121538812, 3276988415, 2122904316, 3277127679, 2122969852, 3278372863,
    2124182268, 3278825215, 2124372476, 3278962687, 2124438012, 3279290367, 2124700156, 3280084991, 2125363708,
    3280355327, 2125609468, 3281256447, 2126494204, 3281387519, 2126559740, 3282042879, 2127165948, 3282063359,
    2127170044, 3282305023, 2127391228, 3282632703, 2127653372, 3283091455, 2128046588, 3283812351, 2128734716,
    3283845119, 2128751100, 3284271103, 2129144316, 3284598783, 2129340924]"

definition ranges_61 :: "int list" where
  "ranges_61 = [
    3284729855, 2129406460, 3285303039, 2129914108, 3285975039, 2130569468, 3288006655, 2132470012, 3288515071,
    2132915964, 3292004351, 2136387324, 3299606527, 2143659772, 3301244927, 2145167100, 3301474303, 2145199868,
    3304393215, 2148090108, 3314024447, 2157685500, 3321839615, 2165238524, 3321970687, 2165353212, 3322052607,
    2165418748, 3322476543, 2165809916, 3322642431, 2165842684, 3322705919, 2165870844, 3322707967, 2165872124,
    3322814463, 2165941756, 3323068415, 2166154748, 3323297791, 2166253052, 3323412479, 2166334460, 3323527167,
    2166432764, 3323674623, 2166449148, 3323758591, 2166516732, 3323854847, 2166580476, 3324028415, 2166688508,
    3324600319, 2167233276, 3325050879, 2167479036, 3325198335, 2167610108, 3325256703, 2167635708, 3325575167,
    2167953916, 3325657087, 2167986684, 3325803519, 2168099836, 3325918975, 2168192252, 3326574591, 2168814332,
    3327257087, 2169464060, 3327410175, 2169545980, 3327459327, 2169578748, 3327540735, 2169579260, 3327918079,
    2169906940, 3328260351, 2170232828, 3328335871, 2170271484, 3328540671, 2170454780, 3328638975, 2170520060,
    3328966655, 2170782204, 3329003007, 2170782716, 3329490943, 2171044860]"

definition ranges_62 :: "int list" where
  "ranges_62 = [
    3330541055, 2171045884, 3331387391, 2171828220, 3331653631, 2172090364, 3331725823, 2172091388, 3331767807,
    2172091900, 3332030463, 2172335612, 3332112383, 2172401148, 3332701695, 2172761084, 3332931327, 2172924156,
    3333701631, 2173673980, 3334225663, 2174181372, 3334400767, 2174237948, 3334946815, 2174252796, 3335083775,
    2174373116, 3335585791, 2174827772, 3335846911, 2175023356, 3336007679, 2175042812, 3336028159, 2175046908,
    3336173567, 2175108860, 3337224191, 2175829756, 3337345791, 2175885820, 3337434367, 2175909884, 3337482239,
    2175922172, 3338141695, 2176430076, 3338467071, 2176558844, 3339208703, 2177225468, 3339272191, 2177241084,
    3339360255, 2177282044, 3339395071, 2177291004, 3339845631, 2177487612, 3340173311, 2177747708, 3340697599,
    2178073340, 3340859391, 2178096892, 3340860415, 2178097660, 3341137407, 2178373628, 3341445631, 2178656508,
    3341686271, 2178862844, 3341849343, 2179005948, 3341891583, 2179047932, 3342189567, 2179196924, 3343172607,
    2179902460, 3343481855, 2180210684, 3343519743, 2180212732, 3344564223, 2181228540, 3345835007, 2182431740,
    3345940479, 2182435836, 3345977343, 2182444028, 3346399231, 2182654716]"

definition ranges_63 :: "int list" where
  "ranges_63 = [
    3346595071, 2182785020, 3346669567, 2182791420, 3346727935, 2182831356, 3347050495, 2183083004, 3347054591,
    2183085052, 3349250047, 2183134204, 3349487615, 2183205884, 3349740543, 2183431932, 3350228991, 2183883516,
    3350964223, 2184602108, 3351047679, 2184684540, 3351216639, 2184852988, 3351377919, 2184978940, 3351519231,
    2185099260, 3351584767, 2185129724, 3352297215, 2185813500, 3352887295, 2186151676, 3352952831, 2186200828,
    3353388799, 2186570492, 3353608191, 2186636028, 3353657087, 2186641660, 3353870335, 2186826492, 3354066943,
    2186953980, 3354469119, 2187290620, 3354886143, 2187689980, 3355115519, 2187899388, 3355430911, 2188083708,
    3356557311, 2189209852, 3356585983, 2189213948, 3356655615, 2189263100, 3356712959, 2189291772, 3358007295,
    2190561532, 3358031871, 2190569724, 3363831807, 2196351228, 3364290559, 2196416764, 3364404479, 2196461052,
    3364552703, 2196526588, 3364863999, 2196821500, 3364921343, 2196862460, 3370123263, 2201974268, 3370844159,
    2202629628, 3370975231, 2202695164, 3371024383, 2202727932, 3371122687, 2202793468, 3371171839, 2202809852,
    3389735167, 2221315836, 3389763583, 2221319932, 3389849599, 2221386492]"

definition ranges_64 :: "int list" where
  "ranges_64 = [
    3390098943, 2221604092, 3390154751, 2221622524, 3390185471, 2221630716, 3390214143, 2221634812, 3390251263,
    2221655292, 3390336511, 2221720316, 3390502911, 2221849340, 3390620927, 2221868540, 3390693119, 2221876476,
    3390832639, 2221956348, 3391275007, 2222267644, 3391299583, 2222271740, 3391492095, 2222404860, 3391535103,
    2222419196, 3391622655, 2222488316, 3391693311, 2222526460, 3392142847, 2222950396, 3392171519, 2222953980,
    3394920447, 2225681916, 3396352767, 2227095804, 3398233343, 2228334332, 3398402047, 2228471548, 3401580543,
    2231633660, 3402694655, 2231682812, 3403350015, 2232260604, 3403433983, 2232268796, 3403644927, 2232457212,
    3404136447, 2232922620, 3404307199, 2233076988, 3404431359, 2233175292, 3404464127, 2233191676, 3404494079,
    2233199100, 3404512255, 2233200636, 3404783615, 2233435900, 3404862463, 2233473788, 3404920319, 2233475324,
    3404978431, 2233514492, 3405024255, 2233542140, 3405103103, 2233599996, 3405131775, 2233601020, 3405250559,
    2233702908, 3405391615, 2233778428, 3405421567, 2233778940, 3405455359, 2233787132, 3405540351, 2233845500,
    3405567231, 2233846268, 3405623295, 2233866748, 3405641727, 2233867772]"

definition ranges_65 :: "int list" where
  "ranges_65 = [
    3405735935, 2233931516, 3405803775, 2233960188, 3405868031, 2234024188, 3406562815, 2234693372, 3409707007,
    2237837308, 3409838847, 2237936380, 3409969151, 2238033916, 3410231295, 2238230524, 3410427903, 2238361596,
    3412443135, 2240245756, 3412787199, 2240573436, 3413603327, 2241356796, 3414646783, 2242364412, 3416145919,
    2243843068, 3416227839, 2243859452, 3417079807, 2244678652, 3417669631, 2245235708, 3417916415, 2245465596,
    3418107903, 2245637628, 3418587135, 2246099196, 3421323263, 2248802556, 3421790207, 2249246460, 3421945343,
    2249360636, 3422167039, 2249549052, 3422296063, 2249661692, 3422482687, 2249829884, 3423338239, 2250657020,
    3423420415, 2250702076, 3423649791, 2250929404, 3423858175, 2251135740, 3423862527, 2251139836, 3424288767,
    2251172604, 3424759807, 2251606524, 3425566719, 2251868668, 3425734655, 2251905532, 3425964031, 2252106236,
    3426201855, 2252324092, 3426254847, 2252352764, 3426369535, 2252432636, 3426746367, 2252788220, 3427454975,
    2253230588, 3427773695, 2253545212, 3427858687, 2253608956, 3428069375, 2253686780, 3428401151, 2253896188,
    3429097471, 2254576124, 3429236735, 2254641660, 3429343487, 2254671100]"

definition ranges_66 :: "int list" where
  "ranges_66 = [
    3429403903, 2254673404, 3429456895, 2254674428, 3429504511, 2254678268, 3429957631, 2255078652, 3431005439,
    2256058620, 3431735295, 2256722172, 3432665087, 2257627388, 3432824831, 2257785084, 3432906751, 2257850620,
    3434610687, 2259461372, 3435380735, 2260100348, 3435447039, 2260101116, 3435921407, 2260527100, 3436380159,
    2260658172, 3436855295, 2261067772, 3437101055, 2261198844, 3437567999, 2261469180, 3437592575, 2261477372,
    3437619967, 2261481468, 3437789183, 2261573628, 3438051327, 2261803004, 3439329279, 2263048188, 3440297983,
    2263050236, 3448037375, 2263369724, 3448174847, 2263433468, 3448758271, 2263982332, 3449102079, 2264324092,
    3449419775, 2264616956, 3449797887, 2264861948, 3450077183, 2265140988, 3450142719, 2265190140, 3450781183,
    2265760764, 3450862335, 2265797372, 3451717631, 2266585852, 3451779071, 2266646268, 3451900159, 2266650108,
    3452723199, 2267198972, 3452960767, 2267395580, 3453059071, 2267461116, 3453312255, 2267697916, 3453331455,
    2267698428, 3453435903, 2267780348, 3453950975, 2268279036, 3454107647, 2268414716, 3454992383, 2269266684,
    3455827967, 2270036732, 3455983615, 2270175996, 3456892927, 2271052540]"

definition ranges_67 :: "int list" where
  "ranges_67 = [
    3457482751, 2271608572, 3458465791, 2272469244, 3459874815, 2273607932, 3461087231, 2274787580, 3461160959,
    2274795772, 3461808127, 2275320060, 3461870591, 2275321084, 3463197695, 2276120828, 3463315455, 2276238076,
    3463839743, 2276696828, 3464008191, 2276799740, 3464108287, 2276871676, 3466920959, 2279664636, 3467069439,
    2279812860, 3467575295, 2280271612, 3467771903, 2280399100, 3468492799, 2281054460, 3468582911, 2281070844,
    3468722175, 2281185532, 3468853247, 2281300220, 3468992511, 2281423100, 3469656063, 2282067708, 3469717503,
    2282111484, 3469803519, 2282175996, 3469926399, 2282270204, 3470000127, 2282327548, 3470032639, 2282332412,
    3470098431, 2282373372, 3470811391, 2283069948, 3472097279, 2284315132, 3472703487, 2284843516, 3472746495,
    2284878332, 3472883711, 2284943868, 3481534463, 2285206012, 3481731071, 2285271548, 3482451967, 2285976060,
    3483025407, 2286418428, 3483205631, 2286582268, 3483344895, 2286688764, 3483512831, 2286766588, 3483553791,
    2286787068, 3483762687, 2286918140, 3484106751, 2287245820, 3485466623, 2288589308, 3485761535, 2288867836,
    3486466047, 2289506812, 3487219711, 2290244092, 3488120831, 2291128828]"

definition ranges_68 :: "int list" where
  "ranges_68 = [
    3488153599, 2291145212, 3488614399, 2291573244, 3488874495, 2291769852, 3489005567, 2291868156, 3492478975,
    2295325180, 3494717439, 2297498108, 3494904831, 2297683452, 3496280063, 2299057660, 3496738815, 2299500028,
    3496796159, 2299532796, 3497000959, 2299663868, 3497459711, 2300057084, 3497590783, 2300122620, 3497689087,
    2300155388, 3497778943, 2300220668, 3507552255, 2309993724, 3507879935, 2310303996, 3509485567, 2311844092,
    3509827839, 2312153596, 3509989375, 2312314876, 3510271999, 2312593404, 3510468607, 2312773628, 3510501375,
    2312790012, 3510796287, 2313043964, 3510927359, 2313142268, 3511320575, 2313519100, 3512008703, 2314182652,
    3512139775, 2314248188, 3512672255, 2314764284, 3512827903, 2314895356, 3513384959, 2315436028, 3513499647,
    2315485180, 3513504255, 2315489276, 3513504767, 2315489532, 3514884095, 2316868604, 3515187199, 2317065212,
    3515662335, 2317523964, 3516071935, 2317917180, 3516104703, 2317933564, 3517186047, 2318998524, 3518791679,
    2320587772, 3519578111, 2321341436, 3520593919, 2322340860, 3521380351, 2323110908, 3524886527, 2326354940,
    3527081983, 2327075836, 3527147519, 2327108604, 3527294975, 2327190524]"

definition ranges_69 :: "int list" where
  "ranges_69 = [
    3527737343, 2327604220, 3529416703, 2329119740, 3529834495, 2329512956, 3530751999, 2330414076, 3530915839,
    2330553340, 3530956799, 2330577916, 3531800575, 2331397116, 3531931647, 2331495420, 3532193791, 2331732988,
    3533127679, 2332601340, 3535044607, 2334501884, 3537494015, 2336926716, 3538943999, 2338335740, 3539140607,
    2338466812, 3540123647, 2339433468, 3542368255, 2341645308, 3544186879, 2343447548, 3544784895, 2343521276,
    3545022463, 2343734268, 3545223167, 2343918588, 3548184575, 2346343420, 3548409855, 2346552316, 3548708863,
    2346814460, 3550244351, 2348317180, 3550445567, 2348517884, 3550674943, 2348714492, 3551920127, 2349828604,
    3552378879, 2350221820, 3556451327, 2354261500, 3558473727, 2356258300, 3558899711, 2356651516, 3558948863,
    2356684284, 3560964095, 2358691324, 3562475519, 2360161788, 3563421695, 2361103868, 3565158399, 2362824188,
    3565189887, 2362831100, 3565256703, 2362863868, 3565420543, 2362994940, 3565518847, 2363027708, 3565813759,
    2363306236, 3567714303, 2365141244, 3568107519, 2365468924, 3568697343, 2365993212, 3569188863, 2366451964,
    3569287167, 2366517500, 3569360895, 2366525692, 3569426431, 2366556156]"

definition ranges_70 :: "int list" where
  "ranges_70 = [
    3569942527, 2367055612, 3570335743, 2367383292, 3571023871, 2368005884, 3571122175, 2368071420, 3571646463,
    2368530172, 3572203519, 2369021692, 3574775807, 2371561212, 3575644159, 2372413180, 3578265599, 2375001852,
    3578757119, 2375424508, 3583262719, 2379897340, 3586621439, 2383247868, 3588448255, 2385058300, 3589259263,
    2385861116, 3590029311, 2386614780, 3590324223, 2386893052, 3624386559, 2387400956, 3625320447, 2388318460,
    3626545151, 2389526780, 3627073535, 2390034684, 3627548671, 2390493436, 3628400639, 2391279868, 3628431615,
    2391290364, 3628728319, 2391568892, 3629326591, 2392150780, 3629331199, 2392151036, 3630202879, 2393019388,
    3632496639, 2395280380, 3633821439, 2396572412, 3633823231, 2396573948, 3634692095, 2397442300, 3635183615,
    2397901052, 3636012031, 2398713084, 3636461567, 2399162364, 3637886975, 2400473084, 3638225151, 2400794876,
    3638587391, 2401156860, 3641286655, 2403852028, 3641287935, 2403853052, 3651141631, 2413706492, 3652182015,
    2414681340, 3652386815, 2414746876, 3652583423, 2414779644, 3670015999, 2432146684, 3671654399, 2433260796,
    3672244223, 2433785084, 3672440831, 2433916156, 3680567295, 2441977084]"

definition ranges_71 :: "int list" where
  "ranges_71 = [
    3681026047, 2442370300, 3681812479, 2443091196, 3688366079, 2449579260, 3690070015, 2450233084, 3690190847,
    2450235132, 3695378431, 2455150332, 3700490239, 2460244220, 3701063679, 2460621052, 3704684543, 2464094460,
    3705339903, 2464684284, 3705536511, 2464815356, 3707404287, 2466514940, 3715710975, 2474657788, 3725590527,
    2484520956, 3734896639, 2492778492, 3737124863, 2494875644, 3741450239, 2498152444, 3749707775, 2506016764,
    3750625279, 2506802172, 3752329215, 2508375036, 3754033151, 2509882364, 3756617727, 2512335868, 3758096127,
    2513580796]"

definition builtin_words :: "int list" where
  "builtin_words =
    ranges_1 @ ranges_2 @ ranges_3 @ ranges_4 @ ranges_5 @ ranges_6 @ ranges_7 @ ranges_8 @ ranges_9 @
    ranges_10 @ ranges_11 @ ranges_12 @ ranges_13 @ ranges_14 @ ranges_15 @ ranges_16 @ ranges_17 @
    ranges_18 @ ranges_19 @ ranges_20 @ ranges_21 @ ranges_22 @ ranges_23 @ ranges_24 @ ranges_25 @
    ranges_26 @ ranges_27 @ ranges_28 @ ranges_29 @ ranges_30 @ ranges_31 @ ranges_32 @ ranges_33 @
    ranges_34 @ ranges_35 @ ranges_36 @ ranges_37 @ ranges_38 @ ranges_39 @ ranges_40 @ ranges_41 @
    ranges_42 @ ranges_43 @ ranges_44 @ ranges_45 @ ranges_46 @ ranges_47 @ ranges_48 @ ranges_49 @
    ranges_50 @ ranges_51 @ ranges_52 @ ranges_53 @ ranges_54 @ ranges_55 @ ranges_56 @ ranges_57 @
    ranges_58 @ ranges_59 @ ranges_60 @ ranges_61 @ ranges_62 @ ranges_63 @ ranges_64 @ ranges_65 @
    ranges_66 @ ranges_67 @ ranges_68 @ ranges_69 @ ranges_70 @ ranges_71"

definition builtin_ranges :: range_cfg where
  "builtin_ranges = \<lparr>cfg_num = 3383, cfg_max_idx = 2513580796, cfg_mask = 4294967295, cfg_ranges = map to_u32 builtin_words\<rparr>"

definition builtin_ports :: range_cfg where
  "builtin_ports = \<lparr>cfg_num = 1, cfg_max_idx = 0, cfg_mask = 0, cfg_ranges = [80, 0]\<rparr>"

definition builtin_tables :: tables where
  "builtin_tables = \<lparr>tb_ranges = builtin_ranges, tb_ports = builtin_ports\<rparr>"

section \<open>Reading the words\<close>

text \<open>The number of ranges so far, the end of the last range, and its last index.\<close>

definition routable :: "int \<Rightarrow> int \<Rightarrow> bool" where
  "routable s e \<longleftrightarrow> (\<forall>b \<in> set (reserved_blocks @ private_blocks). e < fst b \<or> snd b < s)"

lemma routable_code [code]:
  "routable s e \<longleftrightarrow>
    (e < 0 \<or> 16777215 < s) \<and> (e < 1681915904 \<or> 1686110207 < s) \<and>
    (e < 2130706432 \<or> 2147483647 < s) \<and> (e < 2851995648 \<or> 2852061183 < s) \<and>
    (e < 3221225472 \<or> 3221225727 < s) \<and> (e < 3221225472 \<or> 3221225479 < s) \<and>
    (e < 3221225642 \<or> 3221225642 < s) \<and> (e < 3221225643 \<or> 3221225643 < s) \<and>
    (e < 3221225984 \<or> 3221226239 < s) \<and> (e < 3227017984 \<or> 3227018239 < s) \<and>
    (e < 3323068416 \<or> 3323199487 < s) \<and> (e < 3325256704 \<or> 3325256959 < s) \<and>
    (e < 3405803776 \<or> 3405804031 < s) \<and> (e < 4026531840 \<or> 4294967295 < s) \<and>
    (e < 4294967295 \<or> 4294967295 < s) \<and> (e < 167772160 \<or> 184549375 < s) \<and>
    (e < 2886729728 \<or> 2887778303 < s) \<and> (e < 3232235520 \<or> 3232301055 < s)"
  by (simp add: routable_def reserved_blocks_def private_blocks_def cidr_def)

fun data_run :: "int \<Rightarrow> int \<Rightarrow> int \<Rightarrow> int list \<Rightarrow> (int \<times> int \<times> int) option" where
  "data_run n pe pc [] = Some (n, pe, pc)"
| "data_run n pe pc [e] = None"
| "data_run n pe pc (e # c # xs) =
     (if pe < e - (c - pc - 1) \<and> pc < c \<and> routable (e - (c - pc - 1)) e
      then data_run (n + 1) e c xs else None)"

lemma data_run_append:
  "data_run n pe pc xs = Some (k, e, c) \<Longrightarrow> data_run n pe pc (xs @ ys) = data_run k e c ys"
  by (induction n pe pc xs rule: data_run.induct) (auto split: if_splits)

lemma pieces_run_1:
  "data_run 0 (-1) (-1) ranges_1 = Some (48, 246595583, 106350847)"
  "data_run 48 246595583 106350847 ranges_2 = Some (96, 388575231, 113068543)"
  "data_run 96 388575231 113068543 ranges_3 = Some (144, 395309311, 117141247)"
  "data_run 144 395309311 117141247 ranges_4 = Some (192, 435161087, 139833343)"
  "data_run 192 435161087 139833343 ranges_5 = Some (240, 738493439, 286731007)"
  "data_run 240 738493439 286731007 ranges_6 = Some (288, 758661119, 290652415)"
  "data_run 288 758661119 290652415 ranges_7 = Some (336, 845217791, 350063615)"
  "data_run 336 845217791 350063615 ranges_8 = Some (384, 995191807, 383101183)"
  "data_run 384 995191807 383101183 ranges_9 = Some (432, 1091698687, 472507903)"
  "data_run 432 1091698687 472507903 ranges_10 = Some (480, 1155137535, 532833279)"
  "data_run 480 1155137535 532833279 ranges_11 = Some (528, 1224191999, 598002943)"
  "data_run 528 1224191999 598002943 ranges_12 = Some (576, 1334378495, 703449087)"
  "data_run 576 1334378495 703449087 ranges_13 = Some (624, 1475493887, 840474367)"
  "data_run 624 1475493887 840474367 ranges_14 = Some (672, 1589575679, 951824639)"
  "data_run 672 1589575679 951824639 ranges_15 = Some (720, 1719712767, 1068378623)"
  "data_run 720 1719712767 1068378623 ranges_16 = Some (768, 1750966271, 1089673727)"
  "data_run 768 1750966271 1089673727 ranges_17 = Some (816, 1760443903, 1095564799)"
  "data_run 816 1760443903 1095564799 ranges_18 = Some (864, 1823161855, 1146940415)"
  "data_run 864 1823161855 1146940415 ranges_19 = Some (912, 1950089215, 1266904831)"
  "data_run 912 1950089215 1266904831 ranges_20 = Some (960, 2032500735, 1340482559)"
  "data_run 960 2032500735 1340482559 ranges_21 = Some (1008, 2160066559, 1432472575)"
  "data_run 1008 2160066559 1432472575 ranges_22 = Some (1056, 2181103615, 1437269247)"
  "data_run 1056 2181103615 1437269247 ranges_23 = Some (1104, 2197946367, 1441573887)"
  "data_run 1104 2197946367 1441573887 ranges_24 = Some (1152, 2227765247, 1447172351)"
  by code_simp+

lemma pieces_run_2:
  "data_run 1152 2227765247 1447172351 ranges_25 = Some (1200, 2250113023, 1454589695)"
  "data_run 1200 2250113023 1454589695 ranges_26 = Some (1248, 2267545599, 1460757503)"
  "data_run 1248 2267545599 1460757503 ranges_27 = Some (1296, 2298478591, 1467929343)"
  "data_run 1296 2298478591 1467929343 ranges_28 = Some (1344, 2313617407, 1473096703)"
  "data_run 1344 2313617407 1473096703 ranges_29 = Some (1392, 2335440895, 1481539583)"
  "data_run 1392 2335440895 1481539583 ranges_30 = Some (1440, 2359558143, 1490490879)"
  "data_run 1440 2359558143 1490490879 ranges_31 = Some (1488, 2375012351, 1495982847)"
  "data_run 1488 2375012351 1495982847 ranges_32 = Some (1536, 2392195071, 1505685247)"
  "data_run 1536 2392195071 1505685247 ranges_33 = Some (1584, 2411753471, 1513139455)"
  "data_run 1584 2411753471 1513139455 ranges_34 = Some (1632, 2429026303, 1519667199)"
  "data_run 1632 2429026303 1519667199 ranges_35 = Some (1680, 2456420351, 1528082174)"
  "data_run 1680 2456420351 1528082174 ranges_36 = Some (1728, 2471879935, 1536474366)"
  "data_run 1728 2471879935 1536474366 ranges_37 = Some (1776, 2493306879, 1545139966)"
  "data_run 1776 2493306879 1545139966 ranges_38 = Some (1824, 2510222335, 1555854078)"
  "data_run 1824 2510222335 1555854078 ranges_39 = Some (1872, 2528542719, 1562957822)"
  "data_run 1872 2528542719 1562957822 ranges_40 = Some (1920, 2554429439, 1578610430)"
  "data_run 1920 2554429439 1578610430 ranges_41 = Some (1968, 2602631167, 1615033598)"
  "data_run 1968 2602631167 1615033598 ranges_42 = Some (2016, 2621702143, 1623819006)"
  "data_run 2016 2621702143 1623819006 ranges_43 = Some (2064, 2645491711, 1638636798)"
  "data_run 2064 2645491711 1638636798 ranges_44 = Some (2112, 2665173503, 1646393086)"
  "data_run 2112 2665173503 1646393086 ranges_45 = Some (2160, 2684419327, 1657208318)"
  "data_run 2160 2684419327 1657208318 ranges_46 = Some (2208, 2703163391, 1666710782)"
  "data_run 2208 2703163391 1666710782 ranges_47 = Some (2256, 2721031679, 1675524094)"
  "data_run 2256 2721031679 1675524094 ranges_48 = Some (2304, 2745630719, 1689108478)"
  by code_simp+

lemma pieces_run_3:
  "data_run 2304 2745630719 1689108478 ranges_49 = Some (2352, 2765617663, 1698145534)"
  "data_run 2352 2765617663 1698145534 ranges_50 = Some (2400, 2788360191, 1708994046)"
  "data_run 2400 2788360191 1708994046 ranges_51 = Some (2448, 2815715327, 1728085502)"
  "data_run 2448 2815715327 1728085502 ranges_52 = Some (2496, 2848391167, 1741156606)"
  "data_run 2496 2848391167 1741156606 ranges_53 = Some (2544, 2886729727, 1766026750)"
  "data_run 2544 2886729727 1766026750 ranges_54 = Some (2592, 2937716735, 1805843454)"
  "data_run 2592 2937716735 1805843454 ranges_55 = Some (2640, 3059580927, 1923483646)"
  "data_run 2640 3059580927 1923483646 ranges_56 = Some (2688, 3156377599, 2013686526)"
  "data_run 2688 3156377599 2013686526 ranges_57 = Some (2736, 3227326463, 2080971518)"
  "data_run 2736 3227326463 2080971518 ranges_58 = Some (2784, 3237244927, 2088883710)"
  "data_run 2784 3237244927 2088883710 ranges_59 = Some (2832, 3259105279, 2106841854)"
  "data_run 2832 3259105279 2106841854 ranges_60 = Some (2880, 3284598783, 2129340924)"
  "data_run 2880 3284598783 2129340924 ranges_61 = Some (2928, 3329490943, 2171044860)"
  "data_run 2928 3329490943 2171044860 ranges_62 = Some (2976, 3346399231, 2182654716)"
  "data_run 2976 3346399231 2182654716 ranges_63 = Some (3024, 3389849599, 2221386492)"
  "data_run 3024 3389849599 2221386492 ranges_64 = Some (3072, 3405641727, 2233867772)"
  "data_run 3072 3405641727 2233867772 ranges_65 = Some (3120, 3429343487, 2254671100)"
  "data_run 3120 3429343487 2254671100 ranges_66 = Some (3168, 3456892927, 2271052540)"
  "data_run 3168 3456892927 2271052540 ranges_67 = Some (3216, 3488120831, 2291128828)"
  "data_run 3216 3488120831 2291128828 ranges_68 = Some (3264, 3527294975, 2327190524)"
  "data_run 3264 3527294975 2327190524 ranges_69 = Some (3312, 3569426431, 2366556156)"
  "data_run 3312 3569426431 2366556156 ranges_70 = Some (3360, 3680567295, 2441977084)"
  "data_run 3360 3680567295 2441977084 ranges_71 = Some (3383, 3758096127, 2513580796)"
  by code_simp+

lemmas pieces_run = pieces_run_1 pieces_run_2 pieces_run_3


lemma builtin_run: "data_run 0 (-1) (-1) builtin_words = Some (3383, 3758096127, 2513580796)"
  unfolding builtin_words_def by (simp only: pieces_run pieces_run[THEN data_run_append])

end
