(* ===== verification/Sampling.thy ===== *)
theory Sampling
  imports Portspec
begin

unbundle bit_operations_syntax

text \<open>
  The samplers end to end: what \<open>random_ip\<close> and \<open>random_port\<close> return when their configuration was
  written by \<^verbatim>\<open>compile-targets.py\<close> and read back by \<open>load_range_cfg\<close>, or parsed by
  \<open>make_port_ranges\<close>; and what they do with the value \<open>gen_rand32\<close> returns when \<open>open\<close> fails.
\<close>

section \<open>Fields of a compiled configuration\<close>

lemma wf_ranges_le: "wf_ranges rs \<Longrightarrow> \<forall>(s, e) \<in> set rs. s \<le> e"
  by (auto simp: wf_ranges_def)

lemma addrs_nonempty: "wf_ranges rs \<Longrightarrow> rs \<noteq> [] \<Longrightarrow> 0 < length (addrs rs)"
  by (cases rs) (auto simp: addrs_def wf_ranges_def)

lemma csw_cfg_max:
  assumes "wf_ranges rs" "rs \<noteq> []"
  shows "cfg_max_idx (csw_cfg rs) = word_of_nat (length (addrs rs) - 1)"
  using csw_data_tot[OF wf_ranges_le[OF assms(1)], of 0] addrs_nonempty[OF assms]
  by (simp add: csw_cfg_def to_u32_def length_addrs case_prod_unfold Let_def of_nat_diff)

lemma csw_cfg_mask:
  "wf_ranges rs \<Longrightarrow> cfg_mask (csw_cfg rs) = mask (binmask_bits (int (sum_list (widths rs))) 0)"
  using csw_data_tot[OF wf_ranges_le, of rs 0]
  by (simp add: csw_cfg_def get_binmask_mask case_prod_unfold Let_def)

lemma csp_cfg_mask:
  "wf_ports ps \<Longrightarrow> cfg_mask (csp_cfg ps) = mask (binmask_bits (int (sum_list (weights ps))) 0)"
  using csp_data_tot[of ps 0]
  by (force simp add: wf_ports_def csp_cfg_def get_binmask_mask case_prod_unfold Let_def)

lemma ports_nonempty: "wf_ports ps \<Longrightarrow> ps \<noteq> [] \<Longrightarrow> 0 < length (port_list ps)"
  by (cases ps) (auto simp: port_list_def wf_ports_def)

lemma csp_cfg_max:
  assumes "wf_ports ps" "ps \<noteq> []"
  shows "cfg_max_idx (csp_cfg ps) = word_of_nat (length (port_list ps) - 1)"
proof -
  have "\<forall>(p, w) \<in> set ps. 0 \<le> w" using assms(1) by (force simp: wf_ports_def)
  from csp_data_tot[OF this, of 0] ports_nonempty[OF assms] show ?thesis
    by (simp add: csp_cfg_def to_u32_def length_port_list case_prod_unfold Let_def of_nat_diff)
qed

lemma le_last_iff:
  "0 < n \<Longrightarrow> n \<le> 2 ^ 32 \<Longrightarrow> (r \<le> (word_of_nat (n - 1) :: u32)) \<longleftrightarrow> unat r < n"
  by (cases n) (auto simp: word_le_nat_alt unat_of_nat_u32 simp del: of_nat_Suc)

lemma csw_accept:
  "wf_ranges rs \<Longrightarrow> rs \<noteq> [] \<Longrightarrow> (r \<le> cfg_max_idx (csw_cfg rs)) \<longleftrightarrow> unat r < length (addrs rs)"
  using le_last_iff[OF addrs_nonempty, of rs r] csw.spec_bound[of rs] by (simp add: csw_cfg_max)

lemma csp_accept:
  "wf_ports ps \<Longrightarrow> ps \<noteq> [] \<Longrightarrow>
     (r \<le> cfg_max_idx (csp_cfg ps)) \<longleftrightarrow> unat r < length (port_list ps)"
  using le_last_iff[OF ports_nonempty, of ps r] csp.spec_bound[of ps] by (simp add: csp_cfg_max)

text \<open>The ranges are disjoint, so no address is listed twice.\<close>

lemma distinct_to_u32: "0 \<le> s \<Longrightarrow> e < 2 ^ 32 \<Longrightarrow> distinct (map to_u32 [s..e])"
  by (auto simp: distinct_map inj_on_def to_u32_def word_of_int_eq_iff take_bit_int_eq_self)

lemma addrs_values:
  assumes "wf_ranges rs" "a \<in> set (addrs rs)"
  shows "\<exists>(s, e) \<in> set rs. s \<le> uint a \<and> uint a \<le> e"
proof -
  obtain s e x where x: "(s, e) \<in> set rs" "s \<le> x" "x \<le> e" "a = to_u32 x"
    using assms(2) by (auto simp: addrs_def)
  then have "uint a = x"
    using assms(1) by (force simp: wf_ranges_def to_u32_def uint_word_of_int)
  with x show ?thesis by auto
qed

lemma distinct_addrs: "wf_ranges rs \<Longrightarrow> distinct (addrs rs)"
proof (induction rs)
  case (Cons r rs)
  obtain s e where r: "r = (s, e)" by force
  have wf: "wf_ranges rs" and se: "0 \<le> s" "e < 2 ^ 32"
    and after: "\<forall>(s', e') \<in> set rs. e < s'"
    using Cons.prems r by (auto simp: wf_ranges_def)
  have "uint (to_u32 x) = x" if "x \<in> {s..e}" for x
    using that se by (simp add: to_u32_def uint_word_of_int)
  then have "a \<notin> set (map to_u32 [s..e])" if "a \<in> set (addrs rs)" for a
    using addrs_values[OF wf that] after by fastforce
  moreover have "addrs (r # rs) = map to_u32 [s..e] @ addrs rs" by (simp add: addrs_def r)
  ultimately show ?case using Cons.IH[OF wf] distinct_to_u32[OF se] by auto
qed (simp add: addrs_def)

lemma count_distinct: "distinct xs \<Longrightarrow> count_list xs x = (if x \<in> set xs then 1 else 0)"
  by (induction xs) auto

lemma gen_rand32_bound:
  assumes "gen_rand32 g msk mx ret0 fd w = Some (r, fd', w')" and "fd' \<noteq> -1"
  shows "r \<le> mx"
  using assms gen_rand32_loop_bound
  by (fastforce simp: gen_rand32_def Let_def split: prod.splits if_splits)

lemma gen_rand32_open_fails:
  assumes "rng_open g w = (-1, w')"
  shows "gen_rand32 g msk mx ret0 0 w = Some (- 1, -1, w')"
  using assms by (simp add: gen_rand32_def to_u32_def)

section \<open>Addresses\<close>

lemma address_count:
  assumes "wf_ranges rs" and "rs \<noteq> []"
  shows "card {raw. raw AND cfg_mask (csw_cfg rs) \<le> cfg_max_idx (csw_cfg rs) \<and>
             random_ip_at (csw_cfg rs) (raw AND cfg_mask (csw_cfg rs)) = Some a}
           = (if a \<in> set (addrs rs)
              then 2 ^ (32 - binmask_bits (int (length (addrs rs))) 0) else 0)"
  using csw.raw_count[OF assms(1), of a] distinct_addrs[OF assms(1)]
  by (simp add: csw_accept[OF assms] csw_cfg_mask[OF assms(1)] length_addrs distinct_addrs count_list_0_iff count_distinct)

text \<open>C12: every address is equally likely. For a range file compiled from sorted, disjoint ranges,
  each address of the ranges is selected by exactly \<open>2 ^ (32 - b)\<close> of the 32-bit words the device can
  deliver, where \<open>b\<close> is the number of bits of the mask: the rejection of \<open>gen_rand32\<close> and the binary
  search of \<open>random_ip\<close> together keep the distribution uniform, and no other address is selected.\<close>

theorem random_ip_uniform:
  assumes "wf_ranges rs" and "rs \<noteq> []"
  shows "card {raw. raw AND cfg_mask (csw_cfg rs) \<le> cfg_max_idx (csw_cfg rs) \<and>
             random_ip_at (csw_cfg rs) (raw AND cfg_mask (csw_cfg rs)) = Some a}
           = (if a \<in> set (addrs rs)
              then 2 ^ (32 - binmask_bits (int (length (addrs rs))) 0) else 0)"
  using assms by (rule address_count)

lemma example_ranges: "wf_ranges [(10, 12), (20, 20)]"
  by (simp add: wf_ranges_def)

theorem random_ip_uniform_witness:
  "card {raw. raw AND cfg_mask (csw_cfg [(10, 12), (20, 20)]) \<le> cfg_max_idx (csw_cfg [(10, 12), (20, 20)]) \<and>
      random_ip_at (csw_cfg [(10, 12), (20, 20)])
        (raw AND cfg_mask (csw_cfg [(10, 12), (20, 20)])) = Some 20} = 2 ^ 30"
proof -
  have "addrs [(10, 12), (20, 20)] = [10, 11, 12, 20]" by code_simp
  moreover have "binmask_bits 4 0 = 2" by code_simp
  ultimately show ?thesis
    using random_ip_uniform[OF example_ranges, of 20] by simp
qed

text \<open>C13: whatever the device delivers, when \<open>gen_rand32\<close> returns an index (and the device could be
  opened), \<open>random_ip\<close> on a compiled configuration reads inside its table and returns the address
  with that index.\<close>

theorem random_ip_in_ranges:
  assumes "wf_ranges rs" "rs \<noteq> []"
    and "gen_rand32 g (cfg_mask (csw_cfg rs)) (cfg_max_idx (csw_cfg rs)) ret0 fd w = Some (r, fd', w')"
    and "fd' \<noteq> -1"
  shows "unat r < length (addrs rs) \<and>
    random_ip g (csw_cfg rs) ret0 fd w = Some (addrs rs ! unat r, fd', w')"
proof -
  have "unat r < length (addrs rs)"
    using gen_rand32_bound[OF assms(3,4)] csw_accept[OF assms(1,2)] by simp
  with random_ip_at_nth[OF assms(1)] assms(3) show ?thesis by (simp add: random_ip_def)
qed

theorem random_ip_in_ranges_witness:
  "random_ip (stream_rng 5) (csw_cfg [(10, 12), (20, 20)]) 0 0 (\<lambda>n. 7)
     = Some (20, 5, \<lambda>n. 7)"
proof -
  have a: "addrs [(10, 12), (20, 20)] = [10, 11, 12, 20]" by code_simp
  have c: "cfg_mask (csw_cfg [(10, 12), (20, 20)]) = 3" "cfg_max_idx (csw_cfg [(10, 12), (20, 20)]) = 3"
    by code_simp+
  have "gen_rand32 (stream_rng 5) 3 3 0 0 (\<lambda>n. 7) = Some (3, 5, \<lambda>n. 7)"
    using gen_rand32_loop_stream[of "\<lambda>n. 7" 0 3 3 5 5 0]
    by (simp add: gen_rand32_def stream_rng_def)
  with random_ip_in_ranges[OF example_ranges, of "stream_rng 5" 0 0 "\<lambda>n. 7" 3 5 "\<lambda>n. 7"] a c
  show ?thesis by simp
qed

text \<open>C14: \<open>gen_rand32\<close> returns exactly when the device delivers an acceptable word at all, and then
  returns the first one; if every word is rejected the loop never ends.\<close>

theorem gen_rand32_first_acceptable:
  assumes "d \<noteq> 0" "d \<noteq> -1"
  shows "gen_rand32 (stream_rng d) msk mx ret0 d src =
    (if \<exists>n. src n AND msk \<le> mx
     then let n = LEAST n. src n AND msk \<le> mx in Some (src n AND msk, d, \<lambda>k. src (Suc n + k))
     else None)"
proof (cases "\<exists>n. src n AND msk \<le> mx")
  case True
  define n where "n = (LEAST n. src n AND msk \<le> mx)"
  have "src n AND msk \<le> mx" unfolding n_def using True by (rule LeastI_ex)
  moreover have "mx < src i AND msk" if "i < n" for i
    using not_less_Least[OF that[unfolded n_def]] by simp
  ultimately have "gen_rand32_loop (stream_rng d) msk mx d ret0 src
      = Some (src n AND msk, \<lambda>k. src (Suc n + k))"
    by (rule gen_rand32_loop_stream)
  with True assms show ?thesis by (simp add: gen_rand32_def n_def[symmetric])
next
  case False
  then have "mx < src i AND msk" for i by (simp add: not_le)
  from gen_rand32_loop_diverges[of mx src msk, OF this] False assms show ?thesis
    by (simp add: gen_rand32_def)
qed

theorem gen_rand32_first_acceptable_witness:
  "gen_rand32 (stream_rng 5) 3 2 0 5 (\<lambda>n. if n = 0 then 7 else 5) = Some (1, 5, \<lambda>n. 5)"
proof -
  let ?src = "\<lambda>n::nat. if n = 0 then 7 else 5 :: u32"
  have "(LEAST n. ?src n AND 3 \<le> 2) = 1"
    by (rule Least_equality) (auto split: if_splits)
  moreover have "?src 1 AND 3 \<le> 2" by simp
  ultimately show ?thesis
    using gen_rand32_first_acceptable[of 5 3 2 0 ?src] by (simp add: Let_def) blast
qed

text \<open>C15: when \<^verbatim>\<open>/dev/urandom\<close> cannot be opened, \<open>gen_rand32\<close> returns its error code \<open>-1\<close> as the random
  number, and \<open>random_ip\<close>, which does not check it, searches past the last entry of any table that
  does not span the whole address space and reads outside \<open>ranges[]\<close>.\<close>

theorem random_ip_urandom_missing:
  assumes "wf_ranges rs" "length (addrs rs) < 2 ^ 32" and "rng_open g w = (-1, w')"
  shows "random_ip g (csw_cfg rs) ret0 0 w = None"
proof -
  have "random_ip_at (csw_cfg rs) (-1) = None"
  proof (rule random_ip_at_beyond[OF csw_table_ok[OF assms(1)]])
    show "cfg_num (csw_cfg rs) = int (length (widths rs))"
      by (simp add: csw_cfg_def widths_def case_prod_unfold Let_def)
    show "sum_list (widths rs) \<le> unat (-1 :: u32)"
      using assms(2) by (simp add: length_addrs unsigned_minus_1_eq_mask mask_eq_exp_minus_1)
  qed
  with gen_rand32_open_fails[OF assms(3)] show ?thesis by (simp add: random_ip_def)
qed

theorem random_ip_urandom_missing_witness:
  "random_ip \<lparr>rng_open = (\<lambda>w :: unit. (-1, w)), rng_read = (\<lambda>_ ret w. (ret, w))\<rparr>
     (csw_cfg [(10, 12), (20, 20)]) 0 0 () = None"
proof -
  have "addrs [(10, 12), (20, 20)] = [10, 11, 12, 20]" by code_simp
  then show ?thesis
    using random_ip_urandom_missing[OF example_ranges,
      of "\<lparr>rng_open = (\<lambda>w :: unit. (-1, w)), rng_read = (\<lambda>_ ret w. (ret, w))\<rparr>" "()" "()" 0]
    by simp
qed

section \<open>The compiled file\<close>

lemma csw_data_bounds:
  assumes "wf_ranges rs" "rs \<noteq> []"
  shows "\<forall>x \<in> set (fst (csw_data 0 rs)). 0 \<le> x \<and> x < 2 ^ 32"
proof
  note le = wf_ranges_le[OF assms(1)]
  fix x assume "x \<in> set (fst (csw_data 0 rs))"
  then obtain j where j: "j < 2 * length rs" "x = fst (csw_data 0 rs) ! j"
    by (auto simp: in_set_conv_nth length_csw_data)
  define i where "i = j div 2"
  have i: "i < length rs" using j by (simp add: i_def)
  have "0 < sum_list (take (Suc i) (widths rs))"
    using le i by (intro sum_take_pos) (auto simp: widths_def)
  moreover have "sum_list (take (Suc i) (widths rs)) \<le> 2 ^ 32"
    using sum_take_mono[of "Suc i" "length rs" "widths rs"] i wf_ranges_sum[OF assms(1)]
    by (simp add: widths_def)
  moreover have "0 \<le> snd (rs ! i) \<and> snd (rs ! i) < 2 ^ 32"
    using assms(1) nth_mem[OF i] by (force simp: wf_ranges_def)
  moreover have "j = 2 * i \<or> j = 2 * i + 1" by (auto simp: i_def)
  ultimately show "0 \<le> x \<and> x < 2 ^ 32" using csw_data_nth[OF le i, of 0] j by auto
qed

lemma get_binmask_bounds: "0 \<le> get_binmask n \<and> (n \<le> 2 ^ 32 \<longrightarrow> get_binmask n < 2 ^ 32)"
proof -
  have "n \<le> 2 ^ 32 \<Longrightarrow> (2::int) ^ binmask_bits n 0 \<le> 2 ^ 32"
    by (intro power_increasing binmask_bits_le) simp_all
  with binmask_loop_bits[of n 0] show ?thesis by (simp add: get_binmask_def) linarith
qed

lemma write_csw_Some:
  assumes "wf_ranges rs" "rs \<noteq> []"
  shows "\<exists>bs. write_csw rs = Some bs \<and> length bs = 12 + 8 * length rs"
proof -
  obtain d tot where d: "csw_data 0 rs = (d, tot)" by force
  have "tot = int (sum_list (widths rs))"
    using csw_data_tot[OF wf_ranges_le[OF assms(1)], of 0] d by simp
  then have t: "0 < tot" "tot \<le> 2 ^ 32"
    using addrs_nonempty[OF assms] wf_ranges_sum[OF assms(1)] by (simp_all add: length_addrs)
  have "int (length rs) < 2 ^ 32" using assms(1) by (simp add: wf_ranges_def)
  moreover have "length d = 2 * length rs" using length_csw_data[of 0 rs] d by simp
  moreover have "length (concat (map (\<lambda>x. le32 (to_u32 x)) xs)) = 4 * length xs" for xs
    by (induction xs) auto
  ultimately show ?thesis
    using csw_data_bounds[OF assms] get_binmask_bounds[of tot] t d
    by (simp add: write_csw_def pack_I_def)
qed

text \<open>C16: the two tools agree. For sorted, disjoint ranges \<^verbatim>\<open>compile-targets.py\<close> writes a file, and
  \<open>load_range_cfg\<close> reads it back (given the memory) to a configuration in which index \<open>r\<close> selects the
  \<open>r\<close>-th address of the ranges.\<close>

theorem compile_load_sample:
  assumes "wf_ranges rs" "rs \<noteq> []"
    and "malloc (unat (12 + word_of_int (int (length rs) * 2) * 4 :: u64))"
  shows "\<exists>bs cfg. write_csw rs = Some bs \<and> length bs = 12 + 8 * length rs \<and>
    load_range_cfg malloc heap (Some bs) = Some (Ptr cfg) \<and>
    (\<forall>r. unat r < length (addrs rs) \<longrightarrow> random_ip_at cfg r = Some (addrs rs ! unat r))"
proof -
  obtain bs where bs: "write_csw rs = Some bs" "length bs = 12 + 8 * length rs"
    using write_csw_Some[OF assms(1,2)] by blast
  have "length rs < 2 ^ 30" using assms(1) by (simp add: wf_ranges_def)
  then have "load_range_cfg malloc heap (Some bs) = Some (Ptr (csw_cfg rs))"
    by (rule load_write_csw[OF bs(1), where malloc = malloc, OF _ assms(3)])
  with bs random_ip_at_nth[OF assms(1)] show ?thesis by blast
qed

theorem compile_load_sample_witness:
  "\<exists>bs cfg. write_csw [(10, 12), (20, 20)] = Some bs \<and>
    load_range_cfg (\<lambda>_. True) (\<lambda>_. 0) (Some bs) = Some (Ptr cfg) \<and>
    random_ip_at cfg 3 = Some 20"
proof -
  have "addrs [(10, 12), (20, 20)] = [10, 11, 12, 20]" by code_simp
  then show ?thesis
    using compile_load_sample[OF example_ranges, of "\<lambda>_. True" "\<lambda>_. 0"] by fastforce
qed

text \<open>C17: \<open>load_range_cfg\<close> gives a configuration for every prefix of a compiled file that holds its
  first word, so a truncated file is not refused: the words past the end of the file are whatever
  the fresh block held.\<close>

lemma load_short:
  assumes "0 \<le> n" "n < 2 ^ 30" "length bs = 4" "get_le32 bs = Some (to_u32 n, [])"
    and "malloc (unat (12 + word_of_int (n * 2) * 4 :: u64))"
  shows "load_range_cfg malloc heap (Some bs) = Some (Ptr \<lparr>cfg_num = n, cfg_max_idx = heap 1,
    cfg_mask = heap 2, cfg_ranges = map (\<lambda>i. heap (3 + i)) [0..<nat (n * 2)]\<rparr>)"
proof -
  have "int_ok n" "int_ok (n * 2)" using assms(1,2) by (simp_all add: int_ok_def)
  with assms load_size[OF assms(1,2)] show ?thesis
    by (simp add: load_range_cfg_def to_int32_to_u32 Let_def get_le32_def freadle_def)
qed

theorem load_truncated_accepted:
  assumes "write_csw rs = Some bs" "length rs < 2 ^ 30"
    and "malloc (unat (12 + word_of_int (int (length rs) * 2) * 4 :: u64))"
  shows "load_range_cfg malloc heap (Some (take 4 bs)) =
    Some (Ptr \<lparr>cfg_num = int (length rs), cfg_max_idx = heap 1, cfg_mask = heap 2,
      cfg_ranges = map (\<lambda>i. heap (3 + i)) [0..<2 * length rs]\<rparr>)"
proof -
  have "bs = concat (map le32 (map to_u32 (int (length rs) # tl
      ([int (length rs), snd (csw_data 0 rs) - 1, get_binmask (snd (csw_data 0 rs))]
        @ fst (csw_data 0 rs)))))"
    using pack_I_words assms(1) by (fastforce simp: write_csw_def case_prod_unfold Let_def)
  then have t: "take 4 bs = le32 (to_u32 (int (length rs)))" by simp
  have "nat (int (length rs) * 2) = 2 * length rs" by (simp add: nat_mult_distrib)
  moreover have "get_le32 (take 4 bs) = Some (to_u32 (int (length rs)), [])"
    unfolding t by (rule le32.dec_enc_end) simp
  ultimately show ?thesis
    using load_short[of "int (length rs)" "take 4 bs" malloc heap] assms(2,3) t by simp
qed

theorem load_truncated_accepted_witness:
  "\<exists>bs. write_csw [(10, 12), (20, 20)] = Some bs \<and>
    load_range_cfg (\<lambda>_. True) (\<lambda>_. 9) (Some (take 4 bs)) =
      Some (Ptr \<lparr>cfg_num = 2, cfg_max_idx = 9, cfg_mask = 9, cfg_ranges = [9, 9, 9, 9]\<rparr>)"
proof -
  obtain bs where "write_csw [(10, 12), (20, 20)] = Some bs"
    using write_csw_Some[OF example_ranges] by auto
  moreover have "[0..<2 * length [(10 :: int, 12 :: int), (20, 20)]] = [0, 1, 2, 3]" by code_simp
  ultimately show ?thesis
    using load_truncated_accepted[of "[(10, 12), (20, 20)]" bs "\<lambda>_. True" "\<lambda>_. 9"] by auto
qed

section \<open>Ports\<close>

lemma spec_ok_wf_ports:
  "spec_ok ps \<Longrightarrow> \<forall>(p, w) \<in> set ps. 0 < w \<Longrightarrow> wf_ports ps"
  by (auto simp: spec_ok_def wf_ports_def)

text \<open>C18: a portspec \<open>p1:w1,p2:w2,\<dots>\<close> with positive weights gives port \<open>p\<close> in proportion to its total
  weight: with \<open>b\<close> mask bits, the number of device words that select \<open>p\<close> is its weight times
  \<open>2 ^ (32 - b)\<close>. The weights may add up to \<open>2 ^ 30\<close>.\<close>

theorem portspec_weighted:
  assumes "spec_ok ps" "ps \<noteq> []" "\<forall>(p, w) \<in> set ps. 0 < w"
    and "malloc (unat (12 + word_of_int (int (length ps) * 2) * 4 :: u64))"
  shows "\<exists>cfg. make_port_ranges malloc (render_spec ps) = Some (Ptr cfg) \<and>
    card {raw. raw AND cfg_mask cfg \<le> cfg_max_idx cfg \<and>
            random_port_at cfg (raw AND cfg_mask cfg) = Some p}
      = count_list (port_list ps) p * 2 ^ (32 - binmask_bits (int (length (port_list ps))) 0)"
proof -
  have wf: "wf_ports ps" using spec_ok_wf_ports[OF assms(1,3)] .
  have "make_port_ranges malloc (render_spec ps) = Some (Ptr (csp_cfg ps))"
    by (rule make_port_ranges_render[OF assms(1,2), where malloc = malloc, OF assms(4)])
  moreover have "card {raw. raw AND cfg_mask (csp_cfg ps) \<le> cfg_max_idx (csp_cfg ps) \<and>
      random_port_at (csp_cfg ps) (raw AND cfg_mask (csp_cfg ps)) = Some p}
    = count_list (port_list ps) p * 2 ^ (32 - binmask_bits (int (length (port_list ps))) 0)"
    using csp.raw_count[OF wf, of p]
    by (simp add: csp_accept[OF wf assms(2)] csp_cfg_mask[OF wf] length_port_list)
  ultimately show ?thesis by blast
qed

theorem portspec_weighted_witness:
  "\<exists>cfg. make_port_ranges (\<lambda>_. True) (render_spec [(80, 3), (443, 1)]) = Some (Ptr cfg) \<and>
    card {raw. raw AND cfg_mask cfg \<le> cfg_max_idx cfg \<and>
            random_port_at cfg (raw AND cfg_mask cfg) = Some 80} = 3 * 2 ^ 30"
proof -
  have p: "port_list [(80, 3), (443, 1)] = [80, 80, 80, 443]" by code_simp
  have b: "binmask_bits 4 0 = 2" by code_simp
  have c: "count_list [80, 80, 80, 443 :: int] 80 = 3" by simp
  have "spec_ok [(80, 3), (443, 1)]" by (simp add: spec_ok_def weights_def)
  from portspec_weighted[OF this, of "\<lambda>_. True" 80, unfolded p c] b show ?thesis by simp
qed

text \<open>A portspec that does not start with a number is not refused: \<open>make_port_ranges\<close> returns an
  empty configuration, not \<open>NULL\<close>, and \<open>random_port\<close> on it returns \<open>-1\<close> for every draw.\<close>

theorem portspec_unparsable:
  assumes "sscanf_dd portspec = Some (0, p, q)" "malloc 12" "d \<noteq> 0" "d \<noteq> -1"
  shows "\<exists>cfg. make_port_ranges malloc portspec = Some (Ptr cfg) \<and>
    random_port (stream_rng d) cfg ret0 d src = Some (-1, d, \<lambda>k. src (Suc k))"
proof -
  let ?cfg = "\<lparr>cfg_num = 0, cfg_max_idx = - 1, cfg_mask = 0, cfg_ranges = []\<rparr>"
  have "gen_rand32 (stream_rng d) 0 (- 1) ret0 d src = Some (0, d, \<lambda>k. src (Suc k))"
    using gen_rand32_loop_stream[of src 0 0 "- 1" d d ret0] assms(3,4) by (simp add: gen_rand32_def)
  then have "random_port (stream_rng d) ?cfg ret0 d src = Some (-1, d, \<lambda>k. src (Suc k))"
    by (simp add: random_port_def random_port_at_empty)
  moreover have "make_port_ranges malloc portspec = Some (Ptr ?cfg)"
    by (rule make_port_ranges_unparsable[where malloc = malloc, OF assms(1,2)])
  ultimately show ?thesis by blast
qed

theorem portspec_unparsable_witness:
  "\<exists>cfg. make_port_ranges (\<lambda>_. True) ''http'' = Some (Ptr cfg) \<and>
    random_port (stream_rng 5) cfg 0 5 (\<lambda>n. 7) = Some (-1, 5, \<lambda>k. 7)"
proof -
  have "sscanf_dd ''http'' = Some (0, None, None)" by code_simp
  from portspec_unparsable[OF this, of "\<lambda>_. True" 5 0 "\<lambda>n. 7"] show ?thesis by simp
qed

text \<open>A leading entry of weight \<open>0\<close> takes every draw: its bound \<open>sum-1\<close> is \<open>-1\<close>, stored unsigned as
  the largest index, so \<open>80:0,443:1\<close> gives port 80 only, although the weights say 443 only.\<close>

theorem portspec_leading_zero:
  assumes "spec_ok ((p, 0) # ps)"
    and "malloc (unat (12 + word_of_int (int (Suc (length ps)) * 2) * 4 :: u64))"
  shows "\<exists>cfg. make_port_ranges malloc (render_spec ((p, 0) # ps)) = Some (Ptr cfg) \<and>
    (\<forall>r. random_port_at cfg r = Some p)"
proof -
  let ?cfg = "csp_cfg ((p, 0) # ps)"
  have p: "0 \<le> p" "p < 2 ^ 31" using assms(1) by (simp_all add: spec_ok_def)
  have "make_port_ranges malloc (render_spec ((p, 0) # ps)) = Some (Ptr ?cfg)"
    by (rule make_port_ranges_render[OF assms(1), where malloc = malloc]) (use assms(2) in simp_all)
  moreover have "random_port_at ?cfg r = Some p" for r
  proof -
    obtain d where "cfg_ranges ?cfg = to_u32 p # - 1 # d"
      by (simp add: csp_cfg_def case_prod_unfold Let_def to_u32_def)
    moreover have "0 < cfg_num ?cfg" by (simp add: csp_cfg_def case_prod_unfold Let_def)
    ultimately show ?thesis using p
      by (simp add: random_port_at_def random_port_loop.simps arr_get_def in_arr_def int_ok_def
          to_int32_to_u32)
  qed
  ultimately show ?thesis by blast
qed

theorem portspec_leading_zero_witness:
  "\<exists>cfg. make_port_ranges (\<lambda>_. True) ''80:0,443:1'' = Some (Ptr cfg) \<and>
    (\<forall>r. random_port_at cfg r = Some 80)"
proof -
  have ok: "spec_ok [(80, 0), (443, 1)]" by (simp add: spec_ok_def weights_def)
  have "render_spec [(80, 0), (443, 1)] = ''80:0,443:1''" by code_simp
  with portspec_leading_zero[OF ok, of "\<lambda>_. True"] show ?thesis by simp
qed

end
