(* ===== verification/Builtin.thy ===== *)
theory Builtin
  imports Builtin_Data Sampling
begin

text \<open>
  What the table compiled into the program draws: it is a table as \<^verbatim>\<open>compile-targets.py\<close> writes them, so what
  Sampling shows of those holds for it, and all its ranges are outside the blocks of the presets.
\<close>

section \<open>The ranges behind the words\<close>

fun data_ranges :: "int \<Rightarrow> int \<Rightarrow> int list \<Rightarrow> (int \<times> int) list" where
  "data_ranges pe pc (e # c # xs) = (e - (c - pc - 1), e) # data_ranges e c xs"
| "data_ranges pe pc xs = []"

lemma data_run_ranges:
  "data_run n pe pc xs = Some (k, pe', pc') \<Longrightarrow>
    csw_data (pc + 1) (data_ranges pe pc xs) = (xs, pc' + 1) \<and> k = n + int (length (data_ranges pe pc xs)) \<and>
    pe \<le> pe' \<and> (\<forall>(s, e) \<in> set (data_ranges pe pc xs). pe < s \<and> s \<le> e \<and> e \<le> pe' \<and> routable s e) \<and>
    sorted_wrt (\<lambda>(s, e) (s', e'). e < s') (data_ranges pe pc xs)"
proof (induction n pe pc xs rule: data_run.induct)
  case (3 n pe pc e c xs)
  let ?s = "e - (c - pc - 1)" and ?rs = "data_ranges e c xs"
  from 3(2) have h: "pe < ?s" "pc < c" "routable ?s e" "data_run (n + 1) e c xs = Some (k, pe', pc')"
    by (auto split: if_splits)
  have ih: "csw_data (c + 1) ?rs = (xs, pc' + 1)" "k = n + 1 + int (length ?rs)"
    "e \<le> pe'" "\<forall>(s, e') \<in> set ?rs. e < s \<and> s \<le> e' \<and> e' \<le> pe' \<and> routable s e'"
    "sorted_wrt (\<lambda>(s, e) (s', e'). e < s') ?rs"
    using 3(1)[OF _ h(4)] h(1-3) by auto
  have t: "pc + 1 + (e - ?s + 1) = c + 1" by simp
  have "csw_data (pc + 1) ((?s, e) # ?rs) = (e # c # xs, pc' + 1)"
    unfolding csw_data.simps t by (simp add: ih(1))
  moreover have "\<forall>(s, e') \<in> set ((?s, e) # ?rs). pe < s \<and> s \<le> e' \<and> e' \<le> pe' \<and> routable s e'"
    using ih(3,4) h by fastforce
  moreover have "sorted_wrt (\<lambda>(s, e) (s', e'). e < s') ((?s, e) # ?rs)"
    using ih(4,5) by auto
  ultimately show ?case using ih(2,3) h by simp
qed auto

definition builtin_list :: "(int \<times> int) list" where
  "builtin_list = data_ranges (-1) (-1) builtin_words"

lemmas builtin_facts = data_run_ranges[OF builtin_run, folded builtin_list_def]

lemma builtin_wf: "wf_ranges builtin_list" "builtin_list \<noteq> []" "length builtin_list = 3383"
  using builtin_facts by (auto simp: wf_ranges_def)

lemma builtin_csw: "builtin_ranges = csw_cfg builtin_list"
proof -
  have "get_binmask 2513580797 = 4294967295" by code_simp
  then show ?thesis
    using builtin_facts builtin_wf(3) by (simp add: builtin_ranges_def csw_cfg_def to_u32_def)
qed

lemma builtin_count: "length (addrs builtin_list) = 2513580797"
proof -
  have "\<forall>(s, e) \<in> set builtin_list. s \<le> e" using builtin_wf(1) by (auto simp: wf_ranges_def)
  from csw_data_tot[OF this, of 0] show ?thesis using builtin_facts by (simp add: length_addrs)
qed

lemma builtin_routable:
  assumes "a \<in> set (addrs builtin_list)" "b \<in> set (reserved_blocks @ private_blocks)"
  shows "uint a < fst b \<or> snd b < uint a"
proof -
  obtain s e x where x: "(s, e) \<in> set builtin_list" "s \<le> x" "x \<le> e" "a = to_u32 x"
    using assms(1) by (auto simp: addrs_def)
  have "0 \<le> s" "e < 2 ^ 32" "routable s e" using x(1) builtin_facts by auto
  moreover have "uint a = x" using x calculation by (simp add: to_u32_def uint_word_of_int)
  moreover have "e < fst b \<or> snd b < s" using calculation(3) assms(2) unfolding routable_def by blast
  ultimately show ?thesis using x by linarith
qed

section \<open>The drawn addresses and ports\<close>

text \<open>C11: a scan with the tables of the program stays among the addresses it may scan. There are exactly 2513580797
  addresses the built-in table draws; each is drawn by exactly one word of the random device; each is outside every
  block of \<^verbatim>\<open>presets/reserved.txt\<close> and \<^verbatim>\<open>presets/private.txt\<close>, so that in particular none is \<open>0.0.0.0\<close>; and
  whatever the device delivers, when \<open>gen_rand32\<close> returns (and the device could be opened), \<open>random_ip\<close> stays
  inside the table and returns one of them.\<close>

theorem builtin_scan_public:
  "\<exists>A. card A = 2513580797 \<and> (\<forall>a \<in> A. \<forall>b \<in> set (reserved_blocks @ private_blocks). uint a < fst b \<or> snd b < uint a) \<and>
    (\<forall>a. card {raw. raw AND cfg_mask builtin_ranges \<le> cfg_max_idx builtin_ranges \<and>
        random_ip_at builtin_ranges (raw AND cfg_mask builtin_ranges) = Some a} = (if a \<in> A then 1 else 0)) \<and>
    (\<forall>j fd w r fd' w'. gen_rand32 g (cfg_mask builtin_ranges) (cfg_max_idx builtin_ranges) j fd w = Some (r, fd', w') \<longrightarrow>
        fd' \<noteq> -1 \<longrightarrow> (\<exists>a \<in> A. random_ip g builtin_ranges j fd w = Some (a, fd', w')))"
proof (intro exI[of _ "set (addrs builtin_list)"] conjI allI impI)
  show "card (set (addrs builtin_list)) = 2513580797"
    using distinct_card[OF distinct_addrs[OF builtin_wf(1)]] builtin_count by simp
  show "\<forall>a \<in> set (addrs builtin_list). \<forall>b \<in> set (reserved_blocks @ private_blocks). uint a < fst b \<or> snd b < uint a"
    using builtin_routable by blast
  have "binmask_bits 2513580797 0 = 32" by code_simp
  then show "card {raw. raw AND cfg_mask builtin_ranges \<le> cfg_max_idx builtin_ranges \<and>
      random_ip_at builtin_ranges (raw AND cfg_mask builtin_ranges) = Some a}
      = (if a \<in> set (addrs builtin_list) then 1 else 0)" for a
    unfolding builtin_csw using address_count[OF builtin_wf(1,2), of a] builtin_count by simp
next
  fix j fd w r fd' w'
  assume g: "gen_rand32 g (cfg_mask builtin_ranges) (cfg_max_idx builtin_ranges) j fd w = Some (r, fd', w')" "fd' \<noteq> -1"
  have r: "unat r < length (addrs builtin_list)"
    using gen_rand32_bound[OF g] csw_accept[OF builtin_wf(1,2), of r] unfolding builtin_csw by blast
  then show "\<exists>a \<in> set (addrs builtin_list). random_ip g builtin_ranges j fd w = Some (a, fd', w')"
    using g(1) random_ip_at_nth[OF builtin_wf(1) r] unfolding builtin_csw
    by (intro bexI[of _ "addrs builtin_list ! unat r"]) (simp_all add: random_ip_def)
qed

theorem builtin_scan_public_witness:
  "\<exists>a. random_ip (stream_rng 5) builtin_ranges 0 0 (\<lambda>n. 7) = Some (a, 5, \<lambda>n. 7) \<and>
    (\<forall>b \<in> set (reserved_blocks @ private_blocks). uint a < fst b \<or> snd b < uint a)"
proof -
  have c: "cfg_mask builtin_ranges = 4294967295" "cfg_max_idx builtin_ranges = 2513580796"
    by (simp_all add: builtin_ranges_def)
  have "gen_rand32 (stream_rng 5) 4294967295 2513580796 0 0 (\<lambda>n. 7) = Some (7, 5, \<lambda>n. 7)"
    using gen_rand32_loop_stream[of "\<lambda>n. 7" 0 4294967295 2513580796 5 5 0]
    by (simp add: gen_rand32_def stream_rng_def)
  then show ?thesis using builtin_scan_public[of "stream_rng 5"] unfolding c by fastforce
qed

text \<open>The port is always \<open>80\<close>.\<close>

lemma builtin_port:
  assumes "gen_rand32 g (cfg_mask builtin_ports) (cfg_max_idx builtin_ports) j fd w = Some (r, fd', w')" "fd' \<noteq> -1"
  shows "random_port g builtin_ports j fd w = Some (80, fd', w')"
proof -
  have "r = 0" using gen_rand32_bound[OF assms] by (simp add: builtin_ports_def)
  moreover have "random_port_at builtin_ports 0 = Some 80" by code_simp
  ultimately show ?thesis using assms(1) by (simp add: random_port_def)
qed

end
