(* ===== verification/Rfb.thy ===== *)
theory Rfb
  imports Module_Ctx
begin

unbundle bit_operations_syntax

text \<open>
  \<^verbatim>\<open>modules/rfb.c\<close>, the VNC probe: option parsing, the version negotiation, the walk over the offered
  security types (plain and through TLS) and the failure reason, in the control flow of \<open>check_vnc\<close>,
  each \<open>goto\<close> target a definition of its own. \<open>None\<close> is an access outside a buffer of the function
  (or a TLS loop that never ends).
\<close>

definition rfb_TLS :: byte where "rfb_TLS = 18"
definition rfb_VENCRYPT :: byte where "rfb_VENCRYPT = 19"

definition rfb_CONN_FAIL :: u32 where "rfb_CONN_FAIL = 1"
definition rfb_BANNER_FAIL :: u32 where "rfb_BANNER_FAIL = 2"
definition rfb_READ_FAIL :: u32 where "rfb_READ_FAIL = 3"
definition rfb_WRITE_FAIL :: u32 where "rfb_WRITE_FAIL = 4"
definition rfb_REASON :: u32 where "rfb_REASON = 5"
definition rfb_WIN :: u32 where "rfb_WIN = 6"
definition rfb_ONLY_TLS :: u32 where "rfb_ONLY_TLS = 7"
definition rfb_TLS_FAIL :: u32 where "rfb_TLS_FAIL = 8"
definition rfb_HAS_VENCRYPT :: u32 where "rfb_HAS_VENCRYPT = 9"

lemmas rfb_codes = rfb_CONN_FAIL_def rfb_BANNER_FAIL_def rfb_READ_FAIL_def rfb_WRITE_FAIL_def
  rfb_REASON_def rfb_WIN_def rfb_ONLY_TLS_def rfb_TLS_FAIL_def rfb_HAS_VENCRYPT_def

section \<open>Options\<close>

record rfb_cfg =
  rfb_on :: bool
  rfb_conn_timeout :: int
  rfb_read_timeout :: int

definition rfb_default :: rfb_cfg where
  "rfb_default = \<lparr>rfb_on = False, rfb_conn_timeout = 2000, rfb_read_timeout = 4500\<rparr>"

definition rfb_init :: "string \<Rightarrow> string \<Rightarrow> rfb_cfg \<Rightarrow> rfb_cfg option" where
  "rfb_init enabled cfg c = do {
     ct \<leftarrow> int_option ''rfb.conn_timeout='' cfg (rfb_conn_timeout c);
     rt \<leftarrow> int_option ''rfb.read_timeout='' cfg (rfb_read_timeout c);
     Some \<lparr>rfb_on = (strstr enabled ''rfb'' \<noteq> None), rfb_conn_timeout = ct, rfb_read_timeout = rt\<rparr>
   }"

section \<open>The version banner\<close>

text \<open>\<open>sscanf(version, "RFB %03d.%03d\n", \<dots>)\<close> with both conversions.\<close>

definition scan_version :: "byte list \<Rightarrow> (int \<times> int) option" where
  "scan_version v =
     (let s = map (\<lambda>b. char_of (unat b)) (takeWhile (\<lambda>b. b \<noteq> 0) v) in
      if \<not> starts_with ''RFB'' s then None
      else (case scan_dw 3 (drop 3 s) of
              Conv major (c # rest) \<Rightarrow>
                if c = CHR ''.'' then (case scan_dw 3 rest of Conv minor _ \<Rightarrow> Some (major, minor) | _ \<Rightarrow> None)
                else None
            | _ \<Rightarrow> None))"

definition negotiate :: "int \<Rightarrow> int \<Rightarrow> int \<times> int" where
  "negotiate major minor =
     (if major = 3 \<and> (minor = 14 \<or> minor = 16) then (major, minor - 10)
      else if major = 3 \<and> minor > 8 then (major, 8)
      else if major > 3 then (3, 8)
      else (major, minor))"

definition version_string :: "int \<Rightarrow> int \<Rightarrow> byte list" where
  "version_string major minor = ascii (''RFB '' @ fmt03 major @ ''.'' @ fmt03 minor @ [CHR 0x0A])"

section \<open>The failure reason\<close>

text \<open>\<open>ntohl\<close> of four bytes as \<open>int\<close>.\<close>

definition ntohl :: "byte list \<Rightarrow> u32" where
  "ntohl d = word_of_nat (le_dec (rev d))"

text \<open>\<open>MIN(len, 511)\<close> passed as \<open>size_t\<close>; what is read goes to \<open>reason_str[512]\<close>.\<close>

definition reason_size :: "u32 \<Rightarrow> nat" where
  "reason_size len = (let l = to_int32 len; m = (if l < 511 then l else 511) in unat (word_of_int m :: u64))"

definition vnc_read_reason ::
  "'w env \<Rightarrow> tsocket \<Rightarrow> u64 \<Rightarrow> int \<Rightarrow> 'w mctx \<Rightarrow> (int \<times> 'w mctx) option" where
  "vnc_read_reason en ts deadline ret cx = do {
     (ok, d, cx) \<leftarrow> mx_read en ts 4 deadline cx;
     if \<not> ok then mx_fail en ts rfb_READ_FAIL ret cx
     else do {
       (ok, d, cx) \<leftarrow> mx_read en ts (reason_size (ntohl d)) deadline cx;
       if 512 < length d then None
       else if \<not> ok then mx_fail en ts rfb_READ_FAIL ret cx
       else do {
         cx \<leftarrow> mx_call en (C_code rfb_REASON) cx;
         cx \<leftarrow> mx_call en (C_str (ascii ''Error: '' @ takeWhile (\<lambda>b. b \<noteq> 0) d)) cx;
         mx_exit en ts ret cx
       }
     }
   }"

section \<open>The security types\<close>

text \<open>
  The two loops over \<open>count\<close> types. \<open>Inl\<close> is a \<open>goto\<close> out of the function, with its result; \<open>Inr\<close> is
  the end of the loop, with \<open>has_nontls\<close>.
\<close>

fun vnc_types :: "'w env \<Rightarrow> tsocket \<Rightarrow> u64 \<Rightarrow> nat \<Rightarrow> bool \<Rightarrow> 'w mctx
    \<Rightarrow> ((int \<times> 'w mctx) + (bool \<times> 'w mctx)) option" where
  "vnc_types en ts deadline 0 nontls cx = Some (Inr (nontls, cx))"
| "vnc_types en ts deadline (Suc n) nontls cx = do {
     (ok, d, cx) \<leftarrow> mx_read en ts 1 deadline cx;
     if \<not> ok then map_option Inl (mx_fail en ts rfb_READ_FAIL 0 cx)
     else let atype = hd d in
       if atype = 1 then do {
         cx \<leftarrow> mx_call en (C_bit rfb_WIN) cx;
         map_option Inl (mx_exit en ts 1 cx)
       } else do {
         cx \<leftarrow> (if atype = rfb_VENCRYPT then mx_call en (C_bit rfb_HAS_VENCRYPT) cx else Some cx);
         vnc_types en ts deadline n (nontls \<or> atype \<noteq> rfb_TLS) cx
       }
   }"

fun vnc_tls_types :: "'w env \<Rightarrow> tsocket \<Rightarrow> u64 \<Rightarrow> nat \<Rightarrow> 'w mctx \<Rightarrow> (int \<times> 'w mctx) option" where
  "vnc_tls_types en ts deadline 0 cx = mx_exit en ts 0 cx"
| "vnc_tls_types en ts deadline (Suc n) cx = do {
     (ok, d, cx) \<leftarrow> mx_read en ts 1 deadline cx;
     if \<not> ok then mx_fail en ts rfb_READ_FAIL 0 cx
     else if hd d = 1 then do {
       cx \<leftarrow> mx_call en (C_bit rfb_WIN) cx;
       mx_exit en ts 1 cx
     } else vnc_tls_types en ts deadline n cx
   }"

text \<open>The part behind \<open>if (!has_nontls)\<close>.\<close>

definition vnc_tls :: "'w env \<Rightarrow> tsocket \<Rightarrow> u64 \<Rightarrow> 'w mctx \<Rightarrow> (int \<times> 'w mctx) option" where
  "vnc_tls en ts deadline cx = do {
     cx \<leftarrow> mx_call en (C_bit rfb_ONLY_TLS) cx;
     let deadline = deadline + 1000;
     (ok, cx) \<leftarrow> mx_write en ts [rfb_TLS] deadline cx;
     if \<not> ok then mx_fail en ts rfb_WRITE_FAIL 0 cx
     else do {
       (r, ts, w) \<leftarrow> ts_go_tls (en_os en) (en_tls en) ts deadline (mx_world cx);
       let cx = cx\<lparr>mx_world := w\<rparr>;
       if r = 0 then mx_fail en ts rfb_TLS_FAIL 0 cx
       else do {
         (ok, d, cx) \<leftarrow> mx_read en ts 1 deadline cx;
         if \<not> ok then mx_fail en ts rfb_READ_FAIL 0 cx
         else if hd d = 0 then vnc_read_reason en ts deadline 0 cx
         else vnc_tls_types en ts deadline (unat (hd d)) cx
       }
     }
   }"

text \<open>From the version reply on; protocol 3.7 and later, and the earlier ones.\<close>

definition vnc_security :: "'w env \<Rightarrow> tsocket \<Rightarrow> u64 \<Rightarrow> 'w mctx \<Rightarrow> (int \<times> 'w mctx) option" where
  "vnc_security en ts deadline cx = do {
     (ok, d, cx) \<leftarrow> mx_read en ts 1 deadline cx;
     if \<not> ok then mx_fail en ts rfb_READ_FAIL (-1) cx
     else if hd d = 0 then vnc_read_reason en ts deadline (-1) cx
     else do {
       r \<leftarrow> vnc_types en ts deadline (unat (hd d)) False cx;
       (case r of Inl res \<Rightarrow> Some res
        | Inr (nontls, cx) \<Rightarrow> if nontls then mx_exit en ts 0 cx else vnc_tls en ts deadline cx)
     }
   }"

definition vnc_old :: "'w env \<Rightarrow> tsocket \<Rightarrow> u64 \<Rightarrow> 'w mctx \<Rightarrow> (int \<times> 'w mctx) option" where
  "vnc_old en ts deadline cx = do {
     (ok, d, cx) \<leftarrow> mx_read en ts 4 deadline cx;
     if \<not> ok then mx_fail en ts rfb_READ_FAIL (-1) cx
     else if ntohl d = 1 then do {
       cx \<leftarrow> mx_call en (C_bit rfb_WIN) cx;
       mx_exit en ts 1 cx
     } else if ntohl d = 0 then vnc_read_reason en ts deadline 0 cx
     else mx_exit en ts 0 cx
   }"

text \<open>From the connected socket on.\<close>

definition vnc_session :: "'w env \<Rightarrow> tsocket \<Rightarrow> u64 \<Rightarrow> 'w mctx \<Rightarrow> (int \<times> 'w mctx) option" where
  "vnc_session en ts deadline cx = do {
     (ok, d, cx) \<leftarrow> mx_read en ts 12 deadline cx;
     if \<not> ok then mx_exit en ts (-1) cx
     else (case scan_version d of
       None \<Rightarrow> do {
         cx \<leftarrow> mx_call en (C_code rfb_BANNER_FAIL) cx;
         cx \<leftarrow> mx_call en (C_data d) cx;
         mx_exit en ts (-1) cx
       }
     | Some (major, minor) \<Rightarrow>
         let (major, minor) = negotiate major minor; v = version_string major minor in
         if 16 \<le> length v then None
         else do {
           (ok, cx) \<leftarrow> mx_write en ts (take 12 v) deadline cx;
           if \<not> ok then mx_fail en ts rfb_WRITE_FAIL (-1) cx
           else if major = 3 \<and> minor > 6 then vnc_security en ts deadline cx
           else vnc_old en ts deadline cx
         })
   }"

text \<open>\<open>junk\<close> is what the uninitialised \<open>tsocket\<close> holds; a result of \<open>-2\<close> is not tested for.\<close>

definition check_vnc ::
  "'w env \<Rightarrow> bool \<Rightarrow> u32 \<Rightarrow> int \<Rightarrow> int \<Rightarrow> int \<Rightarrow> 'w mctx \<Rightarrow> (int \<times> 'w mctx) option" where
  "check_vnc en junk ip port conn_timeout read_timeout cx =
     (let (sock, w) = socket4_connect (en_os en) ip port conn_timeout (mx_world cx); cx = cx\<lparr>mx_world := w\<rparr> in
      if sock = -1
      then map_option (\<lambda>cx. (-1, cx)) (mx_call en (C_bit rfb_CONN_FAIL) cx)
      else let (ts, _, w) = ts_socket (en_os en) junk sock (mx_world cx);
               (now, w) = os_ms (en_os en) w
           in vnc_session en ts (now + word_of_int read_timeout) (cx\<lparr>mx_world := w\<rparr>))"

definition rfb_result ::
  "'w env \<Rightarrow> rfb_cfg \<Rightarrow> bool \<Rightarrow> u32 \<Rightarrow> int \<Rightarrow> 'w mctx \<Rightarrow> 'w mctx option" where
  "rfb_result en c junk ip port cx =
     (if \<not> rfb_on c then Some cx
      else do {
        cx \<leftarrow> mx_call en (C_head (ascii ''rfb'')) cx;
        cx \<leftarrow> mx_call en (C_defer (url_of 64 ''vnc://'' ip port)) cx;
        (r, cx) \<leftarrow> check_vnc en junk ip port (rfb_conn_timeout c) (rfb_read_timeout c) cx;
        Some cx
      })"

section \<open>Version negotiation\<close>

lemma length_ascii [simp]: "length (ascii s) = length s"
  by (simp add: ascii_def)

lemma scan_version_bounds:
  assumes "scan_version v = Some (major, minor)"
  shows "-100 < major \<and> major < 1000 \<and> -100 < minor \<and> minor < 1000"
proof -
  obtain s1 r1 s2 r2 where "scan_dw 3 s1 = Conv major r1" "scan_dw 3 s2 = Conv minor r2"
    using assms by (auto simp: scan_version_def Let_def split: if_splits conv.splits list.splits)
  then show ?thesis using scan_dw3_bounds by blast
qed

text \<open>C30: whatever banner the server sends, when it parses the reply is twelve characters, so it
  fits \<open>version[16]\<close> and is what the twelve bytes written hold, and announces at most version 3.8.\<close>

theorem negotiated_version:
  assumes "scan_version v = Some (major, minor)" and "negotiate major minor = (ma, mi)"
  shows "length (version_string ma mi) = 12 \<and> ma \<le> 3 \<and> (ma = 3 \<longrightarrow> mi \<le> 8)"
proof -
  note b = scan_version_bounds[OF assms(1)]
  have "-100 < ma \<and> ma < 1000 \<and> -100 < mi \<and> mi < 1000 \<and> ma \<le> 3 \<and> (ma = 3 \<longrightarrow> mi \<le> 8)"
    using assms(2) b by (auto simp: negotiate_def split: if_splits)
  then show ?thesis by (simp add: version_string_def length_fmt03)
qed

theorem negotiated_version_witness:
  "scan_version (ascii ''RFB 003.889'' @ [10]) = Some (3, 889) \<and>
   version_string 3 8 = ascii ''RFB 003.008'' @ [10] \<and> length (version_string 3 8) = 12"
proof -
  have s: "scan_version (ascii ''RFB 003.889'' @ [10]) = Some (3, 889)" by code_simp
  have "version_string 3 8 = ascii ''RFB 003.008'' @ [10]" by code_simp
  with s negotiated_version[OF s, of 3 8] show ?thesis by (simp add: negotiate_def)
qed

section \<open>The reason buffer\<close>

lemma reason_size_small:
  assumes "0 \<le> to_int32 len"
  shows "reason_size len \<le> 511"
proof -
  have "unat (word_of_int m :: u64) = nat m" if "0 \<le> m" "m \<le> 511" for m :: int
    using that by (simp add: unat_eq_nat_uint uint_word_of_int)
  then show ?thesis using assms by (auto simp: reason_size_def Let_def)
qed

lemma reason_size_large:
  assumes "to_int32 len < 0"
  shows "2 ^ 63 \<le> reason_size len"
proof -
  have b: "- (2 ^ 31) \<le> to_int32 len"
    using sint_greater_eq[of len] by (simp add: to_int32_def)
  have "uint (word_of_int (to_int32 len) :: u64) = to_int32 len mod 2 ^ 64" by (simp add: uint_word_of_int)
  also have "\<dots> = (to_int32 len + 2 ^ 64) mod 2 ^ 64" by simp
  also have "\<dots> = to_int32 len + 2 ^ 64" using assms b by (intro mod_pos_pos_trivial) simp_all
  finally have "2 ^ 63 \<le> uint (word_of_int (to_int32 len) :: u64)" using b by simp
  then have "nat (2 ^ 63) \<le> nat (uint (word_of_int (to_int32 len) :: u64))" by (rule nat_mono)
  then have "2 ^ 63 \<le> unat (word_of_int (to_int32 len) :: u64)" by simp
  then show ?thesis using assms by (simp add: reason_size_def Let_def)
qed

lemma read_reason_None:
  assumes ssl: "\<not> ts_is_ssl ts" and b: "reads_bounded (en_os en) (en_tls en)" and good: "mx_good en cx"
    and none: "vnc_read_reason en ts deadline ret cx = None"
  shows "\<exists>d w. read_all (en_os en) (ts_fd ts) 4 deadline (mx_world cx) = (True, d, w) \<and> to_int32 (ntohl d) < 0"
proof (rule mx_read_plain[OF ssl, of en 4 deadline cx])
  fix ok d w
  assume r1: "mx_read en ts 4 deadline cx = Some (ok, d, cx\<lparr>mx_world := w\<rparr>)"
    and w: "read_all (en_os en) (ts_fd ts) 4 deadline (mx_world cx) = (ok, d, w)"
  let ?cx = "cx\<lparr>mx_world := w\<rparr>"
  have g: "mx_good en ?cx" using good by simp
  have ok: ok using none r1 mx_fail_good[OF g, of ts rfb_READ_FAIL ret]
    by (cases ok) (auto simp: vnc_read_reason_def)
  show ?thesis
  proof (rule ccontr)
    assume "\<not> ?thesis"
    then have "0 \<le> to_int32 (ntohl d)" using w ok by auto
    then have small: "reason_size (ntohl d) \<le> 511" by (rule reason_size_small)
    show False
    proof (rule mx_read_plain[OF ssl, of en "reason_size (ntohl d)" deadline ?cx])
      fix ok2 d2 w2
      assume "mx_read en ts (reason_size (ntohl d)) deadline ?cx = Some (ok2, d2, ?cx\<lparr>mx_world := w2\<rparr>)"
      then have r2: "mx_read en ts (reason_size (ntohl d)) deadline ?cx = Some (ok2, d2, cx\<lparr>mx_world := w2\<rparr>)"
        by simp
      have len: "length d2 \<le> 511" using mx_read_bound[OF b r2] small by simp
      have g2: "mx_good en (cx\<lparr>mx_world := w2\<rparr>)" using good by simp
      have ok2: ok2 using none r1 ok r2 len mx_fail_good[OF g2, of ts rfb_READ_FAIL ret]
        by (cases ok2) (auto simp: vnc_read_reason_def)
      obtain c1 where c1: "mx_call en (C_code rfb_REASON) (cx\<lparr>mx_world := w2\<rparr>) = Some c1" "mx_good en c1"
        using mx_call_good[OF g2, of "C_code rfb_REASON"] by auto
      have "length (takeWhile (\<lambda>b. b \<noteq> 0) d2) \<le> 511"
        using len length_takeWhile_le[of "\<lambda>b. b \<noteq> 0" d2] by simp
      then have "call_safe (C_str (ascii ''Error: '' @ takeWhile (\<lambda>b. b \<noteq> 0) d2))"
        by (simp add: CBA_MAXBUFF_def)
      then obtain c2 where "mx_call en (C_str (ascii ''Error: '' @ takeWhile (\<lambda>b. b \<noteq> 0) d2)) c1 = Some c2"
        using mx_call_good[OF c1(2)] by blast
      then show False using none r1 ok r2 len ok2 c1 by (simp add: vnc_read_reason_def mx_exit_def)
    qed
  qed
qed

text \<open>C23: the stack overflow. A server that announces a failure reason of negative length (as \<open>int\<close>)
  and sends more than 512 bytes writes past \<open>reason_str\<close>: \<open>MIN(len, 511)\<close> is the negative length, and
  as \<open>size_t\<close> it is no bound at all.\<close>

theorem vnc_reason_overflow:
  assumes "\<not> ts_is_ssl ts"
    and "read_all (en_os en) (ts_fd ts) 4 deadline (mx_world cx) = (True, d, w)" and "to_int32 (ntohl d) < 0"
    and "read_all (en_os en) (ts_fd ts) (reason_size (ntohl d)) deadline w = (ok, r, w')" and "512 < length r"
  shows "2 ^ 63 \<le> reason_size (ntohl d) \<and> vnc_read_reason en ts deadline ret cx = None"
  using assms reason_size_large[OF assms(3)]
  by (simp add: vnc_read_reason_def mx_read_def ts_read_all_is_read_all[OF assms(1)])

abbreviation (input) peer_bytes :: "byte list \<Rightarrow> peer" where
  "peer_bytes d \<equiv> \<lparr>pe_in = [d], pe_eof = True, pe_out = [], pe_mss = 100, pe_conn = None,
     pe_fds = {0, 1, 2}, pe_now = 0\<rparr>"

abbreviation (input) plain_env :: "peer env" where
  "plain_env \<equiv> \<lparr>en_os = peer_os, en_tls = None, en_file = True\<rparr>"

theorem vnc_reason_overflow_witness:
  "vnc_read_reason plain_env \<lparr>ts_fd = 3, ts_is_ssl = False\<rparr> 100 (-1)
     \<lparr>mx_world = peer_bytes ([0xFF, 0xFF, 0xFF, 0xFF] @ replicate 600 0x41), mx_cba = cba_thread_init 1, mx_io = []\<rparr> = None"
proof -
  define r where "r = replicate 600 (0x41 :: byte)"
  have r: "length r = 600" by (simp only: r_def length_replicate)
  let ?d = "[0xFF, 0xFF, 0xFF, 0xFF] :: byte list"
  let ?w = "peer_bytes (?d @ r)"
  have t: "0 < towait 100 0" by code_simp
  have "ntohl ?d = - 1" by (simp add: ntohl_def)
  then have n: "to_int32 (ntohl ?d) < 0" by (simp add: to_int32_def)
  have big: "600 \<le> reason_size (ntohl ?d)" using reason_size_large[OF n] by simp
  obtain ss where r1: "read_all peer_os 3 4 100 ?w = (True, ?d, ?w\<lparr>pe_in := ss\<rparr>)"
    "concat ss = r" "[] \<notin> set ss"
    using read_all_loop_peer[of ?w 100 "[]" 4 3] t by (auto simp: read_all_def)
  obtain ss' where r2: "read_all peer_os 3 (reason_size (ntohl ?d)) 100 (?w\<lparr>pe_in := ss\<rparr>)
      = (reason_size (ntohl ?d) \<le> 600, r, ?w\<lparr>pe_in := ss'\<rparr>)"
    using read_all_loop_peer[of "?w\<lparr>pe_in := ss\<rparr>" 100 "[]" "reason_size (ntohl ?d)" 3] t big r1 r
    by (auto simp: read_all_def)
  show ?thesis
    using vnc_reason_overflow[of "\<lparr>ts_fd = 3, ts_is_ssl = False\<rparr>" plain_env 100
        "\<lparr>mx_world = ?w, mx_cba = cba_thread_init 1, mx_io = []\<rparr>" ?d "?w\<lparr>pe_in := ss\<rparr>"
        "reason_size (ntohl ?d) \<le> 600" r "?w\<lparr>pe_in := ss'\<rparr>" "-1"] r1 r2 n r
    unfolding r_def[symmetric] by simp
qed

section \<open>Everything else is safe\<close>

lemma mx_call_bit: "mx_good en cx \<Longrightarrow>
    \<exists>cx'. mx_call en (C_bit code) cx = Some cx' \<and> mx_good en cx' \<and> mx_world cx' = mx_world cx"
  by (rule mx_call_good[of en cx "C_bit code"]) auto

lemma vnc_types_good:
  assumes "\<not> ts_is_ssl ts" "mx_good en cx"
  shows "\<exists>r. vnc_types en ts deadline n nontls cx = Some r \<and> (\<forall>nt cx'. r = Inr (nt, cx') \<longrightarrow> mx_good en cx')"
  using assms
proof (induction n arbitrary: nontls cx)
  case (Suc n)
  obtain ok d w where r: "mx_read en ts 1 deadline cx = Some (ok, d, cx\<lparr>mx_world := w\<rparr>)"
    by (rule mx_read_plain[OF Suc.prems(1)])
  let ?cx = "cx\<lparr>mx_world := w\<rparr>"
  have g: "mx_good en ?cx" using Suc.prems by simp
  show ?case
  proof (cases ok)
    case False
    with r mx_fail_good[OF g, of ts rfb_READ_FAIL 0] show ?thesis by auto
  next
    case ok: True
    obtain c1 where c1: "mx_call en (C_bit rfb_WIN) ?cx = Some c1" using mx_call_bit[OF g] by blast
    obtain c2 where c2: "(if hd d = rfb_VENCRYPT then mx_call en (C_bit rfb_HAS_VENCRYPT) ?cx else Some ?cx) = Some c2"
      "mx_good en c2" using mx_call_bit[OF g, of rfb_HAS_VENCRYPT] g by (cases "hd d = rfb_VENCRYPT") auto
    from Suc.IH[OF Suc.prems(1) c2(2), of "nontls \<or> hd d \<noteq> rfb_TLS"] r ok c1 c2(1)
    show ?thesis by (auto simp: mx_exit_def Let_def)
  qed
qed simp

lemma vnc_tls_None_good:
  assumes "\<not> ts_is_ssl ts" "mx_good en cx" "en_tls en = None"
  shows "vnc_tls en ts deadline cx \<noteq> None"
proof -
  obtain c1 where c1: "mx_call en (C_bit rfb_ONLY_TLS) cx = Some c1" "mx_good en c1"
    using mx_call_bit[OF assms(2)] by blast
  obtain ok w where w: "mx_write en ts [rfb_TLS] (deadline + 1000) c1 = Some (ok, c1\<lparr>mx_world := w\<rparr>)"
    by (rule mx_write_plain[OF assms(1)])
  have g: "mx_good en (c1\<lparr>mx_world := w\<rparr>)" using c1(2) by simp
  show ?thesis using c1 w assms(3) mx_fail_good[OF g]
    by (cases ok) (auto simp: vnc_tls_def ts_go_tls_def)
qed


text \<open>An operating system whose reads are all \<open>1\<close> bytes.\<close>

abbreviation (input) ones_os :: "peer os" where
  "ones_os \<equiv> peer_os\<lparr>os_read := (\<lambda>fd n w. (Some (replicate n 1), w))\<rparr>"


section \<open>The verdict\<close>

text \<open>The server still has the bytes \<open>s\<close> to send, and nothing has failed so far.\<close>

definition serving :: "peer mctx \<Rightarrow> byte list \<Rightarrow> u64 \<Rightarrow> bool" where
  "serving cx s now \<longleftrightarrow> mx_good plain_env cx \<and> [] \<notin> set (pe_in (mx_world cx)) \<and>
     concat (pe_in (mx_world cx)) = s \<and> pe_now (mx_world cx) = now \<and> 0 < pe_mss (mx_world cx)"

lemma mx_read_serving:
  assumes "\<not> ts_is_ssl ts" "serving cx (xs @ rest) now" "0 < towait deadline now" "length xs = n"
  shows "\<exists>cx'. mx_read plain_env ts n deadline cx = Some (True, xs, cx') \<and> serving cx' rest now \<and>
    pe_out (mx_world cx') = pe_out (mx_world cx)"
proof -
  obtain ss where "read_all peer_os (ts_fd ts) n deadline (mx_world cx) = (True, xs, (mx_world cx)\<lparr>pe_in := ss\<rparr>)"
    "concat ss = rest" "[] \<notin> set ss"
    using read_all_loop_peer[of "mx_world cx" deadline "[]" n "ts_fd ts"] assms
    by (auto simp: read_all_def serving_def)
  then show ?thesis using assms(2)
    by (auto simp: mx_read_def ts_read_all_is_read_all[OF assms(1)] serving_def)
qed

lemma mx_call_serving:
  assumes "serving cx s now" "call_safe c"
  shows "\<exists>cx'. mx_call plain_env c cx = Some cx' \<and> serving cx' s now \<and> mx_world cx' = mx_world cx"
proof -
  obtain cx' where "mx_call plain_env c cx = Some cx'" "mx_good plain_env cx'" "mx_world cx' = mx_world cx"
    by (rule mx_call_good[of plain_env cx c]) (use assms in \<open>auto simp: serving_def\<close>)
  with assms(1) show ?thesis by (auto simp: serving_def)
qed

lemma mx_write_serving:
  assumes "\<not> ts_is_ssl ts" "serving cx s now" "0 < towait deadline now"
  shows "\<exists>cx'. mx_write plain_env ts b deadline cx = Some (True, cx') \<and> serving cx' s now \<and>
    pe_out (mx_world cx') = pe_out (mx_world cx) @ b"
  using ts_write_loop_peer[of deadline "mx_world cx" 0 b ts] assms
  by (auto simp: mx_write_def ts_write_all_def ts_ssl_def serving_def)

lemma vnc_types_serving:
  assumes "\<not> ts_is_ssl ts" "serving cx (types @ rest) now" "0 < towait deadline now"
  shows "\<exists>cx'. (if 1 \<in> set types then vnc_types plain_env ts deadline (length types) nontls cx = Some (Inl (1, cx'))
      else vnc_types plain_env ts deadline (length types) nontls cx
          = Some (Inr (nontls \<or> (\<exists>t \<in> set types. t \<noteq> rfb_TLS), cx')) \<and> serving cx' rest now) \<and>
    pe_out (mx_world cx') = pe_out (mx_world cx)"
  using assms(2)
proof (induction types arbitrary: nontls cx)
  case (Cons t types)
  obtain c1 where c1: "mx_read plain_env ts 1 deadline cx = Some (True, [t], c1)"
    "serving c1 (types @ rest) now" "pe_out (mx_world c1) = pe_out (mx_world cx)"
    using mx_read_serving[OF assms(1) _ assms(3), of cx "[t]" "types @ rest" 1] Cons.prems by auto
  show ?case
  proof (cases "t = 1")
    case True
    obtain c2 where "mx_call plain_env (C_bit rfb_WIN) c1 = Some c2" "mx_world c2 = mx_world c1"
      using mx_call_serving[OF c1(2), of "C_bit rfb_WIN"] by auto
    with True c1 show ?thesis by (simp add: mx_exit_def ts_close_def ts_ssl_def)
  next
    case False
    obtain c2 where c2: "(if t = rfb_VENCRYPT then mx_call plain_env (C_bit rfb_HAS_VENCRYPT) c1 else Some c1)
        = Some c2" "serving c2 (types @ rest) now" "mx_world c2 = mx_world c1"
      using mx_call_serving[OF c1(2), of "C_bit rfb_HAS_VENCRYPT"] c1(2) by (cases "t = rfb_VENCRYPT") auto
    from Cons.IH[OF c2(2), of "nontls \<or> t \<noteq> rfb_TLS"] False c1 c2 show ?thesis
      by (auto simp: Let_def)
  qed
qed auto

lemma vnc_tls_serving:
  assumes "\<not> ts_is_ssl ts" "serving cx s now" "0 < towait (deadline + 1000) now"
  shows "\<exists>cx'. vnc_tls plain_env ts deadline cx = Some (0, cx') \<and>
    pe_out (mx_world cx') = pe_out (mx_world cx) @ [rfb_TLS]"
proof -
  obtain c1 where c1: "mx_call plain_env (C_bit rfb_ONLY_TLS) cx = Some c1" "serving c1 s now"
    "mx_world c1 = mx_world cx" using mx_call_serving[OF assms(2), of "C_bit rfb_ONLY_TLS"] by auto
  obtain c2 where c2: "mx_write plain_env ts [rfb_TLS] (deadline + 1000) c1 = Some (True, c2)"
    "serving c2 s now" "pe_out (mx_world c2) = pe_out (mx_world c1) @ [rfb_TLS]"
    using mx_write_serving[OF assms(1) c1(2) assms(3)] by blast
  obtain c3 where "mx_call plain_env (C_bit rfb_TLS_FAIL) c2 = Some c3" "mx_world c3 = mx_world c2"
    using mx_call_serving[OF c2(2), of "C_bit rfb_TLS_FAIL"] by auto
  with c1 c2 show ?thesis
    by (auto simp: vnc_tls_def ts_go_tls_def mx_fail_def mx_exit_def ts_close_def ts_ssl_def)
qed

text \<open>C21: the verdict of the probe. A server that announces version 3.7 or later and then \<open>n\<close>
  security types, cut into segments in any way, is reported open (\<open>1\<close>) exactly when type 1 (no
  authentication) is among them, and otherwise \<open>0\<close>; the probe answers with the negotiated version, and
  asks for TLS exactly when TLS is all there is (in a build without TLS that attempt then fails).\<close>

theorem vnc_verdict:
  assumes "serving cx (banner @ [word_of_nat (length types)] @ types @ rest) now"
    and "length banner = 12" "scan_version banner = Some (major, minor)"
    and "negotiate major minor = (3, mi)" "6 < mi" "types \<noteq> []" "length types < 256"
    and "0 < towait deadline now" "0 < towait (deadline + 1000) now" "\<not> ts_is_ssl ts"
  shows "\<exists>cx'. vnc_session plain_env ts deadline cx = Some (if 1 \<in> set types then 1 else 0, cx') \<and>
    pe_out (mx_world cx') = pe_out (mx_world cx) @ version_string 3 mi @
      (if \<forall>t \<in> set types. t = rfb_TLS then [rfb_TLS] else [])"
proof -
  note bd = scan_version_bounds[OF assms(3)]
  have v: "length (version_string 3 mi) = 12"
    using bd assms(4) by (auto simp: negotiate_def version_string_def length_fmt03 split: if_splits)
  obtain c1 where c1: "mx_read plain_env ts 12 deadline cx = Some (True, banner, c1)"
    "serving c1 ([word_of_nat (length types)] @ types @ rest) now"
    "pe_out (mx_world c1) = pe_out (mx_world cx)"
    using mx_read_serving[OF assms(10) _ assms(8)] assms(1,2) by blast
  obtain c2 where c2: "mx_write plain_env ts (version_string 3 mi) deadline c1 = Some (True, c2)"
    "serving c2 ([word_of_nat (length types)] @ types @ rest) now"
    "pe_out (mx_world c2) = pe_out (mx_world c1) @ version_string 3 mi"
    using mx_write_serving[OF assms(10) c1(2) assms(8)] by blast
  obtain c3 where c3: "mx_read plain_env ts 1 deadline c2 = Some (True, [word_of_nat (length types)], c3)"
    "serving c3 (types @ rest) now" "pe_out (mx_world c3) = pe_out (mx_world c2)"
    using mx_read_serving[OF assms(10) c2(2) assms(8), of 1] by auto
  have cnt: "unat (word_of_nat (length types) :: byte) = length types"
    "(word_of_nat (length types) :: byte) \<noteq> 0"
    using assms(6,7) by (simp_all add: len8_zero)
  have "vnc_session plain_env ts deadline cx = vnc_security plain_env ts deadline c2"
    using c1 c2 v assms(3-5) by (simp add: vnc_session_def)
  moreover have "vnc_security plain_env ts deadline c2 = do {
      r \<leftarrow> vnc_types plain_env ts deadline (length types) False c3;
      (case r of Inl res \<Rightarrow> Some res
       | Inr (nontls, cx) \<Rightarrow> if nontls then mx_exit plain_env ts 0 cx else vnc_tls plain_env ts deadline cx) }"
    using c3 cnt by (simp add: vnc_security_def)
  moreover obtain c4 where c4: "if 1 \<in> set types
      then vnc_types plain_env ts deadline (length types) False c3 = Some (Inl (1, c4))
      else vnc_types plain_env ts deadline (length types) False c3
          = Some (Inr (\<exists>t \<in> set types. t \<noteq> rfb_TLS, c4)) \<and> serving c4 rest now"
    "pe_out (mx_world c4) = pe_out (mx_world c3)"
    using vnc_types_serving[OF assms(10) c3(2) assms(8), of False] by (simp only: simp_thms) blast
  moreover have "rfb_TLS \<noteq> 1" by (simp add: rfb_TLS_def)
  moreover obtain c5 where "1 \<notin> set types \<Longrightarrow> vnc_tls plain_env ts deadline c4 = Some (0, c5) \<and>
      pe_out (mx_world c5) = pe_out (mx_world c4) @ [rfb_TLS]"
    using vnc_tls_serving[OF assms(10) _ assms(9), of c4 rest] c4 by (cases "1 \<in> set types") auto
  ultimately show ?thesis using c1(3) c2(3) c3(3) assms(6)
    by (cases "1 \<in> set types"; cases "\<exists>t \<in> set types. t \<noteq> rfb_TLS")
      (auto simp: mx_exit_def ts_close_def ts_ssl_def)
qed

theorem vnc_verdict_witness:
  "\<exists>cx'. vnc_session plain_env \<lparr>ts_fd = 3, ts_is_ssl = False\<rparr> 100
     \<lparr>mx_world = peer_bytes (ascii ''RFB 003.008'' @ [10, 2, 18, 1]), mx_cba = cba_thread_init 1, mx_io = []\<rparr>
     = Some (1, cx')"
proof -
  let ?b = "ascii ''RFB 003.008'' @ [10]"
  let ?cx = "\<lparr>mx_world = peer_bytes (ascii ''RFB 003.008'' @ [10, 2, 18, 1]), mx_cba = cba_thread_init 1, mx_io = []\<rparr>"
  have "serving ?cx (?b @ [word_of_nat (length [18, 1 :: byte])] @ [18, 1] @ []) 0"
    using wr_rel_init[of 1] by (auto simp: serving_def mx_good_def ascii_def)
  moreover have "scan_version ?b = Some (3, 8)" by code_simp
  moreover have "length ?b = 12" by (simp add: ascii_def)
  moreover have "negotiate 3 8 = (3, 8)" by (simp add: negotiate_def)
  moreover have "0 < towait 100 0" "0 < towait (100 + 1000) 0" by code_simp+
  ultimately show ?thesis
    using vnc_verdict[of ?cx ?b "[18, 1]" "[]" 0 3 8 8 100 "\<lparr>ts_fd = 3, ts_is_ssl = False\<rparr>"] by simp blast
qed

end
