(* ===== verification/X11.thy ===== *)
theory X11
  imports Module_Ctx
begin

text \<open>
  \<^verbatim>\<open>modules/x11.c\<close>, the X11 probe: it writes a connection setup request, and reports the server as open
  when the first byte of the reply is \<open>1\<close>, with a second code telling whether the protocol version
  looked right.
\<close>

definition x11_HELLO :: "byte list" where
  "x11_HELLO = [0x6c, 0, 0x0b, 0, 0, 0, 0, 0, 0, 0, 0, 0]"

definition x11_CONN_FAIL :: u32 where "x11_CONN_FAIL = 1"
definition x11_READ_FAIL :: u32 where "x11_READ_FAIL = 2"
definition x11_WRITE_FAIL :: u32 where "x11_WRITE_FAIL = 3"
definition x11_GOOD :: u32 where "x11_GOOD = 4"
definition x11_KINDA_GOOD :: u32 where "x11_KINDA_GOOD = 5"

record x11_cfg =
  x11_on :: bool
  x11_conn_timeout :: int
  x11_read_timeout :: int

definition x11_default :: x11_cfg where
  "x11_default = \<lparr>x11_on = False, x11_conn_timeout = 2000, x11_read_timeout = 4000\<rparr>"

definition x11_init :: "string \<Rightarrow> string \<Rightarrow> x11_cfg \<Rightarrow> x11_cfg option" where
  "x11_init enabled cfg c = do {
     ct \<leftarrow> int_option ''x11.conn_timeout='' cfg (x11_conn_timeout c);
     rt \<leftarrow> int_option ''x11.read_timeout='' cfg (x11_read_timeout c);
     Some \<lparr>x11_on = (strstr enabled ''x11'' \<noteq> None), x11_conn_timeout = ct, x11_read_timeout = rt\<rparr>
   }"

text \<open>From the connected socket on; \<open>ret\<close> is never assigned.\<close>

definition x11_session :: "'w env \<Rightarrow> tsocket \<Rightarrow> u64 \<Rightarrow> 'w mctx \<Rightarrow> (int \<times> 'w mctx) option" where
  "x11_session en ts deadline cx = do {
     (ok, cx) \<leftarrow> mx_write en ts x11_HELLO deadline cx;
     if \<not> ok then mx_fail en ts x11_WRITE_FAIL (-1) cx
     else do {
       (ok, d, cx) \<leftarrow> mx_read en ts 1 deadline cx;
       if \<not> ok then mx_fail en ts x11_READ_FAIL (-1) cx
       else if hd d \<noteq> 1 then mx_exit en ts (-1) cx
       else do {
         (ok, v, cx) \<leftarrow> mx_read en ts 5 deadline cx;
         cx \<leftarrow> mx_call en (C_bit (if ok \<and> v ! 1 = 11 then x11_GOOD else x11_KINDA_GOOD)) cx;
         mx_exit en ts (-1) cx
       }
     }
   }"

definition check_x11 ::
  "'w env \<Rightarrow> bool \<Rightarrow> u32 \<Rightarrow> int \<Rightarrow> int \<Rightarrow> int \<Rightarrow> 'w mctx \<Rightarrow> (int \<times> 'w mctx) option" where
  "check_x11 en junk ip port conn_timeout read_timeout cx =
     (let (sock, w) = socket4_connect (en_os en) ip port conn_timeout (mx_world cx); cx = cx\<lparr>mx_world := w\<rparr> in
      if sock = -1
      then map_option (\<lambda>cx. (-1, cx)) (mx_call en (C_bit x11_CONN_FAIL) cx)
      else let (ts, _, w) = ts_socket (en_os en) junk sock (mx_world cx);
               (now, w) = os_ms (en_os en) w
           in x11_session en ts (now + word_of_int read_timeout) (cx\<lparr>mx_world := w\<rparr>))"

definition x11_result ::
  "'w env \<Rightarrow> x11_cfg \<Rightarrow> bool \<Rightarrow> u32 \<Rightarrow> int \<Rightarrow> 'w mctx \<Rightarrow> 'w mctx option" where
  "x11_result en c junk ip port cx =
     (if \<not> x11_on c then Some cx
      else do {
        cx \<leftarrow> mx_call en (C_head (ascii ''x11'')) cx;
        cx \<leftarrow> mx_call en (C_defer (url_of 64 ''x11://'' ip port)) cx;
        (r, cx) \<leftarrow> check_x11 en junk ip port (x11_conn_timeout c) (x11_read_timeout c) cx;
        Some cx
      })"

section \<open>The probe always returns -1\<close>

text \<open>\<open>check_x11\<close> never tells its caller what it found: every path answers \<open>-1\<close>, a good server
  included (the result is only in the file). On a plain socket, with a result file open, it returns
  for every operating system and every server.\<close>

theorem x11_session_result:
  assumes "mx_good en cx" "\<not> ts_is_ssl ts"
  shows "\<exists>cx'. x11_session en ts deadline cx = Some (-1, cx')"
proof -
  have fail: "\<exists>c'. mx_fail en ts code (-1) c = Some (-1, c')" if "mx_good en c" for code c
    by (rule mx_call_good[OF that, of "C_bit code"]) (auto simp: mx_fail_def mx_exit_def)
  obtain ok w where w: "mx_write en ts x11_HELLO deadline cx = Some (ok, cx\<lparr>mx_world := w\<rparr>)"
    by (rule mx_write_plain[OF assms(2)])
  have g1: "mx_good en (cx\<lparr>mx_world := w\<rparr>)" using assms(1) by simp
  obtain ok2 d w2 where r: "mx_read en ts 1 deadline (cx\<lparr>mx_world := w\<rparr>)
      = Some (ok2, d, cx\<lparr>mx_world := w\<rparr>\<lparr>mx_world := w2\<rparr>)" by (rule mx_read_plain[OF assms(2)])
  have g2: "mx_good en (cx\<lparr>mx_world := w2\<rparr>)" using assms(1) by simp
  obtain ok3 v w3 where r3: "mx_read en ts 5 deadline (cx\<lparr>mx_world := w2\<rparr>)
      = Some (ok3, v, cx\<lparr>mx_world := w2\<rparr>\<lparr>mx_world := w3\<rparr>)" by (rule mx_read_plain[OF assms(2)])
  have g3: "mx_good en (cx\<lparr>mx_world := w3\<rparr>)" using assms(1) by simp
  obtain c where "mx_call en (C_bit (if ok3 \<and> v ! 1 = 11 then x11_GOOD else x11_KINDA_GOOD)) (cx\<lparr>mx_world := w3\<rparr>) = Some c"
    by (rule mx_call_good[OF g3]) auto
  then show ?thesis using w r r3 fail[OF g1] fail[OF g2]
    by (auto simp: x11_session_def mx_exit_def)
qed

theorem x11_session_result_witness:
  "\<exists>cx'. x11_session \<lparr>en_os = peer_os, en_tls = None, en_file = True\<rparr> \<lparr>ts_fd = 3, ts_is_ssl = False\<rparr> 100
     \<lparr>mx_world = peer1, mx_cba = cba_thread_init 1, mx_io = []\<rparr> = Some (-1, cx')"
proof -
  have "mx_good \<lparr>en_os = peer_os, en_tls = None, en_file = True\<rparr>
      \<lparr>mx_world = peer1, mx_cba = cba_thread_init 1, mx_io = []\<rparr>"
    using wr_rel_init[of 1] by (auto simp: mx_good_def)
  from x11_session_result[OF this, of "\<lparr>ts_fd = 3, ts_is_ssl = False\<rparr>" 100] show ?thesis by simp
qed

end
