(* ===== verification/Cookie.thy ===== *)
theory Cookie
  imports Module_Ctx
begin

text \<open>
  \<^verbatim>\<open>modules/cookie.c\<close>: a host that accepts a connection on one of the cookie ports, which nothing
  should listen on, accepts everything, and its results are dropped. \<open>cookie_ports\<close> is the array of
  five ints, ended by the first \<open>0\<close>.
\<close>

record cookie_cfg =
  ck_on :: bool
  ck_ports :: "int list"
  ck_timeout :: int
  ck_verify_timeout :: int

definition cookie_default :: cookie_cfg where
  "cookie_default = \<lparr>ck_on = False, ck_ports = [40033, 41019, 36127, 29438, 0], ck_timeout = 300,
     ck_verify_timeout = 1000\<rparr>"

text \<open>
  \<open>sscanf(opt, "cookie.ports=%d,%d,%d,%d", \<dots>)\<close> behind the literal: the conversions that succeed, in
  order, and the result, which is \<open>-1\<close> when the input ends before the first number.
\<close>

fun scan_ports :: "nat \<Rightarrow> string \<Rightarrow> int list option" where
  "scan_ports 0 s = Some []"
| "scan_ports (Suc n) s =
     (case scan_d s of
        Conv v rest \<Rightarrow>
          if \<not> int_ok v then None
          else map_option ((#) v) (case rest of [] \<Rightarrow> Some []
            | c # rest \<Rightarrow> if c = CHR '','' then scan_ports n rest else Some [])
      | _ \<Rightarrow> Some [])"

definition cookie_ports_opt :: "string \<Rightarrow> int list \<Rightarrow> int list option" where
  "cookie_ports_opt cfg ports =
     (case strstr cfg ''cookie.ports='' of None \<Rightarrow> Some ports
      | Some s \<Rightarrow> do {
          let s = drop 13 s;
          ps \<leftarrow> scan_ports 4 s;
          let num = (if scan_d s = Eof then -1 else int (length ps));
          arr_set (ps @ drop (length ps) ports) num 0
        })"

definition checkcookie_init :: "string \<Rightarrow> string \<Rightarrow> cookie_cfg \<Rightarrow> cookie_cfg option" where
  "checkcookie_init enabled cfg c = do {
     t \<leftarrow> int_option ''cookie.timeout='' cfg (ck_timeout c);
     ps \<leftarrow> cookie_ports_opt cfg (ck_ports c);
     vt \<leftarrow> int_option ''cookie.verify_timeout='' cfg (ck_verify_timeout c);
     Some \<lparr>ck_on = (strstr enabled ''cookie'' \<noteq> None), ck_ports = ps, ck_timeout = t,
       ck_verify_timeout = vt\<rparr>
   }"

text \<open>\<open>while(*cport)\<close>: \<open>Some True\<close> when a port accepted; running off the array is \<open>None\<close>.\<close>

fun cookie_loop :: "'w os \<Rightarrow> u32 \<Rightarrow> int \<Rightarrow> int list \<Rightarrow> 'w \<Rightarrow> (bool \<times> 'w) option" where
  "cookie_loop os ip timeout [] w = None"
| "cookie_loop os ip timeout (p # ps) w =
     (if p = 0 then Some (False, w)
      else let (sock, w) = socket4_connect os ip p timeout w in
        if sock \<ge> 0 then Some (True, os_close os sock w)
        else cookie_loop os ip timeout ps w)"

definition check_cookie :: "'w os \<Rightarrow> cookie_cfg \<Rightarrow> u32 \<Rightarrow> int \<Rightarrow> 'w \<Rightarrow> (int \<times> 'w) option" where
  "check_cookie os c ip port w =
     (if \<not> ck_on c then Some (1, w)
      else do {
        (acc, w) \<leftarrow> cookie_loop os ip (ck_timeout c) (ck_ports c) w;
        if acc then Some (0, w)
        else if port = 0 then Some (1, w)
        else let (sock, w) = socket4_connect os ip port (ck_verify_timeout c) w in
          if sock \<ge> 0 then Some (1, os_close os sock w) else Some (0, w)
      })"

section \<open>The verdict\<close>

text \<open>The ports the loop tries: those before the first \<open>0\<close>.\<close>

definition tried_ports :: "int list \<Rightarrow> int list" where
  "tried_ports ps = takeWhile (\<lambda>p. p \<noteq> 0) ps"

text \<open>The host accepts exactly the ports \<open>P\<close>, whenever it is asked with the descriptors \<open>F\<close> open.\<close>

definition accepts :: "'w os \<Rightarrow> ('w \<Rightarrow> int set) \<Rightarrow> int set \<Rightarrow> u32 \<Rightarrow> (int \<Rightarrow> bool) \<Rightarrow> bool" where
  "accepts os fds F ip P \<longleftrightarrow> (\<forall>p t w. fds w = F \<longrightarrow> (fst (socket4_connect os ip p t w) \<ge> 0) = P p)"

lemma connect_close:
  assumes "tracks_fds os fds" "fcntl_works os" "0 \<in> fds w" "socket4_connect os ip p t w = (s, w1)"
  shows "if s \<ge> 0 then fds (os_close os s w1) = fds w else fds w1 = fds w"
  using socket4_connect_fds[OF assms] tracksD(2)[OF assms(1), of s w1] by auto

lemma cookie_loop_verdict:
  assumes os: "tracks_fds os fds" "fcntl_works os" and acc: "accepts os fds F ip P" and F: "0 \<in> F"
  shows "0 \<in> set ps \<Longrightarrow> fds w = F \<Longrightarrow>
    \<exists>w'. cookie_loop os ip t ps w = Some (\<exists>p \<in> set (tried_ports ps). P p, w') \<and> fds w' = fds w"
proof (induction ps arbitrary: w)
  case (Cons p ps)
  show ?case
  proof (cases "p = 0")
    case False
    obtain s w1 where s: "socket4_connect os ip p t w = (s, w1)" by force
    have P: "(s \<ge> 0) = P p" using acc s Cons.prems(2) by (metis accepts_def fst_conv)
    note cl = connect_close[OF os F[folded Cons.prems(2)] s]
    show ?thesis
    proof (cases "s \<ge> 0")
      case True
      with False s P cl show ?thesis by (auto simp: tried_ports_def)
    next
      case no: False
      then have f: "fds w1 = fds w" using cl by simp
      with Cons.IH[of w1] Cons.prems False s P no show ?thesis by (auto simp: tried_ports_def)
    qed
  qed (simp add: tried_ports_def)
qed simp

lemma check_cookie_decides:
  assumes "tracks_fds os fds" "fcntl_works os" "accepts os fds (fds w) ip P"
    and "ck_on c" "0 \<in> set (ck_ports c)" "0 \<in> fds w"
  shows "\<exists>w'. check_cookie os c ip port w =
      Some (if (\<forall>p \<in> set (tried_ports (ck_ports c)). \<not> P p) \<and> (port = 0 \<or> P port) then 1 else 0, w') \<and>
    fds w' = fds w"
proof -
  obtain w1 where w1: "cookie_loop os ip (ck_timeout c) (ck_ports c) w
      = Some (\<exists>p \<in> set (tried_ports (ck_ports c)). P p, w1)" "fds w1 = fds w"
    using cookie_loop_verdict[OF assms(1-3,6,5) refl] by blast
  obtain s w2 where s: "socket4_connect os ip port (ck_verify_timeout c) w1 = (s, w2)" by force
  have P: "(s \<ge> 0) = P port" using assms(3) s w1(2) by (metis accepts_def fst_conv)
  have z: "0 \<in> fds w1" using w1(2) assms(6) by simp
  from connect_close[OF assms(1,2) z s] w1 s P assms(4) show ?thesis
    by (auto simp: check_cookie_def)
qed

text \<open>C40: with checking on, a host is kept exactly when none of the tried cookie ports accepts, and
  the result's own port, if it has one, accepts when tried again; and no descriptor stays open.\<close>

theorem check_cookie_verdict:
  assumes "tracks_fds os fds" "fcntl_works os" "accepts os fds (fds w) ip P"
    and "ck_on c" "0 \<in> set (ck_ports c)" "0 \<in> fds w"
  shows "\<exists>w'. check_cookie os c ip port w =
      Some (if (\<forall>p \<in> set (tried_ports (ck_ports c)). \<not> P p) \<and> (port = 0 \<or> P port) then 1 else 0, w') \<and>
    fds w' = fds w"
  using assms by (rule check_cookie_decides)

text \<open>A host that accepts port 80 only.\<close>

abbreviation (input) web_os :: "peer os" where
  "web_os \<equiv> peer_os\<lparr>os_connect := (\<lambda>fd ip port w.
     (if port = 80 then (0, EOTHER) else (-1, ECONNREFUSED), w))\<rparr>"

theorem check_cookie_verdict_witness:
  "\<exists>w'. check_cookie web_os \<lparr>ck_on = True, ck_ports = [40033, 0, 0, 0, 0], ck_timeout = 300,
      ck_verify_timeout = 1000\<rparr> 1 80 (peer1\<lparr>pe_fds := {0, 1, 2}\<rparr>) = Some (1, w') \<and> pe_fds w' = {0, 1, 2}"
proof -
  have "tracks_fds web_os pe_fds" "fcntl_works web_os"
    by (simp_all add: tracks_fds_def fcntl_works_def peer_os_def)
  moreover have "accepts web_os pe_fds {0, 1, 2} 1 (\<lambda>p. (word_of_int p :: u16) = 80)"
    by (simp add: accepts_def socket4_connect_def socket4_setup_def socket4_try_connect_def
        set_socket_blocking_def Let_def peer_os_def)
  ultimately show ?thesis
    using check_cookie_verdict[of web_os pe_fds "peer1\<lparr>pe_fds := {0, 1, 2}\<rparr>" 1
        "\<lambda>p. (word_of_int p :: u16) = 80" "\<lparr>ck_on = True, ck_ports = [40033, 0, 0, 0, 0], ck_timeout = 300,
          ck_verify_timeout = 1000\<rparr>" 80]
    by (simp add: tried_ports_def)
qed

text \<open>\<open>cookie.ports=\<close> with nothing behind it writes before the array: \<open>sscanf\<close> answers \<open>-1\<close>, and
  \<open>cookie_ports[-1]\<close> is set to \<open>0\<close>. With one to four numbers the array is theirs, ended by a \<open>0\<close>.\<close>

theorem cookie_ports_empty:
  "(\<forall>ports. cookie_ports_opt ''cookie.ports='' ports = None) \<and>
   cookie_ports_opt ''cookie.ports=80,81'' [1, 2, 3, 4, 0] = Some [80, 81, 0, 4, 0]"
proof
  have "strstr ''cookie.ports='' ''cookie.ports='' = Some ''cookie.ports=''" by code_simp
  then show "\<forall>ports. cookie_ports_opt ''cookie.ports='' ports = None"
    by (simp add: cookie_ports_opt_def scan_d_def arr_set_def in_arr_def numeral_eq_Suc)
  show "cookie_ports_opt ''cookie.ports=80,81'' [1, 2, 3, 4, 0] = Some [80, 81, 0, 4, 0]" by code_simp
qed

end
