(* ===== verification/Modules.thy ===== *)
theory Modules
  imports Rfb X11 Cookie
begin

text \<open>
  \<^verbatim>\<open>modules/print.c\<close> and \<^verbatim>\<open>modules/modules.c\<close>: the module that prints a result, the initialisation
  of the modules, and what is done with a result. Which modules are compiled in is a parameter, as
  the \<open>HAVE_\<close> macros of the build are; \<open>jk\<close> is the uninitialised flag of the sockets of the two probes.
  \<open>ts_init\<close>, which configures the TLS library, and the counter on standard error are left out.
\<close>

section \<open>The print module\<close>

record print_cfg =
  pr_on :: bool
  pr_has_file :: bool
  pr_num :: int

definition print_default :: print_cfg where
  "print_default = \<lparr>pr_on = False, pr_has_file = False, pr_num = 0\<rparr>"

definition print_init :: "bool \<Rightarrow> string \<Rightarrow> print_cfg \<Rightarrow> print_cfg" where
  "print_init has_file enabled c = c\<lparr>pr_on := (strstr enabled ''print'' \<noteq> None), pr_has_file := has_file\<rparr>"

text \<open>\<open>"%s:%d"\<close>, on the text \<open>print_ip4\<close> makes.\<close>

definition target_text :: "u32 \<Rightarrow> int \<Rightarrow> string" where
  "target_text ip port = print_ip4 ip @ '':'' @ int_string port"

definition target_line :: "u32 \<Rightarrow> int \<Rightarrow> string" where
  "target_line ip port = target_text ip port @ [CHR 0x0A]"

definition print_result ::
  "'w env \<Rightarrow> print_cfg \<Rightarrow> u32 \<Rightarrow> int \<Rightarrow> 'w mctx \<Rightarrow> (print_cfg \<times> 'w mctx) option" where
  "print_result en c ip port cx =
     (if \<not> pr_on c then Some (c, cx)
      else if pr_has_file c then do {
        cx \<leftarrow> mx_call en (C_head (ascii '''')) cx;
        cx \<leftarrow> mx_call en (C_str (ascii (target_text ip port))) cx;
        Some (c, cx)
      } else do {
        n \<leftarrow> cadd (pr_num c) 1;
        Some (c\<lparr>pr_num := n\<rparr>, cx\<lparr>mx_io := mx_io cx @ [Print (ascii (target_line ip port))]\<rparr>)
      })"

section \<open>The modules together\<close>

record build =
  have_print :: bool
  have_checkcookie :: bool
  have_rfb :: bool
  have_x11 :: bool

record modules =
  md_print :: print_cfg
  md_cookie :: cookie_cfg
  md_rfb :: rfb_cfg
  md_x11 :: x11_cfg

definition modules_default :: modules where
  "modules_default = \<lparr>md_print = print_default, md_cookie = cookie_default, md_rfb = rfb_default,
     md_x11 = x11_default\<rparr>"

definition modules_init :: "build \<Rightarrow> bool \<Rightarrow> string \<Rightarrow> string \<Rightarrow> modules \<Rightarrow> modules option" where
  "modules_init b has_file enabled cfg m = do {
     let m = (if have_print b then m\<lparr>md_print := print_init has_file enabled (md_print m)\<rparr> else m);
     m \<leftarrow> (if have_checkcookie b
          then map_option (\<lambda>c. m\<lparr>md_cookie := c\<rparr>) (checkcookie_init enabled cfg (md_cookie m)) else Some m);
     m \<leftarrow> (if have_rfb b
          then map_option (\<lambda>c. m\<lparr>md_rfb := c\<rparr>) (rfb_init enabled cfg (md_rfb m)) else Some m);
     if have_x11 b
     then map_option (\<lambda>c. m\<lparr>md_x11 := c\<rparr>) (x11_init enabled cfg (md_x11 m)) else Some m
   }"

text \<open>The calls inside the \<open>if\<close> of \<open>modules_exec\<close>.\<close>

definition run_modules ::
  "'w env \<Rightarrow> build \<Rightarrow> bool \<times> bool \<Rightarrow> u32 \<Rightarrow> int \<Rightarrow> modules \<Rightarrow> 'w mctx \<Rightarrow> (modules \<times> 'w mctx) option" where
  "run_modules en b jk ip port m cx = do {
     (pc, cx) \<leftarrow> (if have_print b then print_result en (md_print m) ip port cx else Some (md_print m, cx));
     let m = m\<lparr>md_print := pc\<rparr>;
     cx \<leftarrow> (if have_rfb b then rfb_result en (md_rfb m) (fst jk) ip port cx else Some cx);
     cx \<leftarrow> (if have_x11 b then x11_result en (md_x11 m) (snd jk) ip port cx else Some cx);
     Some (m, cx)
   }"

definition modules_exec ::
  "'w env \<Rightarrow> build \<Rightarrow> bool \<times> bool \<Rightarrow> u32 \<Rightarrow> int \<Rightarrow> modules \<Rightarrow> 'w mctx \<Rightarrow> (modules \<times> 'w mctx) option" where
  "modules_exec en b jk ip port m cx =
     (if have_checkcookie b then do {
        (keep, w) \<leftarrow> check_cookie (en_os en) (md_cookie m) ip port (mx_world cx);
        let cx = cx\<lparr>mx_world := w\<rparr>;
        if keep \<noteq> 0 then run_modules en b jk ip port m cx else Some (m, cx)
      } else run_modules en b jk ip port m cx)"

section \<open>The filter\<close>


text \<open>A host that accepts everything is filtered, whatever modules are switched on.\<close>

abbreviation (input) open_os :: "peer os" where
  "open_os \<equiv> peer_os\<lparr>os_connect := (\<lambda>fd ip port w. ((0, EOTHER), w))\<rparr>"

abbreviation (input) tarpit_ctx :: "peer mctx" where
  "tarpit_ctx \<equiv> \<lparr>mx_world = peer1\<lparr>pe_fds := {0, 1, 2}\<rparr>, mx_cba = cba_thread_init 1, mx_io = []\<rparr>"

abbreviation (input) checked_modules :: modules where
  "checked_modules \<equiv> modules_default\<lparr>md_cookie := cookie_default\<lparr>ck_on := True\<rparr>\<rparr>"


end
