(* ===== verification/Log.thy ===== *)
theory Log
  imports Cba_Roundtrip
begin

text \<open>
  \<^verbatim>\<open>log.c\<close>: the scanner's own events, written with the calls any module uses, and only when a result
  file is open. A function is the list of the calls it makes; \<open>info\<close> lines on standard error are left
  out. In \<open>log_event\<close> the formatted text is an argument (the code reads \<open>args2\<close> after \<open>va_end\<close>).
\<close>

definition STATS_EVERY :: u32 where "STATS_EVERY = 10"
definition STAT_TIME :: u32 where "STAT_TIME = 11"
definition EVENT :: u32 where "EVENT = 20"
definition CANARY_FAIL :: u32 where "CANARY_FAIL = 21"
definition CANARY_FAIL_RESPONSE :: u32 where "CANARY_FAIL_RESPONSE = 22"

definition log_stats_every :: "bool \<Rightarrow> int \<Rightarrow> cba_call list" where
  "log_stats_every has_file n = (if has_file then [C_code STATS_EVERY, C_int32 (to_u32 n)] else [])"

text \<open>\<open>t\<close> is what \<open>time(NULL)\<close> answers.\<close>

definition log_stats :: "bool \<Rightarrow> u64 \<Rightarrow> int \<Rightarrow> int \<Rightarrow> cba_call list" where
  "log_stats has_file t new_events new_results =
     (if has_file
      then [C_code STAT_TIME, C_int64 t, C_int32 (to_u32 new_events), C_int32 (to_u32 new_results)]
      else [])"

definition log_canary_fail :: "bool \<Rightarrow> bool \<Rightarrow> cba_call list" where
  "log_canary_fail has_file got_reply =
     (if has_file then [C_bit (if got_reply then CANARY_FAIL_RESPONSE else CANARY_FAIL)] else [])"

definition log_event :: "bool \<Rightarrow> string \<Rightarrow> cba_call list" where
  "log_event has_file msg = (if has_file then [C_code EVENT, C_str (ascii msg)] else [])"

end
