(* ===== verification/Socket_List.thy ===== *)
theory Socket_List
  imports Prelude "HOL-Library.Monad_Syntax"
begin

text \<open>
  \<^verbatim>\<open>socket_list.c\<close>: the table of pending sockets, an array indexed by file descriptor whose used
  entries form a doubly linked list in insertion order (\<open>first_fd\<close>, \<open>next_fd\<close>, \<open>prev_fd\<close>, \<open>-1\<close> at
  both ends). Accesses outside the array are \<open>None\<close>.

  The invariant \<open>wf_sl l fds\<close> says that the list holds exactly the descriptors \<open>fds\<close> in that order;
  \<open>sl_fds\<close> reads them off. The operations implement appending and removing on that list, which is the
  contract \<open>fd_list\<close> the scanner's loops rely on.
\<close>

section \<open>Data and operations\<close>

record sl_entry =
  prev_fd :: int
  next_fd :: int
  e_timeout :: u64
  e_ip :: u32
  e_port :: int

record socket_list =
  entries :: "sl_entry list"
  sl_size :: int
  first_fd :: int
  last_fd :: int
  num_sockets :: int

text \<open>\<open>mem\<close> is the block \<open>malloc\<close> returned, with indeterminate contents.\<close>

definition init_socket_list :: "sl_entry list \<Rightarrow> int \<Rightarrow> socket_list" where
  "init_socket_list mem sz =
     \<lparr>entries = mem, sl_size = sz, first_fd = -1, last_fd = -1, num_sockets = 0\<rparr>"

definition add_to_socket_list ::
  "socket_list \<Rightarrow> int \<Rightarrow> u32 \<Rightarrow> int \<Rightarrow> u64 \<Rightarrow> socket_list option" where
  "add_to_socket_list l fd ip port tmo =
     (if fd = sl_size l then Some l
      else do {
        es \<leftarrow> arr_set (entries l) fd
          \<lparr>prev_fd = last_fd l, next_fd = -1, e_timeout = tmo, e_ip = ip, e_port = port\<rparr>;
        if first_fd l = -1
        then Some (l\<lparr>entries := es, first_fd := fd, last_fd := fd,
                     num_sockets := num_sockets l + 1\<rparr>)
        else do {
          le \<leftarrow> arr_get es (last_fd l);
          es \<leftarrow> arr_set es (last_fd l) (le\<lparr>next_fd := fd\<rparr>);
          Some (l\<lparr>entries := es, last_fd := fd, num_sockets := num_sockets l + 1\<rparr>)
        }
      })"

definition del_from_socket_list :: "socket_list \<Rightarrow> int \<Rightarrow> (socket_list \<times> int) option" where
  "del_from_socket_list l fd =
     (if num_sockets l = 0 then Some (l, -1)
      else do {
        e \<leftarrow> arr_get (entries l) fd;
        l \<leftarrow> (if prev_fd e \<noteq> -1
             then do {
               p \<leftarrow> arr_get (entries l) (prev_fd e);
               es \<leftarrow> arr_set (entries l) (prev_fd e) (p\<lparr>next_fd := next_fd e\<rparr>);
               Some (l\<lparr>entries := es\<rparr>)
             }
             else Some (l\<lparr>first_fd := next_fd e\<rparr>));
        e \<leftarrow> arr_get (entries l) fd;
        l \<leftarrow> (if next_fd e \<noteq> -1
             then do {
               n \<leftarrow> arr_get (entries l) (next_fd e);
               es \<leftarrow> arr_set (entries l) (next_fd e) (n\<lparr>prev_fd := prev_fd e\<rparr>);
               Some (l\<lparr>entries := es\<rparr>)
             }
             else Some (l\<lparr>last_fd := prev_fd e\<rparr>));
        e \<leftarrow> arr_get (entries l) fd;
        Some (l\<lparr>num_sockets := num_sockets l - 1\<rparr>, next_fd e)
      })"

section \<open>Chains\<close>

definition head_or :: "int list \<Rightarrow> int \<Rightarrow> int" where
  "head_or xs q = (case xs of [] \<Rightarrow> q | x # _ \<Rightarrow> x)"

definition last_or :: "int list \<Rightarrow> int \<Rightarrow> int" where
  "last_or xs p = (if xs = [] then p else last xs)"

lemma head_or_simps [simp]: "head_or [] q = q" "head_or (x # xs) q = x"
  by (simp_all add: head_or_def)

lemma last_or_simps [simp]:
  "last_or [] p = p" "last_or (x # xs) p = last_or xs x" "last_or (xs @ [x]) p = x"
  by (simp_all add: last_or_def)

lemma head_or_append: "head_or (xs @ ys) q = head_or xs (head_or ys q)"
  by (cases xs) simp_all

lemma last_or_append: "last_or (xs @ ys) p = last_or ys (last_or xs p)"
  by (simp add: last_or_def)

text \<open>
  \<open>chain es p xs q\<close>: the entries \<open>xs\<close> are linked in this order, the first one's predecessor is \<open>p\<close>
  and the last one's successor is \<open>q\<close>.
\<close>

fun chain :: "sl_entry list \<Rightarrow> int \<Rightarrow> int list \<Rightarrow> int \<Rightarrow> bool" where
  "chain es p [] q = True"
| "chain es p (x # xs) q =
     (in_arr es x \<and> prev_fd (es ! nat x) = p \<and> next_fd (es ! nat x) = head_or xs q \<and> chain es x xs q)"

lemma chain_append:
  "chain es p (xs @ ys) q \<longleftrightarrow> chain es p xs (head_or ys q) \<and> chain es (last_or xs p) ys q"
  by (induction xs arbitrary: p) (auto simp: head_or_append)

lemma chain_in_arr: "chain es p xs q \<Longrightarrow> x \<in> set xs \<Longrightarrow> in_arr es x"
  by (induction xs arbitrary: p) auto

lemma chain_frame:
  "chain es p xs q \<Longrightarrow> y \<notin> set xs \<Longrightarrow> 0 \<le> y \<Longrightarrow> chain (es[nat y := e]) p xs q"
proof (induction xs arbitrary: p)
  case (Cons x xs)
  then have "nat x \<noteq> nat y" by (auto simp: in_arr_def nat_eq_iff)
  with Cons show ?case by simp
qed simp

lemma chain_set_next:
  assumes "chain es p (xs @ [x]) q" "distinct (xs @ [x])"
  shows "chain (es[nat x := (es ! nat x)\<lparr>next_fd := q'\<rparr>]) p (xs @ [x]) q'"
  using assms by (auto simp: chain_append in_arr_def intro!: chain_frame)

lemma chain_set_prev:
  assumes "chain es p (x # xs) q" "distinct (x # xs)"
  shows "chain (es[nat x := (es ! nat x)\<lparr>prev_fd := p'\<rparr>]) p' (x # xs) q"
  using assms by (auto simp: in_arr_def intro!: chain_frame)

text \<open>Walking the list, with as many steps as there are sockets.\<close>

fun sl_walk :: "sl_entry list \<Rightarrow> int \<Rightarrow> nat \<Rightarrow> int list" where
  "sl_walk es fd 0 = []"
| "sl_walk es fd (Suc n) =
     (if fd = -1 \<or> \<not> in_arr es fd then [] else fd # sl_walk es (next_fd (es ! nat fd)) n)"

definition sl_fds :: "socket_list \<Rightarrow> int list" where
  "sl_fds l = sl_walk (entries l) (first_fd l) (nat (num_sockets l))"

lemma sl_walk_chain: "chain es p xs (-1) \<Longrightarrow> sl_walk es (head_or xs (-1)) (length xs) = xs"
  by (induction xs arbitrary: p) (auto simp: in_arr_def)

section \<open>The invariant\<close>

definition wf_sl :: "socket_list \<Rightarrow> int list \<Rightarrow> bool" where
  "wf_sl l fds \<longleftrightarrow> chain (entries l) (-1) fds (-1) \<and> distinct fds \<and>
     first_fd l = head_or fds (-1) \<and> last_fd l = last_or fds (-1) \<and>
     num_sockets l = int (length fds) \<and> sl_size l = int (length (entries l))"

lemma wf_sl_fds: "wf_sl l fds \<Longrightarrow> sl_fds l = fds"
  using sl_walk_chain[of "entries l" "-1" fds] by (simp add: wf_sl_def sl_fds_def)

lemma wf_init: "length mem = nat n \<Longrightarrow> 0 \<le> n \<Longrightarrow> wf_sl (init_socket_list mem n) []"
  by (simp add: wf_sl_def init_socket_list_def)

lemma wf_sl_in_arr: "wf_sl l fds \<Longrightarrow> x \<in> set fds \<Longrightarrow> in_arr (entries l) x"
  by (auto simp: wf_sl_def intro: chain_in_arr)

text \<open>The payload of an entry.\<close>

definition sl_data :: "socket_list \<Rightarrow> int \<Rightarrow> u32 \<times> int \<times> u64" where
  "sl_data l fd = (let e = entries l ! nat fd in (e_ip e, e_port e, e_timeout e))"

lemma add_wf:
  assumes wf: "wf_sl l fds" and fd: "in_arr (entries l) fd" and new: "fd \<notin> set fds"
  obtains l' where "add_to_socket_list l fd ip port tmo = Some l'" "wf_sl l' (fds @ [fd])"
    "sl_size l' = sl_size l" "sl_data l' fd = (ip, port, tmo)"
    "\<And>x. x \<in> set fds \<Longrightarrow> sl_data l' x = sl_data l x"
proof -
  have sz: "fd \<noteq> sl_size l" using wf fd by (auto simp: wf_sl_def in_arr_def)
  have fd0: "0 \<le> fd" using fd by (simp add: in_arr_def)
  let ?e = "\<lparr>prev_fd = last_fd l, next_fd = -1, e_timeout = tmo, e_ip = ip, e_port = port\<rparr>"
  let ?es = "(entries l)[nat fd := ?e]"
  have ch: "chain ?es (-1) fds (-1)" using wf new fd0 by (auto simp: wf_sl_def intro: chain_frame)
  have ce: "chain ?es (last_or fds (-1)) [fd] (-1)"
    using fd wf by (simp add: wf_sl_def)
  have other: "nat x \<noteq> nat fd" "nat fd \<noteq> nat x" if "x \<in> set fds" for x
    using wf_sl_in_arr[OF wf that] that new fd0 by (auto simp: in_arr_def nat_eq_iff)
  show thesis
  proof (cases fds rule: rev_cases)
    case Nil
    with wf fd sz ce show ?thesis
      by (intro that[of "l\<lparr>entries := ?es, first_fd := fd, last_fd := fd, num_sockets := num_sockets l + 1\<rparr>"])
        (auto simp: add_to_socket_list_def wf_sl_def sl_data_def in_arr_def Let_def)
  next
    case (snoc xs x)
    let ?es' = "?es[nat x := (?es ! nat x)\<lparr>next_fd := fd\<rparr>]"
    have x: "last_fd l = x" "first_fd l \<noteq> -1" "in_arr ?es x" "x \<noteq> fd" "0 \<le> x"
      using wf snoc new wf_sl_in_arr[OF wf, of x] wf_sl_in_arr[OF wf, of "head_or fds (-1)"]
      by (auto simp: wf_sl_def head_or_append in_arr_def head_or_def split: list.splits)
    have dis: "distinct (xs @ [x])" using wf snoc by (simp add: wf_sl_def)
    have "chain ?es' (-1) (xs @ [x]) fd"
      using chain_set_next[OF _ dis, of ?es "-1" "-1" fd] ch snoc by simp
    moreover have "chain ?es' x [fd] (-1)"
      using ce x snoc other[of x] by simp
    ultimately have "chain ?es' (-1) ((xs @ [x]) @ [fd]) (-1)"
      unfolding chain_append[of ?es' "-1" "xs @ [x]" "[fd]" "-1"]
      by (simp only: head_or_simps last_or_simps)
    then have "chain ?es' (-1) (fds @ [fd]) (-1)" by (simp only: snoc)
    then have wf': "wf_sl (l\<lparr>entries := ?es', last_fd := fd, num_sockets := num_sockets l + 1\<rparr>) (fds @ [fd])"
      using wf new snoc by (simp add: wf_sl_def head_or_append last_or_append)
    have res: "add_to_socket_list l fd ip port tmo
        = Some (l\<lparr>entries := ?es', last_fd := fd, num_sockets := num_sockets l + 1\<rparr>)"
      using sz fd x by (simp add: add_to_socket_list_def)
    have dat: "e_ip (?es' ! i) = e_ip (?es ! i) \<and> e_port (?es' ! i) = e_port (?es ! i) \<and>
        e_timeout (?es' ! i) = e_timeout (?es ! i)" for i
      by (simp add: nth_update_field)
    show ?thesis
      using fd other dat by (intro that[OF res wf']) (simp_all add: sl_data_def Let_def)
  qed
qed

text \<open>The two pointer updates of a deletion, on the neighbours in the list.\<close>

lemma del_wf:
  assumes wf: "wf_sl l (xs @ fd # ys)"
  obtains l' where "del_from_socket_list l fd = Some (l', head_or ys (-1))" "wf_sl l' (xs @ ys)"
    "sl_size l' = sl_size l" "sl_data l' = sl_data l"
proof -
  let ?es = "entries l"
  define p where "p = last_or xs (-1)"
  define n where "n = head_or ys (-1)"
  have ch: "chain ?es (-1) xs fd" "in_arr ?es fd" "prev_fd (?es ! nat fd) = p"
    "next_fd (?es ! nat fd) = n" "chain ?es fd ys (-1)"
    and dis: "distinct (xs @ fd # ys)" and num: "num_sockets l = int (length (xs @ fd # ys))"
    using wf by (auto simp: wf_sl_def chain_append p_def n_def)
  have mem: "x \<noteq> -1" "in_arr ?es x" if "x \<in> set xs \<or> x \<in> set ys" for x
    using wf_sl_in_arr[OF wf, of x] that by (auto simp: in_arr_def)
  have p_cases: "(xs = [] \<and> p = -1) \<or> (\<exists>xs'. xs = xs' @ [p] \<and> p \<noteq> -1 \<and> in_arr ?es p \<and> nat p \<noteq> nat fd)"
  proof (cases xs rule: rev_cases)
    case (snoc xs' x)
    then show ?thesis using mem[of x] ch(2) dis by (auto simp: p_def in_arr_def nat_eq_iff)
  qed (simp add: p_def)
  have n_cases: "(ys = [] \<and> n = -1) \<or> (\<exists>ys'. ys = n # ys' \<and> n \<noteq> -1 \<and> in_arr ?es n \<and> nat n \<noteq> nat fd)"
  proof (cases ys)
    case (Cons y ys')
    then show ?thesis using mem[of y] ch(2) dis by (auto simp: n_def in_arr_def nat_eq_iff)
  qed (simp add: n_def)
  define es1 where "es1 = (if p \<noteq> -1 then ?es[nat p := (?es ! nat p)\<lparr>next_fd := n\<rparr>] else ?es)"
  define es2 where "es2 = (if n \<noteq> -1 then es1[nat n := (es1 ! nat n)\<lparr>prev_fd := p\<rparr>] else es1)"
  have len: "length es2 = length ?es" by (simp add: es1_def es2_def)
  have disx: "distinct xs" "distinct ys" "set xs \<inter> set ys = {}" using dis by auto
  have c1: "chain es1 (-1) xs n \<and> chain es1 fd ys (-1)"
    using p_cases
  proof (elim disjE exE conjE)
    fix xs' assume x: "xs = xs' @ [p]" "p \<noteq> -1" "in_arr ?es p"
    have "chain es1 (-1) xs n"
      using chain_set_next[of ?es "-1" xs' p fd n] ch disx x by (simp add: es1_def)
    moreover have "chain es1 fd ys (-1)"
      using ch disx x by (auto simp: es1_def in_arr_def intro!: chain_frame)
    ultimately show ?thesis ..
  qed (use ch in \<open>simp_all add: es1_def\<close>)
  have c2: "chain es2 (-1) xs n \<and> chain es2 p ys (-1)"
    using n_cases
  proof (elim disjE exE conjE)
    fix ys' assume y: "ys = n # ys'" "n \<noteq> -1" "in_arr ?es n"
    have "chain es2 (-1) xs n"
      using c1 disx y by (auto simp: es2_def in_arr_def intro!: chain_frame)
    moreover have "chain es2 p ys (-1)"
      using chain_set_prev[of es1 fd n ys' "-1" p] c1 disx y by (simp add: es2_def)
    ultimately show ?thesis ..
  qed (use c1 in \<open>simp_all add: es2_def\<close>)
  have data: "e_ip (es2 ! i) = e_ip (?es ! i) \<and> e_port (es2 ! i) = e_port (?es ! i) \<and>
      e_timeout (es2 ! i) = e_timeout (?es ! i)" for i
    by (simp add: es1_def es2_def nth_update_field)
  have e1: "es1 ! nat fd = ?es ! nat fd" "es2 ! nat fd = ?es ! nat fd"
    using p_cases n_cases by (auto simp: es1_def es2_def)
  let ?l = "l\<lparr>entries := es2, first_fd := (if p = -1 then n else first_fd l),
    last_fd := (if n = -1 then p else last_fd l), num_sockets := num_sockets l - 1\<rparr>"
  have "wf_sl ?l (xs @ ys)"
    using c2 dis num len wf p_cases n_cases
    by (auto simp: wf_sl_def chain_append p_def[symmetric] n_def[symmetric] head_or_append last_or_append)
  moreover have "del_from_socket_list l fd = Some (?l, n)"
  proof -
    have in1: "in_arr es1 n" if "n \<noteq> -1" using that n_cases by (auto simp: es1_def)
    have in2: "in_arr ?es p" if "p \<noteq> -1" using that p_cases by auto
    have step1: "(if p \<noteq> -1 then do { q \<leftarrow> arr_get ?es p; es \<leftarrow> arr_set ?es p (q\<lparr>next_fd := n\<rparr>);
          Some (l\<lparr>entries := es\<rparr>) } else Some (l\<lparr>first_fd := n\<rparr>))
        = Some (l\<lparr>entries := es1, first_fd := (if p = -1 then n else first_fd l)\<rparr>)"
      using in2 by (auto simp: es1_def)
    show ?thesis
      using num ch(2-4) step1 in1 e1 p_cases n_cases len
      by (auto simp: del_from_socket_list_def es1_def es2_def)
  qed
  ultimately show thesis using data
    by (intro that[of ?l]) (auto simp: n_def sl_data_def Let_def fun_eq_iff)
qed

section \<open>The contract\<close>

text \<open>
  What the scanner needs of the table: an ordered collection of distinct descriptors with a datum
  each, where \<open>add\<close> appends, and \<open>del\<close> removes a descriptor and answers its successor.
\<close>

locale fd_list =
  fixes add :: "'s \<Rightarrow> int \<Rightarrow> 'd \<Rightarrow> 's option"
    and del :: "'s \<Rightarrow> int \<Rightarrow> ('s \<times> int) option"
    and fds :: "'s \<Rightarrow> int list"
    and data :: "'s \<Rightarrow> int \<Rightarrow> 'd"
    and inv :: "'s \<Rightarrow> bool"
    and cap :: "'s \<Rightarrow> int"
  assumes fds_distinct: "inv s \<Longrightarrow> distinct (fds s)"
    and fds_range: "inv s \<Longrightarrow> x \<in> set (fds s) \<Longrightarrow> 0 \<le> x \<and> x < cap s"
    and add_ok: "inv s \<Longrightarrow> 0 \<le> fd \<Longrightarrow> fd < cap s \<Longrightarrow> fd \<notin> set (fds s) \<Longrightarrow>
      \<exists>s'. add s fd d = Some s' \<and> inv s' \<and> cap s' = cap s \<and> fds s' = fds s @ [fd] \<and>
        data s' fd = d \<and> (\<forall>x \<in> set (fds s). data s' x = data s x)"
    and del_ok: "inv s \<Longrightarrow> fds s = xs @ fd # ys \<Longrightarrow>
      \<exists>s'. del s fd = Some (s', head_or ys (-1)) \<and> inv s' \<and> cap s' = cap s \<and> fds s' = xs @ ys \<and>
        (\<forall>x \<in> set (xs @ ys). data s' x = data s x)"
begin

lemma del_member:
  assumes "inv s" "fd \<in> set (fds s)"
  shows "\<exists>s' n. del s fd = Some (s', n) \<and> inv s' \<and> cap s' = cap s \<and> fds s' = remove1 fd (fds s) \<and>
    (\<forall>x \<in> set (fds s) - {fd}. data s' x = data s x)"
proof -
  obtain xs ys where f: "fds s = xs @ fd # ys" using assms(2) by (meson split_list)
  then have d: "fd \<notin> set xs" using fds_distinct[OF assms(1)] by auto
  from del_ok[OF assms(1) f] obtain s' where "del s fd = Some (s', head_or ys (-1))" "inv s'"
    "cap s' = cap s" "fds s' = xs @ ys" "\<forall>x \<in> set (xs @ ys). data s' x = data s x" by blast
  then show ?thesis using f d by (intro exI[of _ s']) (auto simp: remove1_append)
qed

lemma del_head:
  assumes "inv s" "fds s = fd # ys"
  shows "\<exists>s'. del s fd = Some (s', head_or ys (-1)) \<and> inv s' \<and> cap s' = cap s \<and> fds s' = ys \<and>
    (\<forall>x \<in> set ys. data s' x = data s x)"
  using del_ok[OF assms(1), of "[]" fd ys] assms(2) by simp

text \<open>Additions with non-decreasing keys keep the list sorted by key; so do deletions.\<close>

lemma add_sorted:
  assumes "inv s" "0 \<le> fd" "fd < cap s" "fd \<notin> set (fds s)"
    and "sorted (map (\<lambda>x. (key (data s x) :: 'k :: linorder)) (fds s))"
    and "\<And>x. x \<in> set (fds s) \<Longrightarrow> key (data s x) \<le> key d"
    and "add s fd d = Some s'"
  shows "sorted (map (\<lambda>x. key (data s' x)) (fds s'))"
proof -
  have s': "fds s' = fds s @ [fd]" "data s' fd = d" "\<forall>x \<in> set (fds s). data s' x = data s x"
    using add_ok[OF assms(1-4), of d] assms(7) by auto
  have "map (\<lambda>x. key (data s' x)) (fds s) = map (\<lambda>x. key (data s x)) (fds s)"
    using s'(3) by (intro map_cong) simp_all
  then have "sorted (map (\<lambda>x. key (data s' x)) (fds s))" using assms(5) by (simp only:)
  with assms(6) s' show ?thesis by (auto simp: sorted_append)
qed

lemma del_sorted:
  assumes "inv s" "fd \<in> set (fds s)"
    and "sorted (map (\<lambda>x. (key (data s x) :: 'k :: linorder)) (fds s))"
    and "del s fd = Some (s', n)"
  shows "sorted (map (\<lambda>x. key (data s' x)) (fds s'))"
proof -
  obtain s'' n' where "del s fd = Some (s'', n')" "fds s'' = remove1 fd (fds s)"
    "\<forall>x \<in> set (fds s) - {fd}. data s'' x = data s x"
    using del_member[OF assms(1,2)] by blast
  then have s': "fds s' = remove1 fd (fds s)" "\<forall>x \<in> set (fds s) - {fd}. data s' x = data s x"
    using assms(4) by auto
  have "map (\<lambda>x. key (data s' x)) (fds s') = map (\<lambda>x. key (data s x)) (remove1 fd (fds s))"
    using s' fds_distinct[OF assms(1)] by (intro map_cong) (auto simp: set_remove1_eq)
  moreover have "sorted (map (\<lambda>x. key (data s x)) (remove1 fd (fds s)))"
    using assms(3) by (metis sorted_map_remove1)
  ultimately show ?thesis by simp
qed

end

definition sl_inv :: "socket_list \<Rightarrow> bool" where
  "sl_inv l \<longleftrightarrow> wf_sl l (sl_fds l)"

interpretation sl: fd_list "\<lambda>l fd (ip, port, tmo). add_to_socket_list l fd ip port tmo"
  del_from_socket_list sl_fds sl_data sl_inv sl_size
proof
  fix s fd d xs ys and x :: int
  show "sl_inv s \<Longrightarrow> distinct (sl_fds s)" by (simp add: sl_inv_def wf_sl_def)
  show "sl_inv s \<Longrightarrow> x \<in> set (sl_fds s) \<Longrightarrow> 0 \<le> x \<and> x < sl_size s"
    using wf_sl_in_arr[of s "sl_fds s" x] by (auto simp: sl_inv_def wf_sl_def in_arr_def)
  show "\<exists>s'. (case d of (ip, port, tmo) \<Rightarrow> add_to_socket_list s fd ip port tmo) = Some s' \<and> sl_inv s' \<and>
      sl_size s' = sl_size s \<and> sl_fds s' = sl_fds s @ [fd] \<and> sl_data s' fd = d \<and>
      (\<forall>x \<in> set (sl_fds s). sl_data s' x = sl_data s x)"
    if "sl_inv s" "0 \<le> fd" "fd < sl_size s" "fd \<notin> set (sl_fds s)"
  proof -
    have wf: "wf_sl s (sl_fds s)" using that by (simp add: sl_inv_def)
    have ia: "in_arr (entries s) fd" using wf that by (simp add: wf_sl_def in_arr_def)
    obtain ip port tmo where d: "d = (ip, port, tmo)" by (cases d) auto
    show ?thesis
      by (rule add_wf[OF wf ia that(4), of ip port tmo])
        (use d wf_sl_fds in \<open>auto simp: sl_inv_def\<close>)
  qed
  show "\<exists>s'. del_from_socket_list s fd = Some (s', head_or ys (-1)) \<and> sl_inv s' \<and>
      sl_size s' = sl_size s \<and> sl_fds s' = xs @ ys \<and> (\<forall>x \<in> set (xs @ ys). sl_data s' x = sl_data s x)"
    if "sl_inv s" "sl_fds s = xs @ fd # ys"
  proof -
    have wf: "wf_sl s (xs @ fd # ys)" using that by (simp add: sl_inv_def)
    show ?thesis by (rule del_wf[OF wf]) (use wf_sl_fds in \<open>auto simp: sl_inv_def\<close>)
  qed
qed

lemma sl_inv_init: "length mem = nat n \<Longrightarrow> 0 \<le> n \<Longrightarrow>
    sl_inv (init_socket_list mem n) \<and> sl_fds (init_socket_list mem n) = []"
  using wf_init[of mem n] by (simp add: sl_inv_def wf_sl_fds)

section \<open>Refinement of an association list\<close>

text \<open>
  The specification: the pending sockets with their data, in the order of insertion. A caller adds
  descriptors in range that are not pending, and deletes pending ones.
\<close>

datatype sl_call = Sl_add int u32 int u64 | Sl_del int

type_synonym sl_spec = "(int \<times> u32 \<times> int \<times> u64) list"

fun spec_del :: "int \<Rightarrow> sl_spec \<Rightarrow> (sl_spec \<times> int) option" where
  "spec_del fd [] = None"
| "spec_del fd ((x, d) # xs) =
     (if x = fd then Some (xs, head_or (map fst xs) (-1))
      else map_option (\<lambda>(ys, n). ((x, d) # ys, n)) (spec_del fd xs))"

fun spec_op :: "int \<Rightarrow> sl_call \<Rightarrow> sl_spec \<Rightarrow> (sl_spec \<times> int) option" where
  "spec_op n (Sl_add fd ip port tmo) xs =
     (if 0 \<le> fd \<and> fd < n \<and> fd \<notin> set (map fst xs) then Some (xs @ [(fd, ip, port, tmo)], 0) else None)"
| "spec_op n (Sl_del fd) xs = spec_del fd xs"

fun sl_op :: "sl_call \<Rightarrow> socket_list \<Rightarrow> (socket_list \<times> int) option" where
  "sl_op (Sl_add fd ip port tmo) l =
     map_option (\<lambda>l'. (l', 0)) (add_to_socket_list l fd ip port tmo)"
| "sl_op (Sl_del fd) l = del_from_socket_list l fd"

text \<open>A sequence of calls, with the results of the deletions.\<close>

fun run_ops :: "('o \<Rightarrow> 's \<Rightarrow> ('s \<times> int) option) \<Rightarrow> 'o list \<Rightarrow> 's \<Rightarrow> ('s \<times> int list) option" where
  "run_ops f [] s = Some (s, [])"
| "run_ops f (x # xs) s =
     (case f x s of None \<Rightarrow> None
      | Some (s', r) \<Rightarrow> map_option (\<lambda>(s'', rs). (s'', r # rs)) (run_ops f xs s'))"

definition sl_abs :: "socket_list \<Rightarrow> sl_spec" where
  "sl_abs l = map (\<lambda>fd. (fd, sl_data l fd)) (sl_fds l)"

lemma sl_abs_fst [simp]: "map fst (sl_abs l) = sl_fds l"
  by (simp add: sl_abs_def comp_def)

lemma spec_del_split:
  "spec_del fd xs = Some (ys, n) \<Longrightarrow>
   \<exists>us d vs. xs = us @ (fd, d) # vs \<and> ys = us @ vs \<and> n = head_or (map fst vs) (-1)"
proof (induction xs arbitrary: ys)
  case (Cons x xs)
  obtain k d where x: "x = (k, d)" by (cases x)
  show ?case
  proof (cases "k = fd")
    case True
    with Cons.prems x show ?thesis by (intro exI[of _ "[]"]) (cases d, auto)
  next
    case False
    then obtain zs where zs: "spec_del fd xs = Some (zs, n)" "ys = x # zs"
      using Cons.prems x by auto
    then obtain us d' vs where "xs = us @ (fd, d') # vs" "zs = us @ vs" "n = head_or (map fst vs) (-1)"
      using Cons.IH by blast
    with zs show ?thesis by (intro exI[of _ "x # us"]) (cases d', auto)
  qed
qed simp

lemma sl_op_refines:
  assumes inv: "sl_inv l" and spec: "spec_op (sl_size l) x (sl_abs l) = Some (ys, r)"
  shows "\<exists>l'. sl_op x l = Some (l', r) \<and> sl_inv l' \<and> sl_size l' = sl_size l \<and> sl_abs l' = ys"
proof (cases x)
  case (Sl_add fd ip port tmo)
  with spec have fd: "0 \<le> fd" "fd < sl_size l" "fd \<notin> set (sl_fds l)"
    and y: "ys = sl_abs l @ [(fd, ip, port, tmo)]" "r = 0"
    by (auto split: if_splits simp flip: sl_abs_fst)
  from sl.add_ok[OF inv fd, of "(ip, port, tmo)"] show ?thesis
    using y Sl_add by (auto simp: sl_abs_def)
next
  case (Sl_del fd)
  with spec have "spec_del fd (sl_abs l) = Some (ys, r)" by simp
  then obtain us d vs where s: "sl_abs l = us @ (fd, d) # vs" "ys = us @ vs"
    "r = head_or (map fst vs) (-1)" using spec_del_split by blast
  then have f: "sl_fds l = map fst us @ fd # map fst vs"
    by (simp flip: sl_abs_fst)
  obtain l' where l': "del_from_socket_list l fd = Some (l', r)" "sl_inv l'" "sl_size l' = sl_size l"
    "sl_fds l' = map fst us @ map fst vs"
    "\<forall>x \<in> set (map fst us @ map fst vs). sl_data l' x = sl_data l x"
    using sl.del_ok[OF inv f] s(3) by blast
  have el: "\<forall>e \<in> set (sl_abs l). snd e = sl_data l (fst e)" by (auto simp: sl_abs_def)
  have "(fst e, sl_data l' (fst e)) = e" if "e \<in> set (us @ vs)" for e
  proof -
    have "fst e \<in> set (map fst us @ map fst vs)" using that by auto
    then have "sl_data l' (fst e) = snd e" using l'(5) el s(1) that by auto
    then show ?thesis by simp
  qed
  then have "map (\<lambda>k. (k, sl_data l' k)) (map fst (us @ vs)) = us @ vs"
    by (simp add: comp_def map_idI)
  then have "sl_abs l' = ys" using l'(4) s(2) by (simp add: sl_abs_def)
  with l' Sl_del show ?thesis by simp
qed

text \<open>C19: \<open>socket_list.c\<close> implements an insertion-ordered table. Started from \<open>init_socket_list\<close>,
  every sequence of additions and deletions the specification allows runs without an access outside
  the array, and leaves exactly the specified sockets, in order, with their address, port and
  timeout; each deletion answers the next socket in the list, or \<open>-1\<close> at its end.\<close>

theorem socket_list_refines:
  assumes "length mem = nat n" "0 \<le> n" and "run_ops (spec_op n) ops [] = Some (xs, rs)"
  shows "\<exists>l. run_ops sl_op ops (init_socket_list mem n) = Some (l, rs) \<and> sl_inv l \<and> sl_abs l = xs"
proof -
  have "run_ops (spec_op (sl_size l)) ops (sl_abs l) = Some (xs, rs) \<Longrightarrow> sl_inv l \<Longrightarrow>
      \<exists>l'. run_ops sl_op ops l = Some (l', rs) \<and> sl_inv l' \<and> sl_abs l' = xs" for l
  proof (induction ops arbitrary: l rs)
    case (Cons x ops)
    then obtain ys r rs' where step: "spec_op (sl_size l) x (sl_abs l) = Some (ys, r)"
      "run_ops (spec_op (sl_size l)) ops ys = Some (xs, rs')" "rs = r # rs'"
      by (auto split: option.splits)
    obtain l' where l': "sl_op x l = Some (l', r)" "sl_inv l'" "sl_size l' = sl_size l" "sl_abs l' = ys"
      using sl_op_refines[OF Cons.prems(2) step(1)] by blast
    with Cons.IH[of l' rs'] step show ?case by auto
  qed auto
  moreover have "sl_inv (init_socket_list mem n)" "sl_abs (init_socket_list mem n) = []"
    using sl_inv_init[OF assms(1,2)] by (simp_all add: sl_abs_def)
  moreover have "sl_size (init_socket_list mem n) = n" by (simp add: init_socket_list_def)
  ultimately show ?thesis using assms(3) by auto
qed

theorem socket_list_refines_witness:
  "\<exists>l. run_ops sl_op [Sl_add 2 10 80 100, Sl_add 0 11 81 200, Sl_add 1 12 82 300, Sl_del 0]
       (init_socket_list (replicate 4 \<lparr>prev_fd = 7, next_fd = 7, e_timeout = 7, e_ip = 7, e_port = 7\<rparr>) 4)
       = Some (l, [0, 0, 0, 1]) \<and> sl_abs l = [(2, 10, 80, 100), (1, 12, 82, 300)]"
proof -
  have "run_ops (spec_op 4) [Sl_add 2 10 80 100, Sl_add 0 11 81 200, Sl_add 1 12 82 300, Sl_del 0] []
    = Some ([(2, 10, 80, 100), (1, 12, 82, 300)], [0, 0, 0, 1])" by code_simp
  from socket_list_refines[OF _ _ this, of "replicate 4
      \<lparr>prev_fd = 7, next_fd = 7, e_timeout = 7, e_ip = 7, e_port = 7\<rparr>"]
  show ?thesis by auto
qed

end
