(* ===== verification/Scanner.thy ===== *)
theory Scanner
  imports Args Log Socket_List
begin

unbundle bit_operations_syntax

text \<open>
  The scanning thread of \<^verbatim>\<open>cscan.c\<close>: \<open>check_connect_interval\<close>, \<open>try_connect\<close>, \<open>print_stats\<close>,
  \<open>queue_result\<close> and the loop of \<open>conn_thread\<close>, which fills the table of pending sockets, waits in
  \<open>epoll_wait\<close>, handles the events, and expires what has timed out.

  The system is a parameter: the calls of \<open>Sockets\<close> and the ones only the scanner makes. The state holds
  the globals and statics the thread uses, the results it has queued and the calls it made to write the
  log, in order. \<open>fill_loop\<close> has fuel, since nothing bounds it; \<open>conn_loop\<close> has the number of rounds.
  This is the build without \<open>METRICS\<close>.
\<close>

section \<open>The system and the state\<close>

text \<open>
  \<open>sy_junk\<close>: what is in the uninitialised \<open>ret\<close> of \<open>gen_rand32\<close>. \<open>sy_bind\<close> answers \<open>None\<close>, or the \<open>errno\<close>;
  its arguments are the address in network order and the port. \<open>sy_sockopt\<close> makes the three \<open>setsockopt\<close>
  calls, whose results are ignored. \<open>sy_epoll_wait\<close> answers no event for an error.
\<close>

record 'w sys =
  sy_os :: "'w os"
  sy_rng :: "'w rng"
  sy_junk :: u32
  sy_us :: "'w \<Rightarrow> u64 \<times> 'w"
  sy_usleep :: "u32 \<Rightarrow> 'w \<Rightarrow> 'w"
  sy_time :: "'w \<Rightarrow> u64 \<times> 'w"
  sy_sockopt :: "int \<Rightarrow> 'w \<Rightarrow> 'w"
  sy_bind :: "int \<Rightarrow> u32 \<Rightarrow> u16 \<Rightarrow> 'w \<Rightarrow> errno option \<times> 'w"
  sy_epoll_add :: "int \<Rightarrow> 'w \<Rightarrow> bool \<times> 'w"
  sy_epoll_wait :: "int \<Rightarrow> int \<Rightarrow> 'w \<Rightarrow> (int \<times> revents) list \<times> 'w"
  sy_done :: "'w \<Rightarrow> bool \<times> 'w"
  sy_file :: bool

record 'w scan =
  sc_w :: 'w
  sc_list :: socket_list
  sc_rng_fd :: int
  sc_last_packet :: u64
  packets_sent :: int
  result_count :: int
  event_count :: int
  last_event_count :: int
  last_result_count :: int
  sc_queue :: "(u32 \<times> int) list"
  sc_calls :: "cba_call list"

definition sc_log :: "cba_call list \<Rightarrow> 'w scan \<Rightarrow> 'w scan" where
  "sc_log cs s = s\<lparr>sc_calls := sc_calls s @ cs\<rparr>"

section \<open>Operations\<close>

definition queue_result :: "u32 \<Rightarrow> int \<Rightarrow> 'w scan \<Rightarrow> 'w scan option" where
  "queue_result ip port s = do {
     n \<leftarrow> cadd (result_count s) 1;
     Some (s\<lparr>sc_queue := sc_queue s @ [(ip, port)], result_count := n\<rparr>)
   }"

definition check_connect_interval :: "'w sys \<Rightarrow> options \<Rightarrow> 'w scan \<Rightarrow> 'w scan" where
  "check_connect_interval sy p s =
     (let (now, w) = sy_us sy (sc_w s); next = sc_last_packet s + word_of_int (connect_interval p) in
      if now < next
      then s\<lparr>sc_w := sy_usleep sy (ucast (next - now)) w, sc_last_packet := next\<rparr>
      else s\<lparr>sc_w := w, sc_last_packet := now\<rparr>)"

definition print_stats :: "'w sys \<Rightarrow> 'w scan \<Rightarrow> 'w scan option" where
  "print_stats sy s = do {
     ne \<leftarrow> csub (event_count s) (last_event_count s);
     nr \<leftarrow> csub (result_count s) (last_result_count s);
     let (t, w) = (if sy_file sy then sy_time sy (sc_w s) else (0, sc_w s));
     Some ((sc_log (log_stats (sy_file sy) t ne nr) s)
       \<lparr>sc_w := w, last_event_count := event_count s, last_result_count := result_count s\<rparr>)
   }"

text \<open>The target of the next packet; the canary replaces the one with the number \<open>canary_after\<close>.\<close>

definition pick_target :: "'w sys \<Rightarrow> options \<Rightarrow> tables \<Rightarrow> 'w scan \<Rightarrow> (u32 \<times> int \<times> 'w scan) option" where
  "pick_target sy p tb s = do {
     (ip, fd, w) \<leftarrow> random_ip (sy_rng sy) (tb_ranges tb) (sy_junk sy) (sc_rng_fd s) (sc_w s);
     (port, fd, w) \<leftarrow> random_port (sy_rng sy) (tb_ports tb) (sy_junk sy) fd w;
     let (ip, port) = (if canary_ip p \<noteq> 0 \<and> packets_sent s = canary_after p
                       then (canary_ip p, canary_port p) else (ip, port));
     Some (ip, port, s\<lparr>sc_w := w, sc_rng_fd := fd\<rparr>)
   }"

text \<open>\<open>while(to_bind_port < bind_port+bind_max_retries)\<close>; \<open>port\<close> is the target's, and goes into the log.\<close>

function bind_loop ::
  "'w sys \<Rightarrow> u32 \<Rightarrow> int \<Rightarrow> int \<Rightarrow> int \<Rightarrow> int \<Rightarrow> 'w scan \<Rightarrow> 'w scan outcome" where
  "bind_loop sy bip sock port stop bp s =
     (if bp < stop then
        let (r, w) = sy_bind sy sock bip (word_of_int bp) (sc_w s); s = s\<lparr>sc_w := w\<rparr> in
        (case r of
           None \<Rightarrow> Some (Inr s)
         | Some e \<Rightarrow>
             if e = EADDRINUSE then
               let s = sc_log (log_event (sy_file sy) (''Can''@[CHR 0x27]@''t bind to port ''@ int_string port)) s in
               if bp \<noteq> 0 then bind_loop sy bip sock port stop (bp + 1) s else Some (Inr s)
             else Some (Inl (Exited 2)))
      else Some (Inr s))"
  by pat_completeness auto
termination
  by (relation "measure (\<lambda>(sy, bip, sock, port, stop, bp, s). nat (stop - bp))") auto

declare bind_loop.simps [simp del]

definition open_socket :: "'w sys \<Rightarrow> options \<Rightarrow> int \<Rightarrow> 'w scan \<Rightarrow> (int \<times> 'w scan) outcome" where
  "open_socket sy p port s =
     (let (sock, w) = socket4_setup (sy_os sy) 0 (sc_w s) in
      if sock = -1 then Some (Inl (Exited 1))
      else let s = s\<lparr>sc_w := sy_sockopt sy sock w\<rparr> in
        if bind_ip_n p \<noteq> 0 \<or> bind_port p \<noteq> 0
        then (case cadd (bind_port p) (bind_max_retries p) of None \<Rightarrow> None
          | Some stop \<Rightarrow> then_do (bind_loop sy (bind_ip_n p) sock port stop (bind_port p) s)
              (\<lambda>s. Some (Inr (sock, s))))
        else Some (Inr (sock, s)))"

text \<open>The counters after a packet, and the statistics every \<open>stats_every\<close> packets.\<close>

definition count_packet :: "'w sys \<Rightarrow> options \<Rightarrow> int \<Rightarrow> 'w scan \<Rightarrow> 'w scan option" where
  "count_packet sy p sock s = do {
     n \<leftarrow> cadd (packets_sent s) 1;
     let s = s\<lparr>packets_sent := n\<rparr>;
     s \<leftarrow> (if -2 \<le> sock then do { n \<leftarrow> cadd (event_count s) 1; Some (s\<lparr>event_count := n\<rparr>) }
          else Some s);
     m \<leftarrow> cmod (packets_sent s) (stats_every p);
     if m = 0 then print_stats sy s else Some s
   }"

text \<open>What follows the connection attempt; a negative result below \<open>-2\<close> is a pending socket.\<close>

definition after_connect ::
  "'w sys \<Rightarrow> options \<Rightarrow> int \<Rightarrow> u32 \<Rightarrow> int \<Rightarrow> 'w scan \<Rightarrow> (int \<times> 'w scan) outcome" where
  "after_connect sy p sock ip port s =
     (if sock = -2 \<and> os_errno (sy_os sy) (sc_w s) \<in> {EADDRINUSE, EADDRNOTAVAIL}
      then Some (Inr (-1, sc_log (log_event (sy_file sy) ''possible clash'') s))
      else if sock = -2 then Some (Inl (Exited 1))
      else if sock = -1 then Some (Inr (-1, s))
      else if 0 \<le> sock
      then map_option (\<lambda>s. Inr (-1, s\<lparr>sc_w := os_close (sy_os sy) sock (sc_w s)\<rparr>)) (queue_result ip port s)
      else let sock = - sock - 2 in
        if sl_size (sc_list s) \<le> sock then Some (Inl (Exited 1))
        else let (now, w) = os_ms (sy_os sy) (sc_w s) in
          map_option (\<lambda>l. Inr (sock, s\<lparr>sc_w := w, sc_list := l\<rparr>))
            (add_to_socket_list (sc_list s) sock ip port (now + word_of_int (connect_timeout p))))"

definition try_connect :: "'w sys \<Rightarrow> options \<Rightarrow> tables \<Rightarrow> 'w scan \<Rightarrow> (int \<times> 'w scan) outcome" where
  "try_connect sy p tb s =
     (case pick_target sy p tb s of None \<Rightarrow> None
      | Some (ip, port, s) \<Rightarrow>
          then_do (open_socket sy p port s) (\<lambda>(sock, s).
            let (sock, w) = socket4_try_connect (sy_os sy) sock ip port (sc_w s) in
            case count_packet sy p sock (s\<lparr>sc_w := w\<rparr>) of None \<Rightarrow> None
            | Some s \<Rightarrow> after_connect sy p sock ip port s))"

section \<open>The loop\<close>

definition watch_socket :: "'w sys \<Rightarrow> int \<times> 'w scan \<Rightarrow> 'w scan outcome" where
  "watch_socket sy = (\<lambda>(tfd, s).
     if 0 \<le> tfd
     then let (ok, w) = sy_epoll_add sy tfd (sc_w s) in
       if ok then Some (Inr (s\<lparr>sc_w := w\<rparr>)) else Some (Inl (Exited 1))
     else Some (Inr s))"

definition fill_step :: "'w sys \<Rightarrow> options \<Rightarrow> tables \<Rightarrow> 'w scan \<Rightarrow> 'w scan outcome" where
  "fill_step sy p tb s =
     (let s = (if connect_interval p \<noteq> 0 then check_connect_interval sy p s else s) in
      then_do (try_connect sy p tb s) (watch_socket sy))"

fun fill_loop :: "'w sys \<Rightarrow> options \<Rightarrow> tables \<Rightarrow> nat \<Rightarrow> 'w scan \<Rightarrow> 'w scan outcome" where
  "fill_loop sy p tb fuel s =
     (if num_sockets (sc_list s) < max_pending_sockets p
      then (case fuel of 0 \<Rightarrow> Some (Inl Spinning)
            | Suc n \<Rightarrow> then_do (fill_step sy p tb s) (fill_loop sy p tb n))
      else Some (Inr s))"

declare fill_loop.simps [simp del]

definition wait_events ::
  "'w sys \<Rightarrow> options \<Rightarrow> 'w scan \<Rightarrow> ((int \<times> revents) list \<times> 'w scan) option" where
  "wait_events sy p s = do {
     let (now, w) = os_ms (sy_os sy) (sc_w s);
     e \<leftarrow> arr_get (entries (sc_list s)) (first_fd (sc_list s));
     let timeout = (if now < e_timeout e then to_int32 (ucast (e_timeout e - now)) else 0);
     let (evs, w) = sy_epoll_wait sy (max_pending_sockets p) timeout w;
     Some (evs, s\<lparr>sc_w := w\<rparr>)
   }"

definition ev_good :: "revents \<Rightarrow> bool" where
  "ev_good ev \<longleftrightarrow> ev_out ev \<and> \<not> (ev_err ev \<or> ev_hup ev)"

definition drop_socket :: "'w sys \<Rightarrow> int \<Rightarrow> 'w scan \<Rightarrow> (int \<times> 'w scan) option" where
  "drop_socket sy fd s =
     map_option (\<lambda>(l, next). (next, s\<lparr>sc_w := os_close (sy_os sy) fd (sc_w s), sc_list := l\<rparr>))
       (del_from_socket_list (sc_list s) fd)"

definition handle_event :: "'w sys \<Rightarrow> options \<Rightarrow> int \<times> revents \<Rightarrow> 'w scan \<Rightarrow> 'w scan option" where
  "handle_event sy p = (\<lambda>(fd, ev) s. do {
     e \<leftarrow> arr_get (entries (sc_list s)) fd;
     s \<leftarrow> (if canary_ip p \<noteq> 0 \<and> e_ip e = canary_ip p \<and> e_port e = canary_port p
          then Some (if ev_good ev then s else sc_log (log_canary_fail (sy_file sy) True) s)
          else if ev_good ev then queue_result (e_ip e) (e_port e) s else Some s);
     n \<leftarrow> cadd (event_count s) 1;
     map_option snd (drop_socket sy fd (s\<lparr>event_count := n\<rparr>))
   })"

fun handle_events :: "'w sys \<Rightarrow> options \<Rightarrow> (int \<times> revents) list \<Rightarrow> 'w scan \<Rightarrow> 'w scan option" where
  "handle_events sy p [] s = Some s"
| "handle_events sy p (ev # evs) s = Option.bind (handle_event sy p ev s) (handle_events sy p evs)"

text \<open>The expiry loop, with \<open>fuel\<close> for the walk through the list.\<close>

fun expire_loop :: "'w sys \<Rightarrow> options \<Rightarrow> u64 \<Rightarrow> nat \<Rightarrow> int \<Rightarrow> 'w scan \<Rightarrow> 'w scan outcome" where
  "expire_loop sy p now fuel fd s =
     (if fd = -1 then Some (Inr s)
      else case arr_get (entries (sc_list s)) fd of None \<Rightarrow> None
      | Some e \<Rightarrow>
          if now < e_timeout e then Some (Inr s)
          else case fuel of 0 \<Rightarrow> Some (Inl Spinning)
          | Suc n \<Rightarrow>
              let s = (if e_ip e = canary_ip p \<and> e_port e = canary_port p
                       then sc_log (log_canary_fail (sy_file sy) False) s else s) in
              case drop_socket sy fd s of None \<Rightarrow> None
              | Some (fd, s) \<Rightarrow> expire_loop sy p now n fd s)"

declare expire_loop.simps [simp del]

definition expire :: "'w sys \<Rightarrow> options \<Rightarrow> 'w scan \<Rightarrow> 'w scan outcome" where
  "expire sy p s =
     (let (now, w) = os_ms (sy_os sy) (sc_w s); s = s\<lparr>sc_w := w\<rparr> in
      expire_loop sy p now (nat (num_sockets (sc_list s))) (first_fd (sc_list s)) s)"

definition conn_round :: "'w sys \<Rightarrow> options \<Rightarrow> tables \<Rightarrow> nat \<Rightarrow> 'w scan \<Rightarrow> 'w scan outcome" where
  "conn_round sy p tb fuel s =
     then_do (fill_loop sy p tb fuel s) (\<lambda>s.
       case wait_events sy p s of None \<Rightarrow> None
       | Some (evs, s) \<Rightarrow>
           (case handle_events sy p evs s of None \<Rightarrow> None | Some s \<Rightarrow> expire sy p s))"

fun conn_loop :: "'w sys \<Rightarrow> options \<Rightarrow> tables \<Rightarrow> nat \<Rightarrow> nat \<Rightarrow> 'w scan \<Rightarrow> 'w scan outcome" where
  "conn_loop sy p tb fuel rounds s =
     (let (fin, w) = sy_done sy (sc_w s); s = s\<lparr>sc_w := w\<rparr> in
      if fin then Some (Inr s)
      else case rounds of 0 \<Rightarrow> Some (Inl Spinning)
      | Suc n \<Rightarrow> then_do (conn_round sy p tb fuel s) (conn_loop sy p tb fuel n))"

declare conn_loop.simps [simp del]

text \<open>\<open>conn_thread\<close>: the table is sized by two options; \<open>mem\<close> is what \<open>malloc\<close> returned for it.\<close>

definition conn_thread ::
  "'w sys \<Rightarrow> options \<Rightarrow> tables \<Rightarrow> sl_entry list \<Rightarrow> nat \<Rightarrow> nat \<Rightarrow> 'w scan \<Rightarrow> 'w scan outcome" where
  "conn_thread sy p tb mem fuel rounds s =
     (case cadd (max_pending_sockets p) (socket_list_excess p) of None \<Rightarrow> None
      | Some n \<Rightarrow> conn_loop sy p tb fuel rounds (s\<lparr>sc_list := init_socket_list mem n\<rparr>))"

end
