(* ===== verification/Scanner_Inv.thy ===== *)
theory Scanner_Inv
  imports Scanner
begin

text \<open>
  The invariant of the scanning thread. A view of the world tells the open descriptors, the ones
  \<open>epoll\<close> watches, and the millisecond clock; \<open>sys_ok\<close> is what the calls are relied on to do to it.

  \<open>moved F W s s'\<close> is the frame: from \<open>s\<close> to \<open>s'\<close> only the world, the log, the generator's descriptor and
  the pacing stamp have changed, and the open and watched descriptors are now \<open>F\<close> and \<open>W\<close>.
\<close>

section \<open>What the system is relied on for\<close>

record 'w view =
  vw_open :: "'w \<Rightarrow> int set"
  vw_watched :: "'w \<Rightarrow> int set"
  vw_clock :: "'w \<Rightarrow> nat"

definition same :: "'w view \<Rightarrow> 'w \<Rightarrow> 'w \<Rightarrow> bool" where
  "same v w w' \<longleftrightarrow> vw_open v w' = vw_open v w \<and> vw_watched v w' = vw_watched v w \<and> vw_clock v w \<le> vw_clock v w'"

definition quiet :: "'w view \<Rightarrow> ('w \<Rightarrow> 'a \<times> 'w) \<Rightarrow> bool" where
  "quiet v f \<longleftrightarrow> (\<forall>w. same v w (snd (f w)))"

lemma same_refl [simp]: "same v w w"
  by (simp add: same_def)

lemma same_trans [trans]: "same v w w' \<Longrightarrow> same v w' w'' \<Longrightarrow> same v w w''"
  by (auto simp: same_def)

lemma quietD: "quiet v f \<Longrightarrow> f w = (r, w') \<Longrightarrow> same v w w'"
  by (metis quiet_def snd_conv)

text \<open>The calls that leave descriptors alone, in one list per kind of result.\<close>

definition os_quiet :: "'w view \<Rightarrow> 'w os \<Rightarrow> bool" where
  "os_quiet v os \<longleftrightarrow> quiet v (os_ms os) \<and> (\<forall>fd. quiet v (os_getfl os fd)) \<and>
     (\<forall>fd fl. quiet v (os_setfl os fd fl)) \<and> (\<forall>fd ip port. quiet v (os_connect os fd ip port)) \<and>
     (\<forall>fd w. same v w (os_linger os fd w)) \<and> (\<forall>fd w. same v w (os_cloexec os fd w))"

definition os_fds :: "'w view \<Rightarrow> 'w os \<Rightarrow> bool" where
  "os_fds v os \<longleftrightarrow> tracks_fds os (vw_open v) \<and> fcntl_works os \<and>
     (\<forall>w. vw_watched v (snd (os_socket os w)) = vw_watched v w \<and> vw_clock v w \<le> vw_clock v (snd (os_socket os w))) \<and>
     (\<forall>fd w. vw_watched v (os_close os fd w) = vw_watched v w - {fd} \<and> vw_clock v w \<le> vw_clock v (os_close os fd w))"

definition os_time :: "'w view \<Rightarrow> 'w os \<Rightarrow> bool" where
  "os_time v os \<longleftrightarrow> (\<forall>w. vw_clock v w < 2 ^ 63 \<and> fst (os_ms os w) = word_of_nat (vw_clock v (snd (os_ms os w))))"

definition sys_quiet :: "'w view \<Rightarrow> 'w sys \<Rightarrow> bool" where
  "sys_quiet v sy \<longleftrightarrow> quiet v (rng_open (sy_rng sy)) \<and> (\<forall>fd r. quiet v (rng_read (sy_rng sy) fd r)) \<and>
     quiet v (sy_us sy) \<and> quiet v (sy_time sy) \<and> quiet v (sy_done sy) \<and>
     (\<forall>fd ip port. quiet v (sy_bind sy fd ip port)) \<and> (\<forall>n t. quiet v (sy_epoll_wait sy n t)) \<and>
     (\<forall>t w. same v w (sy_usleep sy t w)) \<and> (\<forall>fd w. same v w (sy_sockopt sy fd w))"

text \<open>\<open>epoll_ctl\<close> starts to watch a descriptor; \<open>epoll_wait\<close> reports watched descriptors, each once.\<close>

definition sys_epoll :: "'w view \<Rightarrow> 'w sys \<Rightarrow> bool" where
  "sys_epoll v sy \<longleftrightarrow>
     (\<forall>fd w. case sy_epoll_add sy fd w of (ok, w') \<Rightarrow> vw_open v w' = vw_open v w \<and>
        (ok \<longrightarrow> vw_watched v w' = insert fd (vw_watched v w)) \<and> vw_clock v w \<le> vw_clock v w') \<and>
     (\<forall>n t w. let evs = fst (sy_epoll_wait sy n t w) in
        distinct (map fst evs) \<and> fst ` set evs \<subseteq> vw_watched v w)"

definition sys_ok :: "'w view \<Rightarrow> 'w sys \<Rightarrow> bool" where
  "sys_ok v sy \<longleftrightarrow> os_quiet v (sy_os sy) \<and> os_fds v (sy_os sy) \<and> os_time v (sy_os sy) \<and>
     sys_quiet v sy \<and> sys_epoll v sy"

lemma sys_ok_same:
  assumes "sys_ok v sy"
  shows "os_ms (sy_os sy) w = (t, w') \<Longrightarrow> same v w w'"
    and "os_getfl (sy_os sy) fd w = (r, w') \<Longrightarrow> same v w w'"
    and "os_setfl (sy_os sy) fd fl w = (r, w') \<Longrightarrow> same v w w'"
    and "os_connect (sy_os sy) fd ip port w = (c, w') \<Longrightarrow> same v w w'"
    and "same v w (os_linger (sy_os sy) fd w)" "same v w (os_cloexec (sy_os sy) fd w)"
    and "rng_open (sy_rng sy) w = (r, w') \<Longrightarrow> same v w w'"
    and "rng_read (sy_rng sy) fd r0 w = (x, w') \<Longrightarrow> same v w w'"
    and "sy_us sy w = (t, w') \<Longrightarrow> same v w w'" and "sy_time sy w = (t, w') \<Longrightarrow> same v w w'"
    and "sy_done sy w = (b, w') \<Longrightarrow> same v w w'"
    and "sy_bind sy fd bip bp w = (e, w') \<Longrightarrow> same v w w'"
    and "sy_epoll_wait sy n tm w = (evs, w') \<Longrightarrow> same v w w'"
    and "same v w (sy_usleep sy us w)" "same v w (sy_sockopt sy fd w)"
proof -
  have q: "quiet v (os_ms (sy_os sy))" "\<And>fd. quiet v (os_getfl (sy_os sy) fd)"
    "\<And>fd fl. quiet v (os_setfl (sy_os sy) fd fl)" "\<And>fd ip port. quiet v (os_connect (sy_os sy) fd ip port)"
    "quiet v (rng_open (sy_rng sy))" "\<And>fd r. quiet v (rng_read (sy_rng sy) fd r)"
    "quiet v (sy_us sy)" "quiet v (sy_time sy)" "quiet v (sy_done sy)"
    "\<And>fd ip port. quiet v (sy_bind sy fd ip port)" "\<And>n t. quiet v (sy_epoll_wait sy n t)"
    using assms by (simp_all add: sys_ok_def os_quiet_def sys_quiet_def)
  show "os_ms (sy_os sy) w = (t, w') \<Longrightarrow> same v w w'" by (rule quietD[OF q(1)])
  show "os_getfl (sy_os sy) fd w = (r, w') \<Longrightarrow> same v w w'" by (rule quietD[OF q(2)])
  show "os_setfl (sy_os sy) fd fl w = (r, w') \<Longrightarrow> same v w w'" by (rule quietD[OF q(3)])
  show "os_connect (sy_os sy) fd ip port w = (c, w') \<Longrightarrow> same v w w'" by (rule quietD[OF q(4)])
  show "rng_open (sy_rng sy) w = (r, w') \<Longrightarrow> same v w w'" by (rule quietD[OF q(5)])
  show "rng_read (sy_rng sy) fd r0 w = (x, w') \<Longrightarrow> same v w w'" by (rule quietD[OF q(6)])
  show "sy_us sy w = (t, w') \<Longrightarrow> same v w w'" by (rule quietD[OF q(7)])
  show "sy_time sy w = (t, w') \<Longrightarrow> same v w w'" by (rule quietD[OF q(8)])
  show "sy_done sy w = (b, w') \<Longrightarrow> same v w w'" by (rule quietD[OF q(9)])
  show "sy_bind sy fd bip bp w = (e, w') \<Longrightarrow> same v w w'" by (rule quietD[OF q(10)])
  show "sy_epoll_wait sy n tm w = (evs, w') \<Longrightarrow> same v w w'" by (rule quietD[OF q(11)])
qed (use assms in \<open>simp_all add: sys_ok_def os_quiet_def sys_quiet_def\<close>)

lemma sys_ok_fds:
  assumes "sys_ok v sy"
  shows "tracks_fds (sy_os sy) (vw_open v)" "fcntl_works (sy_os sy)"
  using assms by (simp_all add: sys_ok_def os_fds_def)

lemma sys_ok_close:
  assumes "sys_ok v sy"
  shows "vw_open v (os_close (sy_os sy) fd w) = vw_open v w - {fd}"
    "vw_watched v (os_close (sy_os sy) fd w) = vw_watched v w - {fd}"
    "vw_clock v w \<le> vw_clock v (os_close (sy_os sy) fd w)"
  using assms tracksD(2)[OF sys_ok_fds(1)[OF assms]] by (simp_all add: sys_ok_def os_fds_def)

lemma sys_ok_ms:
  assumes "sys_ok v sy" "os_ms (sy_os sy) w = (now, w')"
  shows "unat now = vw_clock v w'" "vw_clock v w' < 2 ^ 63"
proof -
  have "os_time v (sy_os sy)" using assms(1) by (simp add: sys_ok_def)
  then have t: "vw_clock v w' < 2 ^ 63" "now = word_of_nat (vw_clock v w')"
    using assms(2) by (auto simp: os_time_def dest: spec[of _ w])
  then show "unat now = vw_clock v w'" by (simp add: unsigned_of_nat take_bit_nat_eq_self)
  show "vw_clock v w' < 2 ^ 63" by (rule t(1))
qed

section \<open>The frame\<close>

definition moved :: "'w view \<Rightarrow> int set \<Rightarrow> int set \<Rightarrow> 'w scan \<Rightarrow> 'w scan \<Rightarrow> bool" where
  "moved v F W s s' \<longleftrightarrow> vw_open v (sc_w s') = F \<and> vw_watched v (sc_w s') = W \<and>
     vw_clock v (sc_w s) \<le> vw_clock v (sc_w s') \<and> sc_list s' = sc_list s \<and> sc_queue s' = sc_queue s \<and>
     packets_sent s' = packets_sent s \<and> result_count s' = result_count s \<and> event_count s' = event_count s \<and>
     last_event_count s' = last_event_count s \<and> last_result_count s' = last_result_count s \<and>
     (sc_rng_fd s \<noteq> -1 \<longrightarrow> sc_rng_fd s' \<noteq> -1)"

abbreviation unmoved :: "'w view \<Rightarrow> 'w scan \<Rightarrow> 'w scan \<Rightarrow> bool" where
  "unmoved v s s' \<equiv> moved v (vw_open v (sc_w s)) (vw_watched v (sc_w s)) s s'"

lemma unmoved_refl: "unmoved v s s"
  by (simp add: moved_def)

lemma moved_trans: "unmoved v s s' \<Longrightarrow> moved v F W s' s'' \<Longrightarrow> moved v F W s s''"
  by (auto simp: moved_def)

lemma unmoved_trans: "unmoved v s s' \<Longrightarrow> unmoved v s' s'' \<Longrightarrow> unmoved v s s''"
  by (auto simp: moved_def)

lemma moved_then_unmoved: "moved v F W s s' \<Longrightarrow> unmoved v s' s'' \<Longrightarrow> moved v F W s s''"
  by (auto simp: moved_def)

lemma unmoved_world: "same v (sc_w s) w \<Longrightarrow> unmoved v s (s\<lparr>sc_w := w\<rparr>)"
  by (simp add: moved_def same_def)

lemma unmoved_log: "unmoved v s (sc_log cs s)"
  by (simp add: moved_def sc_log_def)

section \<open>One packet\<close>

lemma gen_rand32_loop_same:
  assumes "sys_ok v sy" "gen_rand32_loop (sy_rng sy) msk mx fd r w = Some (x, w')"
  shows "same v w w'"
proof -
  let ?P = "\<lambda>g msk mx fd r w y. g = sy_rng sy \<longrightarrow> same v w (snd y)"
  have "?P (sy_rng sy) msk mx fd r w (x, w')"
  proof (rule gen_rand32_loop.raw_induct[where P = ?P, OF _ assms(2)])
    fix f g msk mx fd r w y
    assume IH: "\<And>g msk mx fd r w y. f g msk mx fd r w = Some y \<Longrightarrow> ?P g msk mx fd r w y"
      and eq: "(let (raw, w') = rng_read g fd r w; ret' = raw AND msk
        in if mx < ret' then f g msk mx fd ret' w' else Some (ret', w')) = Some y"
    obtain raw w1 where rd: "rng_read g fd r w = (raw, w1)" by force
    show "?P g msk mx fd r w y"
    proof
      assume g: "g = sy_rng sy"
      have s1: "same v w w1" using sys_ok_same(8)[OF assms(1)] rd g by metis
      show "same v w (snd y)"
      proof (cases "mx < raw AND msk")
        case True
        with eq rd have "f g msk mx fd (raw AND msk) w1 = Some y" by simp
        from IH[OF this] g have "same v w1 (snd y)" by simp
        with s1 show ?thesis by (rule same_trans)
      next
        case False
        with eq rd s1 show ?thesis by auto
      qed
    qed
  qed
  then show ?thesis by simp
qed

lemma gen_rand32_same:
  assumes "sys_ok v sy" "gen_rand32 (sy_rng sy) msk mx r fd w = Some (x, fd', w')"
  shows "same v w w'"
proof -
  obtain fd1 w1 where f: "(if fd = 0 then rng_open (sy_rng sy) w else (fd, w)) = (fd1, w1)" by force
  have s1: "same v w w1" using f sys_ok_same(7)[OF assms(1)] by (auto split: if_splits)
  show ?thesis
    using assms(2) f s1 gen_rand32_loop_same[OF assms(1)]
    by (auto simp: gen_rand32_def split: if_splits intro: same_trans)
qed

lemma pick_target_moved:
  assumes "sys_ok v sy" "pick_target sy p tb s = Some (ip, port, s')" "sc_rng_fd s' \<noteq> -1"
  shows "unmoved v s s'"
proof -
  obtain ip0 fd0 w0 port0 fd1 w1 where r: "random_ip (sy_rng sy) (tb_ranges tb) (sy_junk sy) (sc_rng_fd s) (sc_w s)
      = Some (ip0, fd0, w0)" "random_port (sy_rng sy) (tb_ports tb) (sy_junk sy) fd0 w0 = Some (port0, fd1, w1)"
    "s' = s\<lparr>sc_w := w1, sc_rng_fd := fd1\<rparr>"
    using assms(2) by (auto simp: pick_target_def Option.bind_eq_Some_conv Let_def split: if_splits)
  have "same v (sc_w s) w0" using r(1) gen_rand32_same[OF assms(1)]
    by (auto simp: random_ip_def split: option.splits)
  also have "same v w0 w1" using r(2) gen_rand32_same[OF assms(1)]
    by (auto simp: random_port_def split: option.splits)
  finally show ?thesis using r(3) assms(3) by (simp add: moved_def same_def)
qed

lemma bind_loop_moved:
  assumes "sys_ok v sy"
  shows "lands (bind_loop sy bip sock port lim bp s) (unmoved v s)"
proof -
  have "sy' = sy \<Longrightarrow> lands (bind_loop sy' bip sock port lim bp s) (unmoved v s)" for sy'
  proof (induction sy' bip sock port lim bp s rule: bind_loop.induct)
    case (1 sy' bip sock port lim bp s)
    obtain r w where b: "sy_bind sy' sock bip (word_of_int bp) (sc_w s) = (r, w)" by force
    let ?s = "s\<lparr>sc_w := w\<rparr>"
    let ?l = "sc_log (log_event (sy_file sy') (''Can''@[CHR 0x27]@''t bind to port ''@ int_string port)) ?s"
    have u: "unmoved v s ?s" using b sys_ok_same(12)[OF assms] 1(2) by (auto intro: unmoved_world)
    then have ul: "unmoved v s ?l" using unmoved_log by (rule unmoved_trans)
    have "lands (bind_loop sy' bip sock port lim (bp + 1) ?l) (unmoved v ?l)"
      if "bp < lim" "r = Some EADDRINUSE" "bp \<noteq> 0"
      using 1(1)[OF that(1) b[symmetric] refl refl that(2)] 1(2) that by auto
    then have "lands (bind_loop sy' bip sock port lim (bp + 1) ?l) (unmoved v s)"
      if "bp < lim" "r = Some EADDRINUSE" "bp \<noteq> 0"
      using that ul by (auto elim: lands_mono intro: unmoved_trans)
    with b u ul show ?case
      by (subst bind_loop.simps) (auto simp: Let_def unmoved_refl split: option.splits)
  qed
  then show ?thesis by simp
qed

lemma open_socket_moved:
  assumes "sys_ok v sy" "int_ok (bind_port p + bind_max_retries p)" "0 \<in> vw_open v (sc_w s)"
  shows "lands (open_socket sy p port s) (\<lambda>(sock, s'). 0 < sock \<and> sock \<notin> vw_open v (sc_w s) \<and>
    moved v (insert sock (vw_open v (sc_w s))) (vw_watched v (sc_w s)) s s')"
proof -
  obtain s0 w0 where so: "os_socket (sy_os sy) (sc_w s) = (s0, w0)" by force
  have w0: "vw_watched v w0 = vw_watched v (sc_w s)" "vw_clock v (sc_w s) \<le> vw_clock v w0"
    using assms(1) so unfolding sys_ok_def os_fds_def by (metis snd_conv)+
  obtain sock w1 where su: "socket4_setup (sy_os sy) 0 (sc_w s) = (sock, w1)" by force
  note ok = socket4_setup_ok[OF sys_ok_fds(1)[OF assms(1)] su]
  show ?thesis
  proof (cases "sock = -1")
    case True
    with su show ?thesis by (simp add: open_socket_def)
  next
    case False
    have "same v w0 (os_cloexec (sy_os sy) sock (os_linger (sy_os sy) sock w0))"
      using same_trans[OF sys_ok_same(5)[OF assms(1)] sys_ok_same(6)[OF assms(1)]] .
    then have "same v w0 w1" using su so False sys_ok_same(5,6)[OF assms(1)]
      by (auto simp: socket4_setup_def Let_def split: if_splits)
    also have "same v w1 (sy_sockopt sy sock w1)" by (rule sys_ok_same(15)[OF assms(1)])
    finally have s2: "same v w0 (sy_sockopt sy sock w1)" .
    let ?s = "s\<lparr>sc_w := sy_sockopt sy sock w1\<rparr>"
    have f: "0 < sock" "sock \<notin> vw_open v (sc_w s)" "vw_open v w1 = insert sock (vw_open v (sc_w s))"
      using ok False assms(3) by (auto intro: le_neq_trans)
    have m: "moved v (insert sock (vw_open v (sc_w s))) (vw_watched v (sc_w s)) s ?s"
      using s2 w0 f(3) sys_ok_same(15)[OF assms(1), of w1 sock] by (auto simp: moved_def same_def)
    have "lands (bind_loop sy (bind_ip_n p) sock port (bind_port p + bind_max_retries p) (bind_port p) ?s)
        (\<lambda>s'. moved v (insert sock (vw_open v (sc_w s))) (vw_watched v (sc_w s)) s s')"
      by (rule lands_mono[OF bind_loop_moved[OF assms(1)]]) (rule moved_then_unmoved[OF m])
    with su False f m assms(2) show ?thesis
      by (auto simp: open_socket_def Let_def intro!: lands_then)
  qed
qed

lemma set_socket_blocking_same:
  assumes "sys_ok v sy" "set_socket_blocking (sy_os sy) sock b w = (r, w')"
  shows "same v w w'"
proof -
  obtain fl w1 where w1: "os_getfl (sy_os sy) sock w = (fl, w1)" by force
  define f where "f = (if b then to_u32 fl AND NOT O_NONBLOCK else to_u32 fl OR O_NONBLOCK)"
  obtain r2 w2 where w2: "os_setfl (sy_os sy) sock f w1 = (r2, w2)" by force
  have s1: "same v w w1" by (rule sys_ok_same(2)[OF assms(1) w1])
  have s2: "same v w1 w2" by (rule sys_ok_same(3)[OF assms(1) w2])
  have "w' = w1 \<or> w' = w2" using assms(2) w1 w2
    by (auto simp: set_socket_blocking_def f_def Let_def split: if_splits)
  with s1 same_trans[OF s1 s2] show ?thesis by blast
qed

lemma socket4_try_connect_world:
  assumes ok: "sys_ok v sy" and r: "socket4_try_connect (sy_os sy) sock ip port w = (r, w')"
    and fresh: "sock \<notin> vw_watched v w"
  shows "vw_watched v w' = vw_watched v w \<and> vw_clock v w \<le> vw_clock v w'"
proof -
  obtain r1 w1 where b1: "set_socket_blocking (sy_os sy) sock False w = (r1, w1)" by force
  obtain cres err w2 where c: "os_connect (sy_os sy) sock ip (word_of_int port) w1 = ((cres, err), w2)"
    by (cases "os_connect (sy_os sy) sock ip (word_of_int port) w1") (auto simp: split_paired_all)
  obtain r3 w3 where b3: "set_socket_blocking (sy_os sy) sock True w2 = (r3, w3)" by force
  have s1: "same v w w1" by (rule set_socket_blocking_same[OF ok b1])
  have s2: "same v w w2" by (rule same_trans[OF s1 sys_ok_same(4)[OF ok c]])
  have s3: "same v w w3" by (rule same_trans[OF s2 set_socket_blocking_same[OF ok b3]])
  have "w' \<in> {os_close (sy_os sy) sock w1, w3, os_close (sy_os sy) sock w2, w2}"
    using r b1 c b3 by (auto simp: socket4_try_connect_def Let_def split: if_splits)
  then show ?thesis using s1 s2 s3 sys_ok_close[OF ok] fresh
    by (auto simp: same_def intro: order_trans)
qed

section \<open>The invariant\<close>

definition sl_tmo :: "socket_list \<Rightarrow> int \<Rightarrow> u64" where
  "sl_tmo l fd = snd (snd (sl_data l fd))"

definition counters_ok :: "'w scan \<Rightarrow> bool" where
  "counters_ok s \<longleftrightarrow> sc_rng_fd s \<noteq> -1 \<and> result_count s = int (length (sc_queue s)) \<and>
     0 \<le> last_result_count s \<and> last_result_count s \<le> result_count s \<and>
     0 \<le> last_event_count s \<and> last_event_count s \<le> event_count s \<and> result_count s \<le> event_count s \<and>
     event_count s + num_sockets (sc_list s) \<le> packets_sent s"

definition pending_ok :: "'w view \<Rightarrow> int set \<Rightarrow> options \<Rightarrow> 'w scan \<Rightarrow> bool" where
  "pending_ok v B p s \<longleftrightarrow> (let l = sc_list s in
     sl_inv l \<and> sl_size l = max_pending_sockets p + socket_list_excess p \<and>
     num_sockets l \<le> max_pending_sockets p \<and>
     vw_open v (sc_w s) = B \<union> set (sl_fds l) \<and> B \<inter> set (sl_fds l) = {} \<and>
     vw_watched v (sc_w s) = set (sl_fds l) \<and>
     sorted (map (sl_tmo l) (sl_fds l)) \<and>
     (\<forall>fd \<in> set (sl_fds l). unat (sl_tmo l fd) \<le> vw_clock v (sc_w s) + nat (connect_timeout p)))"

definition opts_ok :: "options \<Rightarrow> bool" where
  "opts_ok p \<longleftrightarrow> 0 < max_pending_sockets p \<and> 0 \<le> socket_list_excess p \<and> 0 \<le> connect_timeout p \<and>
     connect_timeout p < 2 ^ 31 \<and> 0 < stats_every p \<and> stats_every p < 2 ^ 31 \<and>
     int_ok (bind_port p + bind_max_retries p)"

text \<open>Drawing a target is defined and ends, which the properties of the samplers are about, once the
  random device is open or can be opened.\<close>

definition draws_ok :: "'w sys \<Rightarrow> tables \<Rightarrow> bool" where
  "draws_ok sy tb \<longleftrightarrow>
     (\<forall>fd w. fd \<noteq> -1 \<longrightarrow> (\<exists>ip fd' w'. fd' \<noteq> -1 \<and>
        random_ip (sy_rng sy) (tb_ranges tb) (sy_junk sy) fd w = Some (ip, fd', w'))) \<and>
     (\<forall>fd w. fd \<noteq> -1 \<longrightarrow> (\<exists>port fd' w'. fd' \<noteq> -1 \<and>
        random_port (sy_rng sy) (tb_ports tb) (sy_junk sy) fd w = Some (port, fd', w')))"

lemma num_sockets_length: "sl_inv l \<Longrightarrow> num_sockets l = int (length (sl_fds l))"
  by (simp add: sl_inv_def wf_sl_def)

lemma draws_pick:
  assumes "draws_ok sy tb" "sc_rng_fd s \<noteq> -1"
  obtains ip port s' where "pick_target sy p tb s = Some (ip, port, s')" "sc_rng_fd s' \<noteq> -1"
proof -
  obtain ip fd w where i: "fd \<noteq> -1"
    "random_ip (sy_rng sy) (tb_ranges tb) (sy_junk sy) (sc_rng_fd s) (sc_w s) = Some (ip, fd, w)"
    using assms unfolding draws_ok_def by blast
  obtain port fd' w' where "fd' \<noteq> -1" "random_port (sy_rng sy) (tb_ports tb) (sy_junk sy) fd w = Some (port, fd', w')"
    using assms(1) i(1) unfolding draws_ok_def by blast
  with i(2) that[of _ _ "s\<lparr>sc_w := w', sc_rng_fd := fd'\<rparr>"] show ?thesis
    by (cases "canary_ip p \<noteq> 0 \<and> packets_sent s = canary_after p") (simp_all add: pick_target_def)
qed

text \<open>The counters of a packet: one more sent, one more event unless the socket is pending.\<close>

lemma count_packet_ok:
  assumes "sys_ok v sy" "opts_ok p" "counters_ok s" "0 \<le> num_sockets (sc_list s)" "packets_sent s + 1 < 2 ^ 31"
  obtains s' where "count_packet sy p sock s = Some s'" "same v (sc_w s) (sc_w s')"
    "sc_rng_fd s' = sc_rng_fd s"
    "sc_list s' = sc_list s" "sc_queue s' = sc_queue s" "result_count s' = result_count s"
    "packets_sent s' = packets_sent s + 1" "event_count s' = event_count s + (if -2 \<le> sock then 1 else 0)"
    "0 \<le> last_result_count s'" "last_result_count s' \<le> result_count s'"
    "0 \<le> last_event_count s'" "last_event_count s' \<le> event_count s'"
proof -
  note c = assms(3)[unfolded counters_ok_def]
  define e where "e = event_count s + (if -2 \<le> sock then 1 else 0)"
  define s1 where "s1 = s\<lparr>packets_sent := packets_sent s + 1, event_count := e\<rparr>"
  define t where "t = (if sy_file sy then sy_time sy (sc_w s) else (0, sc_w s))"
  have b: "int_ok (packets_sent s + 1)" "int_ok e" "int_ok (e - last_event_count s)"
    "int_ok (result_count s - last_result_count s)"
    using c assms(4,5) by (auto simp: e_def int_ok_def)
  obtain m where m: "cmod (packets_sent s + 1) (stats_every p) = Some m"
  proof -
    have "0 \<le> (packets_sent s + 1) mod stats_every p" "(packets_sent s + 1) mod stats_every p < stats_every p"
      using assms(2) by (simp_all add: opts_ok_def)
    then show ?thesis using that c assms(2,4) by (simp add: cmod_def cint_def int_ok_def opts_ok_def smod_nonneg)
  qed
  have st: "print_stats sy s1 = Some ((sc_log (log_stats (sy_file sy) (fst t) (e - last_event_count s)
      (result_count s - last_result_count s)) s1)\<lparr>sc_w := snd t, last_event_count := e,
        last_result_count := result_count s\<rparr>)"
    using b by (simp add: print_stats_def s1_def t_def split: prod.splits)
  have cp: "count_packet sy p sock s = (if m = 0 then print_stats sy s1 else Some s1)"
    using b m by (cases "-2 \<le> sock") (simp_all add: count_packet_def s1_def e_def)
  have "same v (sc_w s) (snd t)"
    using sys_ok_same(10)[OF assms(1) prod.collapse[symmetric]] by (simp add: t_def)
  with cp st c assms(4) that show ?thesis
    by (cases "m = 0") (auto simp: s1_def e_def sc_log_def)
qed

text \<open>A pending socket goes to the end of the table, and its timeout is the latest.\<close>

lemma timeout_unat:
  assumes "unat (now :: u64) < 2 ^ 63" "0 \<le> t" "t < 2 ^ 31"
  shows "unat (now + word_of_int t) = unat now + nat t"
proof -
  obtain n where n: "t = int n" using assms(2) by (metis nonneg_int_cases)
  have u: "unat (word_of_nat n :: u64) = n" using assms(3) n by (simp add: unsigned_of_nat take_bit_nat_eq_self)
  show ?thesis using assms(1,3) n u by (simp add: unat_add_lem[THEN iffD1])
qed

lemma table_add:
  assumes p: "opts_ok p" and tb: "pending_ok v B p s" and room: "num_sockets (sc_list s) < max_pending_sockets p"
    and sock: "0 < sock" "sock \<notin> vw_open v (sc_w s)" "sock < sl_size (sc_list s)"
    and clk: "vw_clock v (sc_w s) \<le> vw_clock v w1" "unat now = vw_clock v w1" "vw_clock v w1 < 2 ^ 63"
  shows "\<exists>l. add_to_socket_list (sc_list s) sock ip port (now + word_of_int (connect_timeout p)) = Some l \<and>
    num_sockets l = num_sockets (sc_list s) + 1 \<and>
    (\<forall>w. vw_open v w = insert sock (vw_open v (sc_w s)) \<longrightarrow>
      vw_watched v w = insert sock (vw_watched v (sc_w s)) \<longrightarrow> vw_clock v w1 \<le> vw_clock v w \<longrightarrow>
      pending_ok v B p (s\<lparr>sc_w := w, sc_list := l\<rparr>))"
proof -
  let ?l = "sc_list s" and ?t = "now + word_of_int (connect_timeout p) :: u64"
  note t = tb[unfolded pending_ok_def Let_def]
  have inv: "sl_inv ?l" and new: "sock \<notin> set (sl_fds ?l)" using t sock(2) by auto
  obtain l where l: "add_to_socket_list ?l sock ip port ?t = Some l" "sl_inv l" "sl_size l = sl_size ?l"
    "sl_fds l = sl_fds ?l @ [sock]" "sl_data l sock = (ip, port, ?t)"
    "\<forall>x \<in> set (sl_fds ?l). sl_data l x = sl_data ?l x"
    using sl.add_ok[OF inv _ sock(3) new, of "(ip, port, ?t)"] sock(1) by auto
  have tu: "unat ?t = vw_clock v w1 + nat (connect_timeout p)"
    using timeout_unat[of now "connect_timeout p"] clk p by (simp add: opts_ok_def)
  have tmo: "\<forall>x \<in> set (sl_fds ?l). sl_tmo l x = sl_tmo ?l x" "sl_tmo l sock = ?t"
    using l by (simp_all add: sl_tmo_def)
  have le: "\<forall>x \<in> set (sl_fds ?l). sl_tmo ?l x \<le> ?t"
  proof
    fix x assume "x \<in> set (sl_fds ?l)"
    with t have "unat (sl_tmo ?l x) \<le> vw_clock v (sc_w s) + nat (connect_timeout p)" by blast
    with tu clk(1) have "unat (sl_tmo ?l x) \<le> unat ?t" by simp
    then show "sl_tmo ?l x \<le> ?t" by (simp add: word_le_nat_alt)
  qed
  have n: "num_sockets l = num_sockets ?l + 1"
    using l num_sockets_length[OF inv] num_sockets_length[OF l(2)] by simp
  have srt: "sorted (map (sl_tmo l) (sl_fds l))"
  proof -
    have "map (sl_tmo l) (sl_fds ?l) = map (sl_tmo ?l) (sl_fds ?l)" using tmo(1) by (intro map_cong) simp_all
    then have "sorted (map (sl_tmo l) (sl_fds ?l))" using t by (simp only:)
    with l(4) tmo le show ?thesis by (auto simp: sorted_append)
  qed
  have "pending_ok v B p (s\<lparr>sc_w := w, sc_list := l\<rparr>)"
    if w: "vw_open v w = insert sock (vw_open v (sc_w s))" "vw_watched v w = insert sock (vw_watched v (sc_w s))"
      "vw_clock v w1 \<le> vw_clock v w" for w
  proof -
    have "\<forall>fd \<in> set (sl_fds l). unat (sl_tmo l fd) \<le> vw_clock v w + nat (connect_timeout p)"
      using t l(4) tmo tu clk(1) w(3) by (fastforce intro: order_trans)
    with t l n srt w room sock(2) show ?thesis by (auto simp: pending_ok_def Let_def)
  qed
  with l(1) n show ?thesis by blast
qed

lemma pending_ok_view:
  assumes "pending_ok v B p s" "sc_list s' = sc_list s" "vw_open v (sc_w s') = vw_open v (sc_w s)"
    and "vw_watched v (sc_w s') = vw_watched v (sc_w s)" "vw_clock v (sc_w s) \<le> vw_clock v (sc_w s')"
  shows "pending_ok v B p s'"
  using assms by (fastforce simp: pending_ok_def Let_def intro: order_trans)

text \<open>What one attempt leaves behind: the table as it was, or one pending socket more, not yet watched.\<close>

definition attempted :: "'w view \<Rightarrow> int set \<Rightarrow> options \<Rightarrow> 'w scan \<Rightarrow> int \<times> 'w scan \<Rightarrow> bool" where
  "attempted v B p s = (\<lambda>(tfd, s'). counters_ok s' \<and> packets_sent s' = packets_sent s + 1 \<and>
     (if tfd < 0 then pending_ok v B p s' \<and> num_sockets (sc_list s') = num_sockets (sc_list s)
      else num_sockets (sc_list s') = num_sockets (sc_list s) + 1 \<and>
        (\<forall>w. vw_open v w = vw_open v (sc_w s') \<longrightarrow> vw_watched v w = insert tfd (vw_watched v (sc_w s')) \<longrightarrow>
          vw_clock v (sc_w s') \<le> vw_clock v w \<longrightarrow> pending_ok v B p (s'\<lparr>sc_w := w\<rparr>))))"

lemma table_num: "pending_ok v B p s \<Longrightarrow> 0 \<le> num_sockets (sc_list s)"
  by (simp add: pending_ok_def Let_def num_sockets_length)

lemma after_connect_ok:
  fixes r :: int
  assumes ok: "sys_ok v sy" "opts_ok p" and tb: "pending_ok v B p s"
    and room: "num_sockets (sc_list s) < max_pending_sockets p"
    and cnt: "counters_ok s" "packets_sent s + 1 < 2 ^ 31"
    and sock: "0 < sock" "sock \<notin> vw_open v (sc_w s)"
    and s3: "vw_watched v (sc_w s3) = vw_watched v (sc_w s)" "vw_clock v (sc_w s) \<le> vw_clock v (sc_w s3)"
      "sc_rng_fd s3 \<noteq> -1"
      "sc_list s3 = sc_list s" "sc_queue s3 = sc_queue s" "result_count s3 = result_count s"
      "packets_sent s3 = packets_sent s + 1" "event_count s3 = event_count s + (if -2 \<le> r then 1 else 0)"
      "0 \<le> last_result_count s3" "last_result_count s3 \<le> result_count s3"
      "0 \<le> last_event_count s3" "last_event_count s3 \<le> event_count s3"
    and r: "(r = sock \<and> vw_open v (sc_w s3) = insert sock (vw_open v (sc_w s))) \<or>
      (r < -2 \<and> - r - 2 = sock \<and> vw_open v (sc_w s3) = insert sock (vw_open v (sc_w s))) \<or>
      ((r = -1 \<or> r = -2) \<and> vw_open v (sc_w s3) = vw_open v (sc_w s))"
  shows "lands (after_connect sy p r ip port s3) (attempted v B p s)"
proof -
  note c = cnt(1)[unfolded counters_ok_def]
  have q3: "counters_ok s3" using c s3 by (auto simp: counters_ok_def)
  from r consider (connected) "r = sock" "vw_open v (sc_w s3) = insert sock (vw_open v (sc_w s))"
    | (pending) "r < -2" "- r - 2 = sock" "vw_open v (sc_w s3) = insert sock (vw_open v (sc_w s))"
    | (closed) "r = -1 \<or> r = -2" "vw_open v (sc_w s3) = vw_open v (sc_w s)" by blast
  then show ?thesis
  proof cases
    case connected
    let ?s = "s3\<lparr>sc_queue := sc_queue s3 @ [(ip, port)], result_count := result_count s3 + 1\<rparr>"
    let ?s' = "?s\<lparr>sc_w := os_close (sy_os sy) r (sc_w s3)\<rparr>"
    have w: "sock \<notin> vw_watched v (sc_w s)" using tb sock(2) by (auto simp: pending_ok_def Let_def)
    have "pending_ok v B p ?s'"
      using sys_ok_close[OF ok(1), where fd = r and w = "sc_w s3"] connected s3 sock(2) w
      by (intro pending_ok_view[OF tb]) (auto intro: order_trans)
    moreover have "counters_ok ?s'" using c s3 connected sock(1) by (auto simp: counters_ok_def)
    moreover have "queue_result ip port s3 = Some ?s"
      using c s3 cnt(2) table_num[OF tb] by (simp add: queue_result_def int_ok_def)
    ultimately show ?thesis using connected sock(1) s3 by (simp add: after_connect_def attempted_def)
  next
    case pending
    show ?thesis
    proof (cases "sl_size (sc_list s3) \<le> sock")
      case True
      with pending show ?thesis by (simp add: after_connect_def)
    next
      case False
      obtain now w where ms: "os_ms (sy_os sy) (sc_w s3) = (now, w)" by force
      have sm: "same v (sc_w s3) w" by (rule sys_ok_same(1)[OF ok(1) ms])
      note mo = sys_ok_ms[OF ok(1) ms]
      have clk: "vw_clock v (sc_w s) \<le> vw_clock v w" using sm s3(2) by (simp add: same_def)
      obtain l where l: "add_to_socket_list (sc_list s) sock ip port (now + word_of_int (connect_timeout p)) = Some l"
        "num_sockets l = num_sockets (sc_list s) + 1"
        "\<And>w'. vw_open v w' = insert sock (vw_open v (sc_w s)) \<Longrightarrow>
          vw_watched v w' = insert sock (vw_watched v (sc_w s)) \<Longrightarrow> vw_clock v w \<le> vw_clock v w' \<Longrightarrow>
          pending_ok v B p (s\<lparr>sc_w := w', sc_list := l\<rparr>)"
        using table_add[OF ok(2) tb room sock _ clk mo, of ip port] False s3(4) by auto
      let ?s' = "s3\<lparr>sc_w := w, sc_list := l\<rparr>"
      have "pending_ok v B p (?s'\<lparr>sc_w := w'\<rparr>)"
        if "vw_open v w' = vw_open v w" "vw_watched v w' = insert sock (vw_watched v w)"
          "vw_clock v w \<le> vw_clock v w'" for w'
        using that sm s3 pending l(3)[of w'] by (auto simp: same_def intro: pending_ok_view)
      moreover have "counters_ok ?s'" using c s3 pending(1) l(2) by (auto simp: counters_ok_def)
      ultimately show ?thesis using pending False ms l s3 sock(1)
        by (simp add: after_connect_def attempted_def)
    qed
  next
    case closed
    have "pending_ok v B p s3" using closed s3 by (intro pending_ok_view[OF tb]) simp_all
    then have "pending_ok v B p (sc_log cs s3)" "counters_ok (sc_log cs s3)" for cs
      using q3 by (auto simp: sc_log_def counters_ok_def intro: pending_ok_view)
    with closed q3 s3 \<open>pending_ok v B p s3\<close> show ?thesis
      by (auto simp: after_connect_def attempted_def sc_log_def)
  qed
qed

lemma counters_ok_moved: "moved v F W s s' \<Longrightarrow> counters_ok s \<Longrightarrow> counters_ok s'"
  by (simp add: moved_def counters_ok_def)

lemma pending_ok_moved: "pending_ok v B p s \<Longrightarrow> unmoved v s s' \<Longrightarrow> pending_ok v B p s'"
  by (erule pending_ok_view) (auto simp: moved_def)

lemma attempted_unmoved: "unmoved v s s' \<Longrightarrow> attempted v B p s' = attempted v B p s"
  by (simp add: attempted_def moved_def fun_eq_iff)

lemma scan_try_connect_ok:
  assumes ok: "sys_ok v sy" "opts_ok p" "draws_ok sy tb" and tb: "pending_ok v B p s" "0 \<in> B"
    and room: "num_sockets (sc_list s) < max_pending_sockets p"
    and cnt: "counters_ok s" "packets_sent s + 1 < 2 ^ 31"
  shows "lands (try_connect sy p tb s) (attempted v B p s)"
proof -
  have g: "sc_rng_fd s \<noteq> -1" using cnt(1) by (simp add: counters_ok_def)
  obtain ip port s1 where pk: "pick_target sy p tb s = Some (ip, port, s1)" "sc_rng_fd s1 \<noteq> -1"
    by (rule draws_pick[OF ok(3) g])
  have u: "unmoved v s s1" by (rule pick_target_moved[OF ok(1) pk])
  have z: "0 \<in> vw_open v (sc_w s1)" using tb u by (simp add: pending_ok_def moved_def Let_def)
  have b: "int_ok (bind_port p + bind_max_retries p)" using ok(2) by (simp add: opts_ok_def)
  have tb1: "pending_ok v B p s1" by (rule pending_ok_moved[OF tb(1) u])
  have c1: "counters_ok s1" using cnt(1) counters_ok_moved[OF u] by simp
  have e1: "packets_sent s1 = packets_sent s" "sc_list s1 = sc_list s" using u by (simp_all add: moved_def)
  have "lands (case (sock, s2) of (sock, s) \<Rightarrow>
      let (sock, w) = socket4_try_connect (sy_os sy) sock ip port (sc_w s) in
      case count_packet sy p sock (s\<lparr>sc_w := w\<rparr>) of None \<Rightarrow> None
      | Some s \<Rightarrow> after_connect sy p sock ip port s) (attempted v B p s1)"
    if o: "0 < sock" "sock \<notin> vw_open v (sc_w s1)"
      "moved v (insert sock (vw_open v (sc_w s1))) (vw_watched v (sc_w s1)) s1 s2" for sock s2
  proof -
    obtain r w where tc: "socket4_try_connect (sy_os sy) sock ip port (sc_w s2) = (r, w)" by force
    note m = o(3)[unfolded moved_def]
    have nw: "sock \<notin> vw_watched v (sc_w s2)"
      using tb1 o(2) m by (auto simp: pending_ok_def Let_def)
    note wd = socket4_try_connect_world[OF ok(1) tc nw]
    note fd = try_connect_ok[OF sys_ok_fds[OF ok(1)] o(1) tc]
    let ?s2 = "s2\<lparr>sc_w := w\<rparr>"
    have c2: "counters_ok ?s2" using c1 m by (simp add: counters_ok_def)
    have n2: "0 \<le> num_sockets (sc_list ?s2)" "packets_sent ?s2 + 1 < 2 ^ 31"
      using table_num[OF tb1] m cnt(2) e1 by simp_all
    obtain s3 where s3: "count_packet sy p r ?s2 = Some s3" "same v (sc_w ?s2) (sc_w s3)"
      "sc_rng_fd s3 = sc_rng_fd ?s2" "sc_list s3 = sc_list ?s2" "sc_queue s3 = sc_queue ?s2" "result_count s3 = result_count ?s2"
      "packets_sent s3 = packets_sent ?s2 + 1" "event_count s3 = event_count ?s2 + (if -2 \<le> r then 1 else 0)"
      "0 \<le> last_result_count s3" "last_result_count s3 \<le> result_count s3"
      "0 \<le> last_event_count s3" "last_event_count s3 \<le> event_count s3"
      by (rule count_packet_ok[OF ok(1,2) c2 n2, of r])
    have "lands (after_connect sy p r ip port s3) (attempted v B p s1)"
    proof (rule after_connect_ok[OF ok(1,2) tb1 _ c1 _ o(1,2)])
      show "num_sockets (sc_list s1) < max_pending_sockets p" using room e1 by simp
      show "packets_sent s1 + 1 < 2 ^ 31" using cnt(2) e1 by simp
      show "vw_watched v (sc_w s3) = vw_watched v (sc_w s1)" "vw_clock v (sc_w s1) \<le> vw_clock v (sc_w s3)"
        using s3(2) wd m by (simp_all add: same_def)
      show "(r = sock \<and> vw_open v (sc_w s3) = insert sock (vw_open v (sc_w s1))) \<or>
        (r < -2 \<and> - r - 2 = sock \<and> vw_open v (sc_w s3) = insert sock (vw_open v (sc_w s1))) \<or>
        ((r = -1 \<or> r = -2) \<and> vw_open v (sc_w s3) = vw_open v (sc_w s1))"
        using fd s3(2) m o(2) by (auto simp: same_def)
      show "sc_rng_fd s3 \<noteq> -1" using s3 c2 by (simp add: counters_ok_def)
    qed (use s3 m in simp_all)
    with tc s3(1) show ?thesis by simp
  qed
  then have "lands (try_connect sy p tb s) (attempted v B p s1)"
    unfolding try_connect_def pk(1) option.case prod.case
    by (intro lands_then[OF open_socket_moved[OF ok(1) b z]]) auto
  then show ?thesis using attempted_unmoved[OF u] by simp
qed

section \<open>Filling the table\<close>

definition scan_inv :: "'w view \<Rightarrow> int set \<Rightarrow> options \<Rightarrow> 'w scan \<Rightarrow> bool" where
  "scan_inv v B p s \<longleftrightarrow> pending_ok v B p s \<and> counters_ok s"

lemma check_interval_moved: "sys_ok v sy \<Longrightarrow> unmoved v s (check_connect_interval sy p s)"
proof -
  assume ok: "sys_ok v sy"
  obtain now w where us: "sy_us sy (sc_w s) = (now, w)" by force
  have "same v (sc_w s) w" by (rule sys_ok_same(9)[OF ok us])
  moreover have "same v w (sy_usleep sy t w)" for t by (rule sys_ok_same(14)[OF ok])
  ultimately show ?thesis using us same_trans[of v "sc_w s" w]
    by (auto simp: check_connect_interval_def Let_def moved_def same_def intro: order_trans)
qed

lemma watch_socket_ok:
  assumes ok: "sys_ok v sy" and a: "attempted v B p s (tfd, s1)"
  shows "lands (watch_socket sy (tfd, s1)) (\<lambda>s'. scan_inv v B p s' \<and> packets_sent s' = packets_sent s + 1 \<and>
    num_sockets (sc_list s') = num_sockets (sc_list s) + (if tfd < 0 then 0 else 1))"
proof (cases "0 \<le> tfd")
  case True
  obtain k w where ea: "sy_epoll_add sy tfd (sc_w s1) = (k, w)" by force
  have "sys_epoll v sy" using ok by (simp add: sys_ok_def)
  then have "vw_open v w = vw_open v (sc_w s1)" "k \<longrightarrow> vw_watched v w = insert tfd (vw_watched v (sc_w s1))"
    "vw_clock v (sc_w s1) \<le> vw_clock v w"
    using ea unfolding sys_epoll_def by (metis (mono_tags, lifting) case_prod_conv)+
  with True ea a show ?thesis by (auto simp: watch_socket_def attempted_def scan_inv_def counters_ok_def)
next
  case False
  with a show ?thesis by (simp add: watch_socket_def attempted_def scan_inv_def)
qed

lemma fill_step_post:
  assumes ok: "sys_ok v sy" "opts_ok p" "draws_ok sy tb" and inv: "scan_inv v B p s" "0 \<in> B"
    and room: "num_sockets (sc_list s) < max_pending_sockets p" and cnt: "packets_sent s + 1 < 2 ^ 31"
    and Q: "\<And>s1. unmoved v s s1 \<Longrightarrow> lands (try_connect sy p tb s1) (\<lambda>(tfd, s'). Q tfd)"
  shows "lands (fill_step sy p tb s) (\<lambda>s'. scan_inv v B p s' \<and> packets_sent s' = packets_sent s + 1 \<and>
    (\<exists>tfd. Q tfd \<and> num_sockets (sc_list s') = num_sockets (sc_list s) + (if tfd < 0 then 0 else 1)))"
proof -
  let ?s = "if connect_interval p \<noteq> 0 then check_connect_interval sy p s else s"
  have u: "unmoved v s ?s"
    by (cases "connect_interval p = 0") (simp_all add: unmoved_refl check_interval_moved[OF ok(1)])
  have s1: "pending_ok v B p ?s" "counters_ok ?s" "num_sockets (sc_list ?s) < max_pending_sockets p"
    "packets_sent ?s + 1 < 2 ^ 31"
    using inv(1) u room cnt pending_ok_moved[OF _ u] counters_ok_moved[OF u]
    unfolding scan_inv_def by (simp_all add: moved_def)
  have e: "packets_sent ?s = packets_sent s" "sc_list ?s = sc_list s" using u by (simp_all add: moved_def)
  have "lands (watch_socket sy r) (\<lambda>s'. scan_inv v B p s' \<and> packets_sent s' = packets_sent s + 1 \<and>
    (\<exists>tfd. Q tfd \<and> num_sockets (sc_list s') = num_sockets (sc_list s) + (if tfd < 0 then 0 else 1)))"
    if r: "attempted v B p ?s r \<and> (case r of (tfd, s') \<Rightarrow> Q tfd)" for r
  proof -
    obtain tfd s2 where r2: "r = (tfd, s2)" by (cases r)
    with r have a: "attempted v B p ?s (tfd, s2)" "Q tfd" by simp_all
    show ?thesis unfolding r2 by (rule lands_mono[OF watch_socket_ok[OF ok(1) a(1)]]) (use a(2) e in auto)
  qed
  then show ?thesis
    unfolding fill_step_def Let_def
    by (intro lands_then[OF lands_conj[OF scan_try_connect_ok[OF ok s1(1) inv(2) s1(3,2,4)] Q[OF u]]])
qed

lemma fill_step_ok:
  assumes ok: "sys_ok v sy" "opts_ok p" "draws_ok sy tb" and inv: "scan_inv v B p s" "0 \<in> B"
    and room: "num_sockets (sc_list s) < max_pending_sockets p" and cnt: "packets_sent s + 1 < 2 ^ 31"
  shows "lands (fill_step sy p tb s) (\<lambda>s'. scan_inv v B p s' \<and> packets_sent s' = packets_sent s + 1)"
proof -
  have "lands (try_connect sy p tb s1) (\<lambda>(tfd, s'). True)" if "unmoved v s s1" for s1
  proof (rule lands_mono[OF scan_try_connect_ok[OF ok, of B s1]])
    show "pending_ok v B p s1" "counters_ok s1" "num_sockets (sc_list s1) < max_pending_sockets p"
      "packets_sent s1 + 1 < 2 ^ 31"
      using inv(1) that room cnt pending_ok_moved[OF _ that] counters_ok_moved[OF that]
      unfolding scan_inv_def by (simp_all add: moved_def)
  qed (use inv in auto)
  from fill_step_post[OF ok inv room cnt this] show ?thesis by (rule lands_mono) auto
qed

lemma fill_loop_ok:
  assumes ok: "sys_ok v sy" "opts_ok p" "draws_ok sy tb" and B: "0 \<in> B"
  shows "scan_inv v B p s \<Longrightarrow> packets_sent s + int fuel < 2 ^ 31 \<Longrightarrow>
    lands (fill_loop sy p tb fuel s) (\<lambda>s'. scan_inv v B p s' \<and> packets_sent s' \<le> packets_sent s + int fuel \<and>
      num_sockets (sc_list s') = max_pending_sockets p)"
proof (induction fuel arbitrary: s)
  case 0
  then show ?case
    by (subst fill_loop.simps) (auto simp: scan_inv_def pending_ok_def Let_def)
next
  case (Suc n)
  show ?case
  proof (cases "num_sockets (sc_list s) < max_pending_sockets p")
    case True
    have "lands (fill_loop sy p tb n s1) (\<lambda>s'. scan_inv v B p s' \<and>
        packets_sent s' \<le> packets_sent s + int (Suc n) \<and> num_sockets (sc_list s') = max_pending_sockets p)"
      if "scan_inv v B p s1 \<and> packets_sent s1 = packets_sent s + 1" for s1
      by (rule lands_mono[OF Suc.IH[of s1]]) (use that Suc.prems(2) in auto)
    with True show ?thesis
      by (subst fill_loop.simps) (use Suc.prems in
          \<open>auto intro!: lands_then[OF fill_step_ok[OF ok Suc.prems(1) B True]]\<close>)
  next
    case False
    with Suc.prems show ?thesis
      by (subst fill_loop.simps) (auto simp: scan_inv_def pending_ok_def Let_def)
  qed
qed

end
