(* ===== verification/Scanner_Loop.thy ===== *)
theory Scanner_Loop
  imports Scanner_Inv
begin

text \<open>
  The rest of a round of \<open>conn_thread\<close>: what handling events and expiring sockets do to the table and
  to the queue of results, and the invariant of the whole loop.
\<close>

section \<open>Dropping a socket\<close>

lemma entry_of:
  assumes "sl_inv l" "fd \<in> set (sl_fds l)"
  obtains e where "arr_get (entries l) fd = Some e" "sl_data l fd = (e_ip e, e_port e, e_timeout e)"
    "sl_tmo l fd = e_timeout e"
proof -
  have "in_arr (entries l) fd" using assms wf_sl_in_arr by (auto simp: sl_inv_def)
  then show ?thesis using that[of "entries l ! nat fd"] by (simp add: sl_data_def sl_tmo_def Let_def)
qed

lemma drop_socket_ok:
  assumes ok: "sys_ok v sy" and tb: "pending_ok v B p s" and f: "sl_fds (sc_list s) = xs @ fd # ys"
  obtains l' where
    "drop_socket sy fd s = Some (head_or ys (-1), s\<lparr>sc_w := os_close (sy_os sy) fd (sc_w s), sc_list := l'\<rparr>)"
    "pending_ok v B p (s\<lparr>sc_w := os_close (sy_os sy) fd (sc_w s), sc_list := l'\<rparr>)"
    "sl_fds l' = xs @ ys" "num_sockets l' = num_sockets (sc_list s) - 1"
    "\<forall>x \<in> set (xs @ ys). sl_data l' x = sl_data (sc_list s) x"
proof -
  let ?l = "sc_list s"
  note t = tb[unfolded pending_ok_def Let_def]
  have inv: "sl_inv ?l" using t by simp
  obtain l' where l': "del_from_socket_list ?l fd = Some (l', head_or ys (-1))" "sl_inv l'"
    "sl_size l' = sl_size ?l" "sl_fds l' = xs @ ys" "\<forall>x \<in> set (xs @ ys). sl_data l' x = sl_data ?l x"
    using sl.del_ok[OF inv f] by blast
  have n: "num_sockets l' = num_sockets ?l - 1"
    using num_sockets_length[OF inv] num_sockets_length[OF l'(2)] f l'(4) by simp
  have dis: "fd \<notin> set (xs @ ys)" using sl.fds_distinct[OF inv] f by auto
  have tmo: "\<forall>x \<in> set (xs @ ys). sl_tmo l' x = sl_tmo ?l x" using l'(5) by (simp add: sl_tmo_def)
  have srt: "sorted (map (sl_tmo l') (sl_fds l'))"
  proof -
    have "sorted (map (sl_tmo ?l) (xs @ ys))" using t f by (auto simp: sorted_append)
    moreover have "map (sl_tmo l') (xs @ ys) = map (sl_tmo ?l) (xs @ ys)" using tmo by (intro map_cong) simp_all
    ultimately show ?thesis using l'(4) by (simp only:)
  qed
  let ?w = "os_close (sy_os sy) fd (sc_w s)"
  note cl = sys_ok_close[OF ok, where fd = fd and w = "sc_w s"]
  have "unat (sl_tmo l' x) \<le> vw_clock v ?w + nat (connect_timeout p)" if "x \<in> set (sl_fds l')" for x
  proof -
    have "unat (sl_tmo ?l x) \<le> vw_clock v (sc_w s) + nat (connect_timeout p)"
      using that t f l'(4) by auto
    then show ?thesis using that tmo l'(4) cl(3) by simp
  qed
  moreover have "fd \<notin> B" using t f by auto
  ultimately have "pending_ok v B p (s\<lparr>sc_w := ?w, sc_list := l'\<rparr>)"
    using t f l' n srt cl dis by (auto simp: pending_ok_def Let_def)
  with l' n that show ?thesis by (simp add: drop_socket_def)
qed

section \<open>Events\<close>

definition is_canary :: "options \<Rightarrow> u32 \<times> int \<times> u64 \<Rightarrow> bool" where
  "is_canary p = (\<lambda>(ip, port, t). canary_ip p \<noteq> 0 \<and> ip = canary_ip p \<and> port = canary_port p)"

text \<open>The results a list of events stands for: the targets of the good ones, but the canary's.\<close>

definition results_of :: "options \<Rightarrow> socket_list \<Rightarrow> (int \<times> revents) list \<Rightarrow> (u32 \<times> int) list" where
  "results_of p l evs = map (\<lambda>(fd, ev). (fst (sl_data l fd), fst (snd (sl_data l fd))))
     (filter (\<lambda>(fd, ev). ev_good ev \<and> \<not> is_canary p (sl_data l fd)) evs)"

lemma handle_event_ok:
  assumes ok: "sys_ok v sy" and inv: "scan_inv v B p s" "packets_sent s < 2 ^ 31"
    and fd: "fd \<in> set (sl_fds (sc_list s))"
  shows "\<exists>s'. handle_event sy p (fd, ev) s = Some s' \<and> scan_inv v B p s' \<and>
    packets_sent s' = packets_sent s \<and> event_count s' = event_count s + 1 \<and>
    sl_fds (sc_list s') = remove1 fd (sl_fds (sc_list s)) \<and>
    (\<forall>x \<in> set (sl_fds (sc_list s)) - {fd}. sl_data (sc_list s') x = sl_data (sc_list s) x) \<and>
    sc_queue s' = sc_queue s @ results_of p (sc_list s) [(fd, ev)]"
proof -
  let ?l = "sc_list s"
  have tb: "pending_ok v B p s" and c: "counters_ok s" using inv(1) by (simp_all add: scan_inv_def)
  have sl: "sl_inv ?l" using tb by (simp add: pending_ok_def Let_def)
  obtain xs ys where f: "sl_fds ?l = xs @ fd # ys" using fd by (meson split_list)
  have dis: "fd \<notin> set xs" "fd \<notin> set ys" using sl.fds_distinct[OF sl] f by auto
  obtain e where e: "arr_get (entries ?l) fd = Some e" "sl_data ?l fd = (e_ip e, e_port e, e_timeout e)"
    by (rule entry_of[OF sl fd])
  have n: "1 \<le> num_sockets ?l" using num_sockets_length[OF sl] f by simp
  define can where "can = is_canary p (sl_data ?l fd)"
  have can: "can \<longleftrightarrow> canary_ip p \<noteq> 0 \<and> e_ip e = canary_ip p \<and> e_port e = canary_port p"
    by (simp add: can_def is_canary_def e(2))
  define s1 where "s1 = (if can then (if ev_good ev then s else sc_log (log_canary_fail (sy_file sy) True) s)
    else if ev_good ev then s\<lparr>sc_queue := sc_queue s @ [(e_ip e, e_port e)], result_count := result_count s + 1\<rparr>
    else s)\<lparr>event_count := event_count s + 1\<rparr>"
  have b: "int_ok (result_count s + 1)" "int_ok (event_count s + 1)"
    using c n inv(2) by (auto simp: counters_ok_def int_ok_def)
  have he: "handle_event sy p (fd, ev) s = map_option snd (drop_socket sy fd s1)"
    using e(1) b can by (auto simp: handle_event_def s1_def queue_result_def sc_log_def)
  have same: "sc_list s1 = ?l" "sc_w s1 = sc_w s" "packets_sent s1 = packets_sent s"
    by (simp_all add: s1_def sc_log_def)
  have tb1: "pending_ok v B p s1" by (rule pending_ok_view[OF tb]) (simp_all add: same)
  have f1: "sl_fds (sc_list s1) = xs @ fd # ys" using f same by simp
  obtain l' where l': "drop_socket sy fd s1 = Some (head_or ys (-1),
      s1\<lparr>sc_w := os_close (sy_os sy) fd (sc_w s1), sc_list := l'\<rparr>)"
    "pending_ok v B p (s1\<lparr>sc_w := os_close (sy_os sy) fd (sc_w s1), sc_list := l'\<rparr>)"
    "sl_fds l' = xs @ ys" "num_sockets l' = num_sockets (sc_list s1) - 1"
    "\<forall>x \<in> set (xs @ ys). sl_data l' x = sl_data (sc_list s1) x"
    by (rule drop_socket_ok[OF ok tb1 f1])
  let ?s' = "s1\<lparr>sc_w := os_close (sy_os sy) fd (sc_w s1), sc_list := l'\<rparr>"
  have "counters_ok ?s'" using c l'(4) same by (auto simp: counters_ok_def s1_def sc_log_def)
  moreover have "sl_fds l' = remove1 fd (sl_fds ?l)" using l'(3) f dis by (simp add: remove1_append)
  moreover have "\<forall>x \<in> set (sl_fds ?l) - {fd}. sl_data l' x = sl_data ?l x" using l'(5) f same by auto
  moreover have "sc_queue ?s' = sc_queue s @ results_of p ?l [(fd, ev)]"
    using e(2) can_def by (auto simp: results_of_def s1_def sc_log_def)
  ultimately show ?thesis using he l' same
    by (intro exI[of _ ?s']) (simp add: scan_inv_def s1_def)
qed

lemma results_of_cong:
  "(\<And>fd ev. (fd, ev) \<in> set evs \<Longrightarrow> sl_data l fd = sl_data l' fd) \<Longrightarrow> results_of p l evs = results_of p l' evs"
proof (induction evs)
  case (Cons x evs)
  obtain a b where x: "x = (a, b)" by (cases x)
  have "sl_data l a = sl_data l' a" using Cons.prems[of a b] x by simp
  moreover have "results_of p l evs = results_of p l' evs"
  proof (rule Cons.IH)
    fix fd ev assume "(fd, ev) \<in> set evs"
    then show "sl_data l fd = sl_data l' fd" using Cons.prems[of fd ev] by simp
  qed
  ultimately show ?case by (simp add: results_of_def x)
qed (simp add: results_of_def)

lemma results_of_Cons: "results_of p l (ev # evs) = results_of p l [ev] @ results_of p l evs"
  by (simp add: results_of_def split: prod.splits)

lemma handle_events_ok:
  assumes ok: "sys_ok v sy"
  shows "scan_inv v B p s \<Longrightarrow> packets_sent s < 2 ^ 31 \<Longrightarrow> distinct (map fst evs) \<Longrightarrow>
    fst ` set evs \<subseteq> set (sl_fds (sc_list s)) \<Longrightarrow>
    \<exists>s'. handle_events sy p evs s = Some s' \<and> scan_inv v B p s' \<and> packets_sent s' = packets_sent s \<and>
      event_count s' = event_count s + int (length evs) \<and>
      sl_fds (sc_list s') = filter (\<lambda>x. x \<notin> fst ` set evs) (sl_fds (sc_list s)) \<and>
      (\<forall>x \<in> set (sl_fds (sc_list s')). sl_data (sc_list s') x = sl_data (sc_list s) x) \<and>
      sc_queue s' = sc_queue s @ results_of p (sc_list s) evs"
proof (induction evs arbitrary: s)
  case Nil
  then show ?case by (simp add: results_of_def)
next
  case (Cons ev evs)
  obtain fd r where ev: "ev = (fd, r)" by (cases ev)
  have fd: "fd \<in> set (sl_fds (sc_list s))" using Cons.prems ev by simp
  obtain s1 where s1: "handle_event sy p (fd, r) s = Some s1" "scan_inv v B p s1"
    "packets_sent s1 = packets_sent s" "event_count s1 = event_count s + 1"
    "sl_fds (sc_list s1) = remove1 fd (sl_fds (sc_list s))"
    "\<forall>x \<in> set (sl_fds (sc_list s)) - {fd}. sl_data (sc_list s1) x = sl_data (sc_list s) x"
    "sc_queue s1 = sc_queue s @ results_of p (sc_list s) [(fd, r)]"
    using handle_event_ok[OF ok Cons.prems(1,2) fd, of r] by blast
  have "distinct (sl_fds (sc_list s))"
    using Cons.prems(1) sl.fds_distinct by (auto simp: scan_inv_def pending_ok_def Let_def)
  then have fds: "sl_fds (sc_list s1) = filter (\<lambda>x. x \<noteq> fd) (sl_fds (sc_list s))"
    using s1(5) by (simp add: distinct_remove1_removeAll removeAll_filter_not_eq)
       (auto intro: filter_cong)
  have sub: "fst ` set evs \<subseteq> set (sl_fds (sc_list s1))"
    using Cons.prems(3,4) fds ev by auto
  obtain s2 where s2: "handle_events sy p evs s1 = Some s2" "scan_inv v B p s2"
    "packets_sent s2 = packets_sent s1" "event_count s2 = event_count s1 + int (length evs)"
    "sl_fds (sc_list s2) = filter (\<lambda>x. x \<notin> fst ` set evs) (sl_fds (sc_list s1))"
    "\<forall>x \<in> set (sl_fds (sc_list s2)). sl_data (sc_list s2) x = sl_data (sc_list s1) x"
    "sc_queue s2 = sc_queue s1 @ results_of p (sc_list s1) evs"
    using Cons.IH[OF s1(2) _ _ sub] Cons.prems(2,3) s1(3) by auto
  have "results_of p (sc_list s1) evs = results_of p (sc_list s) evs"
    using s1(6) sub fds by (intro results_of_cong) force
  then have "sc_queue s2 = sc_queue s @ results_of p (sc_list s) (ev # evs)"
    using s2(7) s1(7) ev results_of_Cons[of p "sc_list s" ev evs] by simp
  moreover have "sl_fds (sc_list s2) = filter (\<lambda>x. x \<notin> fst ` set (ev # evs)) (sl_fds (sc_list s))"
    using s2(5) fds ev by (auto intro!: filter_cong)
  moreover have "\<forall>x \<in> set (sl_fds (sc_list s2)). sl_data (sc_list s2) x = sl_data (sc_list s) x"
    using s2(5,6) s1(6) fds by auto
  ultimately show ?case using s1 s2 ev by (intro exI[of _ s2]) simp
qed

lemma handle_event_world:
  "handle_event sy p ev s = Some s' \<Longrightarrow> sc_w s' = os_close (sy_os sy) (fst ev) (sc_w s)"
  by (cases ev) (auto simp: handle_event_def drop_socket_def queue_result_def sc_log_def
      Option.bind_eq_Some_conv split: if_splits)

lemma handle_event_clock:
  "sys_ok v sy \<Longrightarrow> handle_event sy p ev s = Some s' \<Longrightarrow> vw_clock v (sc_w s) \<le> vw_clock v (sc_w s')"
  using handle_event_world[of sy p ev s s'] sys_ok_close(3)[of v sy "sc_w s" "fst ev"] by simp

lemma handle_events_clock:
  "sys_ok v sy \<Longrightarrow> handle_events sy p evs s = Some s' \<Longrightarrow> vw_clock v (sc_w s) \<le> vw_clock v (sc_w s')"
proof (induction evs arbitrary: s)
  case (Cons ev evs)
  then obtain s1 where "handle_event sy p ev s = Some s1" "handle_events sy p evs s1 = Some s'"
    by (auto simp: Option.bind_eq_Some_conv)
  with Cons handle_event_clock show ?case by (meson order_trans)
qed simp

section \<open>Expiry\<close>

lemma expire_loop_ok:
  assumes ok: "sys_ok v sy"
  shows "scan_inv v B p s \<Longrightarrow> fd = head_or (sl_fds (sc_list s)) (-1) \<Longrightarrow>
    fuel = length (sl_fds (sc_list s)) \<Longrightarrow>
    \<exists>s'. expire_loop sy p now fuel fd s = Some (Inr s') \<and> scan_inv v B p s' \<and>
      sl_fds (sc_list s') = filter (\<lambda>x. now < sl_tmo (sc_list s) x) (sl_fds (sc_list s)) \<and>
      (\<forall>x \<in> set (sl_fds (sc_list s')). sl_data (sc_list s') x = sl_data (sc_list s) x) \<and>
      sc_queue s' = sc_queue s \<and> event_count s' = event_count s \<and> packets_sent s' = packets_sent s"
proof (induction fuel arbitrary: s fd)
  case 0
  then show ?case by (subst expire_loop.simps) simp
next
  case (Suc n)
  let ?l = "sc_list s"
  have tb: "pending_ok v B p s" and c: "counters_ok s" using Suc.prems(1) by (simp_all add: scan_inv_def)
  have sl: "sl_inv ?l" and srt: "sorted (map (sl_tmo ?l) (sl_fds ?l))"
    using tb by (simp_all add: pending_ok_def Let_def)
  obtain ys where f: "sl_fds ?l = fd # ys" using Suc.prems(2,3) by (cases "sl_fds ?l") auto
  have fd: "fd \<in> set (sl_fds ?l)" using f by simp
  have ne: "fd \<noteq> -1" using sl.fds_range[OF sl fd] by simp
  obtain e where e: "arr_get (entries ?l) fd = Some e" "sl_tmo ?l fd = e_timeout e"
    by (rule entry_of[OF sl fd])
  show ?case
  proof (cases "now < e_timeout e")
    case True
    have "\<forall>x \<in> set (sl_fds ?l). now < sl_tmo ?l x"
      using srt f e(2) True by (auto intro: less_le_trans)
    then have "filter (\<lambda>x. now < sl_tmo ?l x) (sl_fds ?l) = sl_fds ?l" by simp
    with True e(1) ne Suc.prems(1) show ?thesis
      by (subst expire_loop.simps) (simp del: filter_True)
  next
    case False
    define s1 where "s1 = (if e_ip e = canary_ip p \<and> e_port e = canary_port p
        then sc_log (log_canary_fail (sy_file sy) False) s else s)"
    have same: "sc_list s1 = ?l" "sc_w s1 = sc_w s" "sc_queue s1 = sc_queue s" "counters_ok s1"
      "event_count s1 = event_count s" "packets_sent s1 = packets_sent s"
      using c by (simp_all add: s1_def sc_log_def counters_ok_def)
    have tb1: "pending_ok v B p s1" by (rule pending_ok_view[OF tb]) (simp_all add: same)
    have f1: "sl_fds (sc_list s1) = [] @ fd # ys" using f same by simp
    obtain l' where l': "drop_socket sy fd s1 = Some (head_or ys (-1),
        s1\<lparr>sc_w := os_close (sy_os sy) fd (sc_w s1), sc_list := l'\<rparr>)"
      "pending_ok v B p (s1\<lparr>sc_w := os_close (sy_os sy) fd (sc_w s1), sc_list := l'\<rparr>)"
      "sl_fds l' = [] @ ys" "num_sockets l' = num_sockets (sc_list s1) - 1"
      "\<forall>x \<in> set ([] @ ys). sl_data l' x = sl_data (sc_list s1) x"
      by (rule drop_socket_ok[OF ok tb1 f1])
    let ?s2 = "s1\<lparr>sc_w := os_close (sy_os sy) fd (sc_w s1), sc_list := l'\<rparr>"
    have i2: "scan_inv v B p ?s2"
      using l'(2,4) same by (simp add: scan_inv_def counters_ok_def)
    obtain s' where s': "expire_loop sy p now n (head_or ys (-1)) ?s2 = Some (Inr s')" "scan_inv v B p s'"
      "sl_fds (sc_list s') = filter (\<lambda>x. now < sl_tmo l' x) ys"
      "\<forall>x \<in> set (sl_fds (sc_list s')). sl_data (sc_list s') x = sl_data l' x"
      "sc_queue s' = sc_queue s" "event_count s' = event_count s" "packets_sent s' = packets_sent s"
      using Suc.IH[OF i2, of "head_or ys (-1)"] l'(3) Suc.prems(3) f same by auto
    have dat: "\<forall>x \<in> set ys. sl_data l' x = sl_data ?l x" using l'(5) same by simp
    then have tmo: "\<forall>x \<in> set ys. sl_tmo l' x = sl_tmo ?l x" by (simp add: sl_tmo_def)
    have d': "\<forall>x \<in> set (sl_fds (sc_list s')). sl_data (sc_list s') x = sl_data ?l x"
      using s'(3,4) dat by auto
    have "filter (\<lambda>x. now < sl_tmo l' x) ys = filter (\<lambda>x. now < sl_tmo ?l x) (sl_fds ?l)"
      using tmo f e(2) False by (auto intro!: filter_cong)
    moreover have "expire_loop sy p now (Suc n) fd s = expire_loop sy p now n (head_or ys (-1)) ?s2"
      using e(1) ne False l'(1) by (subst expire_loop.simps) (simp add: s1_def[symmetric] Let_def)
    ultimately show ?thesis using s' d' by (intro exI[of _ s']) simp
  qed
qed

lemma expire_ok:
  assumes ok: "sys_ok v sy" and inv: "scan_inv v B p s"
  shows "\<exists>now s'. expire sy p s = Some (Inr s') \<and> scan_inv v B p s' \<and>
    vw_clock v (sc_w s) \<le> unat now \<and>
    sl_fds (sc_list s') = filter (\<lambda>x. now < sl_tmo (sc_list s) x) (sl_fds (sc_list s)) \<and>
    (\<forall>x \<in> set (sl_fds (sc_list s')). sl_data (sc_list s') x = sl_data (sc_list s) x) \<and>
    sc_queue s' = sc_queue s \<and> event_count s' = event_count s \<and> packets_sent s' = packets_sent s"
proof -
  obtain now w where ms: "os_ms (sy_os sy) (sc_w s) = (now, w)" by force
  let ?s = "s\<lparr>sc_w := w\<rparr>"
  have sm: "same v (sc_w s) w" by (rule sys_ok_same(1)[OF ok ms])
  have u: "unmoved v s ?s" by (rule unmoved_world[OF sm])
  have i: "scan_inv v B p ?s"
    using inv pending_ok_moved[OF _ u] counters_ok_moved[OF u] by (simp add: scan_inv_def)
  have sl: "sl_inv (sc_list s)" using inv by (simp add: scan_inv_def pending_ok_def Let_def)
  have "first_fd (sc_list ?s) = head_or (sl_fds (sc_list ?s)) (-1)"
    "nat (num_sockets (sc_list ?s)) = length (sl_fds (sc_list ?s))"
    using sl num_sockets_length[OF sl] by (simp_all add: sl_inv_def wf_sl_def)
  from expire_loop_ok[OF ok i this, of now] obtain s' where
    "expire_loop sy p now (nat (num_sockets (sc_list ?s))) (first_fd (sc_list ?s)) ?s = Some (Inr s')"
    "scan_inv v B p s'"
    "sl_fds (sc_list s') = filter (\<lambda>x. now < sl_tmo (sc_list s) x) (sl_fds (sc_list s))"
    "\<forall>x \<in> set (sl_fds (sc_list s')). sl_data (sc_list s') x = sl_data (sc_list s) x"
    "sc_queue s' = sc_queue s" "event_count s' = event_count s" "packets_sent s' = packets_sent s"
    by auto
  moreover have "vw_clock v (sc_w s) \<le> unat now"
    using sm sys_ok_ms(1)[OF ok ms] by (simp add: same_def)
  ultimately show ?thesis using ms by (intro exI[of _ now] exI[of _ s']) (simp add: expire_def)
qed

section \<open>A round\<close>

lemma wait_events_ok:
  assumes ok: "sys_ok v sy" "opts_ok p" and inv: "scan_inv v B p s"
    and full: "num_sockets (sc_list s) = max_pending_sockets p"
  obtains evs s' where "wait_events sy p s = Some (evs, s')" "unmoved v s s'" "scan_inv v B p s'"
    "distinct (map fst evs)" "fst ` set evs \<subseteq> set (sl_fds (sc_list s))"
proof -
  let ?l = "sc_list s"
  have tb: "pending_ok v B p s" using inv by (simp add: scan_inv_def)
  have sl: "sl_inv ?l" using tb by (simp add: pending_ok_def Let_def)
  have "0 < length (sl_fds ?l)" using num_sockets_length[OF sl] full ok(2) by (simp add: opts_ok_def)
  then have fd: "first_fd ?l \<in> set (sl_fds ?l)"
    using sl by (cases "sl_fds ?l") (simp_all add: sl_inv_def wf_sl_def)
  obtain e where e: "arr_get (entries ?l) (first_fd ?l) = Some e" by (rule entry_of[OF sl fd])
  obtain now w where ms: "os_ms (sy_os sy) (sc_w s) = (now, w)" by force
  define t where "t = (if now < e_timeout e then to_int32 (ucast (e_timeout e - now)) else 0)"
  obtain evs w' where ep: "sy_epoll_wait sy (max_pending_sockets p) t w = (evs, w')" by force
  let ?s' = "s\<lparr>sc_w := w'\<rparr>"
  have sm: "same v (sc_w s) w" by (rule sys_ok_same(1)[OF ok(1) ms])
  have u: "unmoved v s ?s'"
    by (rule unmoved_world[OF same_trans[OF sm sys_ok_same(13)[OF ok(1) ep]]])
  have ev: "distinct (map fst evs) \<and> fst ` set evs \<subseteq> vw_watched v w"
    using ok(1) ep unfolding sys_ok_def sys_epoll_def Let_def by (metis fst_conv)
  have sub: "vw_watched v w = set (sl_fds ?l)" using sm tb by (simp add: same_def pending_ok_def Let_def)
  show ?thesis
  proof (rule that[of evs ?s'])
    show "wait_events sy p s = Some (evs, ?s')" using ms e ep by (simp add: wait_events_def t_def Let_def)
    show "scan_inv v B p ?s'"
      using inv pending_ok_moved[OF _ u] counters_ok_moved[OF u] by (simp add: scan_inv_def)
  qed (use u ev sub in auto)
qed

text \<open>One round: what is left of the table it filled, and what it queued.\<close>

definition round_spec :: "'w view \<Rightarrow> options \<Rightarrow> 'w scan \<Rightarrow> 'w scan \<Rightarrow> bool" where
  "round_spec v p s1 s' \<longleftrightarrow> (\<exists>evs now.
     distinct (map fst evs) \<and> fst ` set evs \<subseteq> set (sl_fds (sc_list s1)) \<and> vw_clock v (sc_w s1) \<le> unat now \<and>
     sl_fds (sc_list s') = filter (\<lambda>x. x \<notin> fst ` set evs \<and> now < sl_tmo (sc_list s1) x) (sl_fds (sc_list s1)) \<and>
     (\<forall>x \<in> set (sl_fds (sc_list s')). sl_data (sc_list s') x = sl_data (sc_list s1) x) \<and>
     sc_queue s' = sc_queue s1 @ results_of p (sc_list s1) evs \<and>
     event_count s' = event_count s1 + int (length evs) \<and> packets_sent s' = packets_sent s1)"

lemma after_fill_ok:
  assumes ok: "sys_ok v sy" "opts_ok p" and inv: "scan_inv v B p s" "packets_sent s < 2 ^ 31"
    and full: "num_sockets (sc_list s) = max_pending_sockets p"
  shows "\<exists>s'. (case wait_events sy p s of None \<Rightarrow> None
       | Some (evs, s) \<Rightarrow> (case handle_events sy p evs s of None \<Rightarrow> None | Some s \<Rightarrow> expire sy p s)) = Some (Inr s') \<and>
    scan_inv v B p s' \<and> round_spec v p s s'"
proof -
  obtain evs s1 where s1: "wait_events sy p s = Some (evs, s1)" "unmoved v s s1" "scan_inv v B p s1"
    "distinct (map fst evs)" "fst ` set evs \<subseteq> set (sl_fds (sc_list s))"
    by (rule wait_events_ok[OF ok inv(1) full])
  note m = s1(2)[unfolded moved_def]
  obtain s2 where s2: "handle_events sy p evs s1 = Some s2" "scan_inv v B p s2"
    "packets_sent s2 = packets_sent s" "event_count s2 = event_count s + int (length evs)"
    "sl_fds (sc_list s2) = filter (\<lambda>x. x \<notin> fst ` set evs) (sl_fds (sc_list s))"
    "\<forall>x \<in> set (sl_fds (sc_list s2)). sl_data (sc_list s2) x = sl_data (sc_list s) x"
    "sc_queue s2 = sc_queue s @ results_of p (sc_list s) evs"
    using handle_events_ok[OF ok(1) s1(3) _ s1(4)] s1(5) inv(2) m by auto
  have c2: "vw_clock v (sc_w s) \<le> vw_clock v (sc_w s2)"
    using m handle_events_clock[OF ok(1) s2(1)] by simp
  obtain now s3 where s3: "expire sy p s2 = Some (Inr s3)" "scan_inv v B p s3" "vw_clock v (sc_w s2) \<le> unat now"
    "sl_fds (sc_list s3) = filter (\<lambda>x. now < sl_tmo (sc_list s2) x) (sl_fds (sc_list s2))"
    "\<forall>x \<in> set (sl_fds (sc_list s3)). sl_data (sc_list s3) x = sl_data (sc_list s2) x"
    "sc_queue s3 = sc_queue s2" "event_count s3 = event_count s2" "packets_sent s3 = packets_sent s2"
    using expire_ok[OF ok(1) s2(2)] by blast
  have tmo: "sl_tmo (sc_list s2) x = sl_tmo (sc_list s) x" if "x \<in> set (sl_fds (sc_list s2))" for x
    using s2(6) that by (simp add: sl_tmo_def)
  have f: "sl_fds (sc_list s3) = filter (\<lambda>x. x \<notin> fst ` set evs \<and> now < sl_tmo (sc_list s) x) (sl_fds (sc_list s))"
  proof -
    have "sl_fds (sc_list s3) = filter (\<lambda>x. now < sl_tmo (sc_list s) x) (sl_fds (sc_list s2))"
      using s3(4) tmo by (auto intro: filter_cong)
    then show ?thesis using s2(5) by (simp add: conj_commute)
  qed
  have d: "\<forall>x \<in> set (sl_fds (sc_list s3)). sl_data (sc_list s3) x = sl_data (sc_list s) x"
    using s3(4,5) s2(6) by auto
  have "round_spec v p s s3"
    unfolding round_spec_def using s1(4,5) s2 s3 f d c2 by (intro exI[of _ evs] exI[of _ now]) simp
  with s1(1) s2(1) s3 show ?thesis by simp
qed

lemma conn_round_ok:
  assumes ok: "sys_ok v sy" "opts_ok p" "draws_ok sy tb" and B: "0 \<in> B"
    and inv: "scan_inv v B p s" "packets_sent s + int fuel < 2 ^ 31"
  shows "lands (conn_round sy p tb fuel s) (\<lambda>s'. scan_inv v B p s' \<and>
    packets_sent s' \<le> packets_sent s + int fuel)"
  unfolding conn_round_def
proof (rule lands_then[OF fill_loop_ok[OF ok B inv]])
  fix s1 assume s1: "scan_inv v B p s1 \<and> packets_sent s1 \<le> packets_sent s + int fuel \<and>
    num_sockets (sc_list s1) = max_pending_sockets p"
  then have "packets_sent s1 < 2 ^ 31" using inv(2) by simp
  from after_fill_ok[OF ok(1,2) _ this, of B] s1 obtain s' where
    "(case wait_events sy p s1 of None \<Rightarrow> None
       | Some (evs, s) \<Rightarrow> (case handle_events sy p evs s of None \<Rightarrow> None | Some s \<Rightarrow> expire sy p s)) = Some (Inr s')"
    "scan_inv v B p s'" "round_spec v p s1 s'" by blast
  then show "lands (case wait_events sy p s1 of None \<Rightarrow> None
       | Some (evs, s) \<Rightarrow> (case handle_events sy p evs s of None \<Rightarrow> None | Some s \<Rightarrow> expire sy p s))
    (\<lambda>s'. scan_inv v B p s' \<and> packets_sent s' \<le> packets_sent s + int fuel)"
    using s1 by (auto simp: round_spec_def)
qed

end
