(* ===== verification/Scanner_Props.thy ===== *)
theory Scanner_Props
  imports Scanner_Loop
begin

text \<open>
  The properties of the scanning thread, and a simulated system that meets their hypotheses.
\<close>

section \<open>The invariant of the thread\<close>

text \<open>The state the thread starts in: the globals and statics at zero. The list is set up by the thread.\<close>

definition scan_start :: "'w \<Rightarrow> 'w scan" where
  "scan_start w = \<lparr>sc_w = w, sc_list = init_socket_list [] 0, sc_rng_fd = 0, sc_last_packet = 0,
     packets_sent = 0, result_count = 0, event_count = 0, last_event_count = 0, last_result_count = 0,
     sc_queue = [], sc_calls = []\<rparr>"

lemma conn_loop_ok:
  assumes ok: "sys_ok v sy" "opts_ok p" "draws_ok sy tb" and B: "0 \<in> B"
  shows "scan_inv v B p s \<Longrightarrow> packets_sent s + int (rounds * fuel) < 2 ^ 31 \<Longrightarrow>
    lands (conn_loop sy p tb fuel rounds s) (scan_inv v B p)"
proof (induction rounds arbitrary: s)
  case 0
  obtain f w where d: "sy_done sy (sc_w s) = (f, w)" by force
  have u: "unmoved v s (s\<lparr>sc_w := w\<rparr>)" by (rule unmoved_world[OF sys_ok_same(11)[OF ok(1) d]])
  have i: "scan_inv v B p (s\<lparr>sc_w := w\<rparr>)"
    using 0 pending_ok_moved[OF _ u] counters_ok_moved[OF u] by (simp add: scan_inv_def)
  show ?case using d i by (subst conn_loop.simps) (simp add: Let_def)
next
  case (Suc n)
  obtain f w where d: "sy_done sy (sc_w s) = (f, w)" by force
  have u: "unmoved v s (s\<lparr>sc_w := w\<rparr>)" by (rule unmoved_world[OF sys_ok_same(11)[OF ok(1) d]])
  have i: "scan_inv v B p (s\<lparr>sc_w := w\<rparr>)"
    using Suc.prems(1) pending_ok_moved[OF _ u] counters_ok_moved[OF u] by (simp add: scan_inv_def)
  have "int (Suc n * fuel) = int fuel + int n * int fuel" "0 \<le> int n * int fuel"
    by (simp_all add: distrib_right)
  then have "packets_sent s + int fuel < 2 ^ 31" using Suc.prems(2) by linarith
  then have pk: "packets_sent (s\<lparr>sc_w := w\<rparr>) + int fuel < 2 ^ 31" by simp
  have "lands (conn_round sy p tb fuel (s\<lparr>sc_w := w\<rparr>))
      (\<lambda>s'. scan_inv v B p s' \<and> packets_sent s' \<le> packets_sent s + int fuel)"
    using conn_round_ok[OF ok B i pk] by simp
  moreover have "lands (conn_loop sy p tb fuel n s') (scan_inv v B p)"
    if "scan_inv v B p s' \<and> packets_sent s' \<le> packets_sent s + int fuel" for s'
    using that Suc.prems(2) by (intro Suc.IH) auto
  ultimately have "lands (then_do (conn_round sy p tb fuel (s\<lparr>sc_w := w\<rparr>)) (conn_loop sy p tb fuel n))
      (scan_inv v B p)" by (rule lands_then)
  with d i show ?case by (subst conn_loop.simps) (simp add: Let_def)
qed

lemma scan_inv_start:
  assumes "vw_open v w = B" "vw_watched v w = {}" "opts_ok p"
    and "length mem = nat (max_pending_sockets p + socket_list_excess p)"
  shows "scan_inv v B p ((scan_start w)\<lparr>sc_list :=
    init_socket_list mem (max_pending_sockets p + socket_list_excess p)\<rparr>)"
  using assms sl_inv_init[OF assms(4)]
  by (simp add: scan_inv_def pending_ok_def counters_ok_def scan_start_def opts_ok_def init_socket_list_def)


section \<open>A simulated system\<close>

text \<open>
  Descriptors are handed out in order, every connection is pending, \<open>epoll_wait\<close> takes the time it is
  allowed to and reports the oldest socket as connected, and the user interrupts after some rounds.
\<close>

record sim =
  si_next :: int
  si_open :: "int set"
  si_watch :: "int list"
  si_us :: int
  si_rounds :: nat

definition sim_now :: "sim \<Rightarrow> int" where
  "sim_now w = min (max 0 (si_us w) div 1000) (2 ^ 62)"

definition sim_os :: "sim os" where
  "sim_os = \<lparr>os_ms = (\<lambda>w. (word_of_int (sim_now w), w)),
     os_socket = (\<lambda>w. if si_next w < 0 \<or> si_next w \<in> si_open w then (-1, w)
       else (si_next w, w\<lparr>si_open := insert (si_next w) (si_open w), si_next := si_next w + 1\<rparr>)),
     os_linger = (\<lambda>fd w. w), os_cloexec = (\<lambda>fd w. w),
     os_getfl = (\<lambda>fd w. (2, w)), os_setfl = (\<lambda>fd fl w. (0, w)),
     os_connect = (\<lambda>fd ip port w. ((-1, EINPROGRESS), w)),
     os_poll = (\<lambda>fd wr t w. ((0, \<lparr>ev_in = False, ev_out = False, ev_err = False, ev_hup = False\<rparr>), w)),
     os_read = (\<lambda>fd n w. (None, w)), os_write = (\<lambda>fd b w. (-1, w)),
     os_close = (\<lambda>fd w. w\<lparr>si_open := si_open w - {fd}, si_watch := filter (\<lambda>x. x \<noteq> fd) (si_watch w)\<rparr>),
     os_errno = (\<lambda>w. EOTHER)\<rparr>"

definition sim_sys :: "sim sys" where
  "sim_sys = \<lparr>sy_os = sim_os, sy_rng = \<lparr>rng_open = (\<lambda>w. (9, w)), rng_read = (\<lambda>fd r w. (0, w))\<rparr>, sy_junk = 0,
     sy_us = (\<lambda>w. (word_of_int (max 0 (si_us w)), w)),
     sy_usleep = (\<lambda>t w. w\<lparr>si_us := max 0 (si_us w) + uint t\<rparr>),
     sy_time = (\<lambda>w. (0, w)), sy_sockopt = (\<lambda>fd w. w), sy_bind = (\<lambda>fd ip port w. (None, w)),
     sy_epoll_add = (\<lambda>fd w. (True, w\<lparr>si_watch := si_watch w @ [fd]\<rparr>)),
     sy_epoll_wait = (\<lambda>n t w. (map (\<lambda>fd. (fd, \<lparr>ev_in = False, ev_out = True, ev_err = False, ev_hup = False\<rparr>))
       (take 1 (si_watch w)), w\<lparr>si_us := max 0 (si_us w) + 1000 * max 0 t\<rparr>)),
     sy_done = (\<lambda>w. (si_rounds w = 0, w\<lparr>si_rounds := si_rounds w - 1\<rparr>)), sy_file = False\<rparr>"

definition sim_view :: "sim view" where
  "sim_view = \<lparr>vw_open = si_open, vw_watched = (\<lambda>w. set (si_watch w)), vw_clock = (\<lambda>w. nat (sim_now w))\<rparr>"

lemma sim_clock: "nat (sim_now w) < 9223372036854775808" "word_of_int (sim_now w) = (word_of_nat (nat (sim_now w)) :: u64)"
proof -
  have "0 \<le> sim_now w" "sim_now w < 2 ^ 63" by (simp_all add: sim_now_def)
  then show "nat (sim_now w) < 9223372036854775808" "word_of_int (sim_now w) = (word_of_nat (nat (sim_now w)) :: u64)"
    by (simp_all add: nat_less_iff)
qed

lemma sim_now_later: "0 \<le> k \<Longrightarrow> nat (sim_now w) \<le> nat (sim_now (w\<lparr>si_us := max 0 (si_us w) + k\<rparr>))"
  unfolding sim_now_def by (intro nat_mono min.mono zdiv_mono1) simp_all

lemma sim_clock_mono:
  "nat (sim_now w) \<le> nat (sim_now (w\<lparr>si_us := max 0 (si_us w) + uint (t :: u32)\<rparr>))"
  "nat (sim_now w) \<le> nat (sim_now (w\<lparr>si_us := max 0 (si_us w) + 1000 * max 0 k\<rparr>))"
  by (rule sim_now_later, simp)+

lemma sim_now_frame [simp]:
  "sim_now (w\<lparr>si_open := a\<rparr>) = sim_now w" "sim_now (w\<lparr>si_open := a, si_next := b\<rparr>) = sim_now w"
  "sim_now (w\<lparr>si_open := a, si_watch := c\<rparr>) = sim_now w" "sim_now (w\<lparr>si_watch := c\<rparr>) = sim_now w"
  "sim_now (w\<lparr>si_rounds := d\<rparr>) = sim_now w"
  by (simp_all add: sim_now_def)

lemma sim_sys_ok: "sys_ok sim_view sim_sys"
proof -
  have "distinct (take 1 xs) \<and> set (take 1 xs) \<subseteq> set xs" for xs :: "int list"
    by (cases xs) simp_all
  then have "sys_epoll sim_view sim_sys"
    by (simp add: sys_epoll_def sim_sys_def sim_view_def comp_def image_image Let_def)
  moreover have "sys_quiet sim_view sim_sys"
    by (simp add: sys_quiet_def quiet_def same_def sim_sys_def sim_view_def sim_clock_mono)
  moreover have "os_time sim_view (sy_os sim_sys)"
    by (simp add: os_time_def sim_sys_def sim_os_def sim_view_def sim_clock)
  moreover have "os_quiet sim_view (sy_os sim_sys)"
    by (simp add: os_quiet_def quiet_def same_def sim_sys_def sim_os_def sim_view_def)
  moreover have "os_fds sim_view (sy_os sim_sys)"
    by (auto simp: os_fds_def tracks_fds_def fcntl_works_def sim_sys_def sim_os_def sim_view_def)
  ultimately show ?thesis by (simp add: sys_ok_def)
qed

abbreviation (input) one_target :: tables where
  "one_target \<equiv> \<lparr>tb_ranges = \<lparr>cfg_num = 1, cfg_max_idx = 0, cfg_mask = 0, cfg_ranges = [7, 0]\<rparr>,
     tb_ports = \<lparr>cfg_num = 1, cfg_max_idx = 0, cfg_mask = 0, cfg_ranges = [80, 0]\<rparr>\<rparr>"

abbreviation (input) small_options :: options where
  "small_options \<equiv> (default_options [] [])\<lparr>max_pending_sockets := 2, socket_list_excess := 10,
     connect_timeout := 800\<rparr>"

abbreviation (input) sim_start :: sim where
  "sim_start \<equiv> \<lparr>si_next = 3, si_open = {0, 1, 2}, si_watch = [], si_us = 1000000, si_rounds = 2\<rparr>"

abbreviation (input) any_entry :: sl_entry where
  "any_entry \<equiv> \<lparr>prev_fd = 5, next_fd = 5, e_timeout = 5, e_ip = 5, e_port = 5\<rparr>"

lemma sim_draws: "draws_ok sim_sys one_target"
proof -
  have "gen_rand32 (sy_rng sim_sys) 0 0 0 fd w = Some (0, if fd = 0 then 9 else fd, w)" if "fd \<noteq> -1" for fd w
    using that by (simp add: gen_rand32_def sim_sys_def gen_rand32_loop.simps)
  moreover have "random_ip_at (tb_ranges one_target) 0 = Some 7"
    by (simp add: random_ip_at_def random_ip_loop.simps to_u32_def arr_get_def in_arr_def Let_def)
  moreover have "random_port_at (tb_ports one_target) 0 = Some 80" by code_simp
  ultimately show ?thesis
    by (simp add: draws_ok_def random_ip_def random_port_def sim_sys_def)
qed

lemma opts_ok_small: "opts_ok small_options"
  by (simp add: opts_ok_def default_options_def int_ok_def)

text \<open>Two rounds: four packets, of which two answer, are reported, and two time out.\<close>

lemma sim_runs:
  "map_option (map_sum id (\<lambda>s. (sc_queue s, packets_sent s, event_count s)))
     (conn_thread sim_sys small_options one_target (replicate 12 any_entry) 5 5 (scan_start sim_start))
   = Some (Inr ([(7, 80), (7, 80)], 4, 2))"
  by code_simp


section \<open>What a round reports\<close>


abbreviation (input) sim_loaded :: "sim scan" where
  "sim_loaded \<equiv> (scan_start sim_start)\<lparr>sc_list := init_socket_list (replicate 12 any_entry) 12\<rparr>"

lemma sim_round: "\<exists>s'. conn_round sim_sys small_options one_target 5 sim_loaded = Some (Inr s') \<and>
    sc_queue s' = [(7, 80)]"
proof -
  have "map_option (map_sum id sc_queue) (conn_round sim_sys small_options one_target 5 sim_loaded)
      = Some (Inr [(7, 80)])" by code_simp
  then show ?thesis by (rule map_outcome)
qed


end
