(* ===== verification/Worker.thy ===== *)
theory Worker
  imports Modules Scanner_Props
begin

text \<open>
  The rest of \<^verbatim>\<open>cscan.c\<close> a result passes through: the worker (\<open>process_thread\<close>), which takes results off
  the queue and runs the modules until it meets an address \<open>0\<close>; the listing mode (\<open>list_thread\<close>) and the
  mode that reads targets from the standard input (\<open>add_from_stdin\<close>); and the end of \<open>main\<close>, which queues
  an address \<open>0\<close> to stop the worker.

  The queue hands on what it is given in order (theory Queue_Monitor), so the worker is a function of the
  sequence of queued results, run in its own world. \<open>list_thread\<close> never ends: \<open>list_loop\<close> is its first
  \<open>n\<close> rounds.
\<close>

section \<open>The worker\<close>

text \<open>\<open>Waiting\<close>: all results are done and \<open>get_result\<close> blocks. \<open>Finished rs\<close>: it has returned and left \<open>rs\<close>.\<close>

datatype worker_end = Waiting | Finished "(u32 \<times> int) list"

fun worker_loop ::
  "'w env \<Rightarrow> build \<Rightarrow> (nat \<Rightarrow> bool \<times> bool) \<Rightarrow> (u32 \<times> int) list \<Rightarrow> modules \<Rightarrow> 'w mctx
    \<Rightarrow> (worker_end \<times> modules \<times> 'w mctx) option" where
  "worker_loop en b jk [] m cx = Some (Waiting, m, cx)"
| "worker_loop en b jk ((ip, port) # rs) m cx =
     (if ip = 0 then Some (Finished rs, m, cx)
      else case modules_exec en b (jk 0) ip port m cx of None \<Rightarrow> None
      | Some (m, cx) \<Rightarrow> worker_loop en b (\<lambda>n. jk (Suc n)) rs m cx)"

definition process_thread ::
  "'w env \<Rightarrow> build \<Rightarrow> (nat \<Rightarrow> bool \<times> bool) \<Rightarrow> byte \<Rightarrow> (u32 \<times> int) list \<Rightarrow> modules \<Rightarrow> 'w
    \<Rightarrow> (worker_end \<times> modules \<times> 'w mctx) option" where
  "process_thread en b jk tid rs m w =
     worker_loop en b jk rs m \<lparr>mx_world = w, mx_cba = cba_thread_init tid, mx_io = []\<rparr>"

section \<open>Listing and reading targets\<close>

fun list_loop :: "'w sys \<Rightarrow> tables \<Rightarrow> nat \<Rightarrow> int \<Rightarrow> 'w \<Rightarrow> (string \<times> int \<times> 'w) option" where
  "list_loop sy tb 0 fd w = Some ([], fd, w)"
| "list_loop sy tb (Suc n) fd w = do {
     (ip, fd, w) \<leftarrow> random_ip (sy_rng sy) (tb_ranges tb) (sy_junk sy) fd w;
     (port, fd, w) \<leftarrow> random_port (sy_rng sy) (tb_ports tb) (sy_junk sy) fd w;
     (txt, fd, w) \<leftarrow> list_loop sy tb n fd w;
     Some (target_line ip port @ txt, fd, w)
   }"

text \<open>
  \<open>scanf("%15[^ :,]%*[ :,]%d ", ip_str, &port)\<close>: \<open>Some None\<close> when it does not answer \<open>2\<close>, \<open>None\<close> for a
  number outside \<open>int\<close>. The first conversion skips no white space; the string ends at a NUL in it.
\<close>

definition is_sep :: "char \<Rightarrow> bool" where
  "is_sep c \<longleftrightarrow> c = CHR '' '' \<or> c = CHR '':'' \<or> c = CHR '',''"

definition scan_target :: "string \<Rightarrow> (string \<times> int \<times> string) option option" where
  "scan_target s =
     (let a = takeWhile (\<lambda>c. \<not> is_sep c) (take 15 s); r = drop (length a) s in
      if a = [] \<or> r = [] \<or> \<not> is_sep (hd r) then Some None
      else case scan_d (dropWhile is_sep r) of
          Conv v rest \<Rightarrow>
            if int_ok v then Some (Some (takeWhile (\<lambda>c. c \<noteq> CHR 0x00) a, v, dropWhile is_space rest)) else None
        | _ \<Rightarrow> Some None)"

lemma scan_target_shorter: "scan_target s = Some (Some (a, v, t)) \<Longrightarrow> length t < length s"
proof -
  assume s: "scan_target s = Some (Some (a, v, t))"
  define a' where "a' = takeWhile (\<lambda>c. \<not> is_sep c) (take 15 s)"
  from s obtain rest where r: "a' \<noteq> []" "scan_d (dropWhile is_sep (drop (length a') s)) = Conv v rest"
    "t = dropWhile is_space rest"
    by (auto simp: scan_target_def Let_def a'_def[symmetric] split: if_splits conv.splits)
  have "length t \<le> length (drop (length a') s)"
    using scan_d_length[OF r(2)] length_dropWhile_le[of is_space rest]
      length_dropWhile_le[of is_sep "drop (length a') s"] r(3) by simp
  moreover have "0 < length a'" "length a' \<le> length s"
    using r(1) length_takeWhile_le[of "\<lambda>c. \<not> is_sep c" "take 15 s"] by (auto simp: a'_def)
  ultimately show ?thesis unfolding length_drop by linarith
qed

function add_from_stdin :: "string \<Rightarrow> 'w scan \<Rightarrow> 'w scan option" where
  "add_from_stdin txt s =
     (case scan_target txt of None \<Rightarrow> None
      | Some None \<Rightarrow> Some s
      | Some (Some (a, port, rest)) \<Rightarrow>
          (case queue_result (parse_ip4 a) port s of None \<Rightarrow> None | Some s \<Rightarrow> add_from_stdin rest s))"
  by pat_completeness auto
termination
  by (relation "measure (\<lambda>(txt, s). length txt)") (auto dest: scan_target_shorter)

declare add_from_stdin.simps [simp del]

section \<open>The end of main\<close>

definition stop_worker :: "'w scan \<Rightarrow> 'w scan option" where
  "stop_worker s = queue_result 0 0 s"

definition stdin_mode ::
  "'w env \<Rightarrow> build \<Rightarrow> (nat \<Rightarrow> bool \<times> bool) \<Rightarrow> string \<Rightarrow> modules \<Rightarrow> 'w scan
    \<Rightarrow> (worker_end \<times> modules \<times> 'w mctx) option" where
  "stdin_mode en b jk txt m s = do {
     s \<leftarrow> add_from_stdin txt s;
     s \<leftarrow> stop_worker s;
     process_thread en b jk 1 (sc_queue s) m (sc_w s)
   }"

definition scan_mode ::
  "'w sys \<Rightarrow> options \<Rightarrow> tables \<Rightarrow> sl_entry list \<Rightarrow> nat \<Rightarrow> nat \<Rightarrow> 'w scan \<Rightarrow> 'w scan outcome" where
  "scan_mode sy p tb mem fuel rounds s =
     then_do (conn_thread sy p tb mem fuel rounds s) (\<lambda>s.
       map_option Inr (Option.bind (print_stats sy s) stop_worker))"

section \<open>Reading lines\<close>

text \<open>A line the program reads as one target: an address, or what stands for one, and a port.\<close>

definition host_ok :: "string \<Rightarrow> bool" where
  "host_ok a \<longleftrightarrow> a \<noteq> [] \<and> length a \<le> 15 \<and>
     (\<forall>c \<in> set a. \<not> is_space c \<and> c \<noteq> CHR '':'' \<and> c \<noteq> CHR '','' \<and> c \<noteq> CHR 0x00)"

definition host_line :: "string \<times> int \<Rightarrow> string" where
  "host_line t = fst t @ '':'' @ int_string (snd t) @ [CHR 0x0A]"

abbreviation (input) lines_of :: "(string \<times> int) list \<Rightarrow> string" where
  "lines_of ts \<equiv> concat (map host_line ts)"

definition target_of :: "string \<times> int \<Rightarrow> u32 \<times> int" where
  "target_of t = (parse_ip4 (fst t), snd t)"

lemma space_space: "is_space CHR '' ''"
  by (simp add: is_space_def)

lemma space_newline: "is_space CHR 0x0A" "\<not> is_digit CHR 0x0A"
  by (simp_all add: is_space_def is_digit_def)

lemma host_no_sep: "host_ok a \<Longrightarrow> c \<in> set a \<Longrightarrow> \<not> is_sep c"
  using space_space by (auto simp: host_ok_def is_sep_def)

lemma scan_host_line:
  assumes a: "host_ok a" and v: "int_ok v" and t: "t = [] \<or> \<not> is_space (hd t)"
  shows "scan_target (host_line (a, v) @ t) = Some (Some (a, v, t))"
proof -
  let ?r = "'':'' @ int_string v @ CHR 0x0A # t"
  have s: "host_line (a, v) @ t = a @ ?r" by (simp add: host_line_def)
  have sep: "is_sep CHR '':''" by (simp add: is_sep_def)
  have tk: "takeWhile (\<lambda>c. \<not> is_sep c) (take 15 (a @ ?r)) = a"
  proof (cases "length a = 15")
    case True
    then show ?thesis using host_no_sep[OF a] by (simp add: takeWhile_eq_all_conv)
  next
    case False
    then obtain k where "15 - length a = Suc k" using a by (cases "15 - length a") (auto simp: host_ok_def)
    then have "take 15 (a @ ?r) = a @ CHR '':'' # take k (int_string v @ CHR 0x0A # t)"
      using a by (simp add: host_ok_def)
    then show ?thesis using host_no_sep[OF a] sep by (simp add: takeWhile_append2)
  qed
  have "\<not> is_sep (hd (int_string v @ CHR 0x0A # t))"
  proof -
    obtain c cs where c: "dec_string (nat \<bar>v\<bar>) = c # cs" by (cases "dec_string (nat \<bar>v\<bar>)") auto
    then have "is_digit c" using dec_string_digits[of "nat \<bar>v\<bar>"] by simp
    then show ?thesis using c by (auto simp: int_string_def is_sep_def is_digit_def)
  qed
  then have "dropWhile is_sep ?r = int_string v @ CHR 0x0A # t"
    using sep by (cases "int_string v @ CHR 0x0A # t") auto
  moreover have "scan_d (int_string v @ CHR 0x0A # t) = Conv v (CHR 0x0A # t)"
    by (rule scan_d_int) (simp add: space_newline)
  moreover have "dropWhile is_space (CHR 0x0A # t) = t"
    using t space_newline by (cases t) auto
  moreover have "takeWhile (\<lambda>c. c \<noteq> CHR 0x00) a = a" "a \<noteq> []"
    using a by (simp_all add: host_ok_def takeWhile_eq_all_conv)
  ultimately show ?thesis
    using v sep unfolding s scan_target_def tk Let_def by simp
qed

lemma lines_hd: "\<forall>t \<in> set ts. host_ok (fst t) \<Longrightarrow> lines_of ts = [] \<or> \<not> is_space (hd (lines_of ts))"
  by (cases ts) (auto simp: host_line_def host_ok_def)

text \<open>Every line becomes a result, in order.\<close>

lemma add_lines:
  "\<forall>t \<in> set ts. host_ok (fst t) \<and> int_ok (snd t) \<Longrightarrow>
    0 \<le> result_count s \<Longrightarrow> result_count s + int (length ts) < 2 ^ 31 \<Longrightarrow>
    add_from_stdin (lines_of ts) s
      = Some (s\<lparr>sc_queue := sc_queue s @ map target_of ts, result_count := result_count s + int (length ts)\<rparr>)"
proof (induction ts arbitrary: s)
  case Nil
  show ?case by (subst add_from_stdin.simps) (simp add: scan_target_def)
next
  case (Cons t ts)
  have sc: "scan_target (lines_of (t # ts)) = Some (Some (fst t, snd t, lines_of ts))"
    using scan_host_line[of "fst t" "snd t" "lines_of ts"] lines_hd[of ts] Cons.prems(1) by simp
  have "int_ok (result_count s + 1)" using Cons.prems(2,3) by (simp add: int_ok_nonneg)
  then show ?case
    using Cons.prems unfolding add_from_stdin.simps[of _ s] sc
    by (simp add: queue_result_def Cons.IH target_of_def)
qed

section \<open>What the worker is given\<close>

text \<open>The worker runs the modules on everything before the first address \<open>0\<close>, and on nothing behind it.\<close>

lemma worker_loop_stop:
  "\<forall>r \<in> set rs. fst r \<noteq> 0 \<Longrightarrow>
    worker_loop en b jk (rs @ (0, port) # rest) m cx
      = map_option (\<lambda>(_, m, cx). (Finished rest, m, cx)) (worker_loop en b jk rs m cx)"
  by (induction rs arbitrary: jk m cx) (auto split: option.split)

lemma stdin_mode_lines:
  assumes "\<forall>t \<in> set ts. host_ok (fst t) \<and> int_ok (snd t)" "sc_queue s = []" "result_count s = 0"
    and "int (length ts) < 2 ^ 31 - 1"
  shows "stdin_mode en b jk (lines_of ts) m s
    = process_thread en b jk 1 (map target_of ts @ [(0, 0)]) m (sc_w s)"
  using add_lines[OF assms(1), of s] assms(2-4)
  by (simp add: stdin_mode_def stop_worker_def queue_result_def int_ok_nonneg)

section \<open>The listing read back\<close>

definition only_print :: "modules \<Rightarrow> bool" where
  "only_print m \<longleftrightarrow> pr_on (md_print m) \<and> \<not> pr_has_file (md_print m) \<and> \<not> ck_on (md_cookie m) \<and>
     \<not> rfb_on (md_rfb m) \<and> \<not> x11_on (md_x11 m)"

lemma exec_prints:
  assumes "only_print m" "have_print b" "0 \<le> pr_num (md_print m)" "pr_num (md_print m) + 1 < 2 ^ 31"
  shows "modules_exec en b jk ip port m cx
    = Some (m\<lparr>md_print := (md_print m)\<lparr>pr_num := pr_num (md_print m) + 1\<rparr>\<rparr>,
        cx\<lparr>mx_io := mx_io cx @ [Print (ascii (target_line ip port))]\<rparr>)"
  using assms
  by (simp add: only_print_def modules_exec_def check_cookie_def run_modules_def print_result_def
      rfb_result_def x11_result_def int_ok_nonneg Let_def)

lemma worker_prints:
  assumes "have_print b"
  shows "only_print m \<Longrightarrow> \<forall>r \<in> set rs. fst r \<noteq> 0 \<Longrightarrow>
    0 \<le> pr_num (md_print m) \<Longrightarrow> pr_num (md_print m) + int (length rs) < 2 ^ 31 \<Longrightarrow>
    \<exists>m'. worker_loop en b jk rs m cx
      = Some (Waiting, m', cx\<lparr>mx_io := mx_io cx @ map (\<lambda>r. Print (ascii (target_line (fst r) (snd r)))) rs\<rparr>)"
proof (induction rs arbitrary: jk m cx)
  case (Cons r rs)
  obtain ip port where r: "r = (ip, port)" by (cases r)
  let ?m = "m\<lparr>md_print := (md_print m)\<lparr>pr_num := pr_num (md_print m) + 1\<rparr>\<rparr>"
  let ?cx = "cx\<lparr>mx_io := mx_io cx @ [Print (ascii (target_line ip port))]\<rparr>"
  have "modules_exec en b (jk 0) ip port m cx = Some (?m, ?cx)"
    using exec_prints[OF Cons.prems(1) assms] Cons.prems(3,4) by simp
  moreover have "only_print ?m" using Cons.prems(1) by (simp add: only_print_def)
  ultimately show ?case
    using Cons.IH[of ?m "\<lambda>n. jk (Suc n)" ?cx] Cons.prems(2-4) by (simp add: r)
qed simp

lemma host_print_ip4: "host_ok (print_ip4 ip)"
proof -
  have "is_digit c \<or> c = CHR ''.''" if "c \<in> set (print_ip4 ip)" for c
    using that dec_string_digits unfolding print_ip4_def ip_byte_def by auto
  moreover have "print_ip4 ip \<noteq> []" by (simp add: print_ip4_def)
  ultimately show ?thesis
    using length_print_ip4[of ip] is_digit_distinct
    by (fastforce simp: host_ok_def is_space_def is_digit_def)
qed

lemma int32_ok: "int_ok (to_int32 w)" "int_ok (- 1)"
  using sint_greater_eq[of w] sint_less[of w] by (simp_all add: to_int32_def int_ok_def)

lemma random_port_int: "random_port g cfg r fd w = Some (port, fd', w') \<Longrightarrow> int_ok port"
proof -
  have "random_port_loop cfg r idx = Some p \<Longrightarrow> int_ok p" for cfg r idx p
  proof (induction cfg r idx rule: random_port_loop.induct)
    case (1 cfg r idx)
    then show ?case
      by (subst (asm) (2) random_port_loop.simps)
        (auto simp: int32_ok split: if_splits option.splits)
  qed
  then show "random_port g cfg r fd w = Some (port, fd', w') \<Longrightarrow> int_ok port"
    by (auto simp: random_port_def random_port_at_def split: option.splits)
qed

section \<open>A line that stops the worker\<close>

text \<open>C6: one line whose address does not parse, or is \<open>0.0.0.0\<close>, ends the work: \<open>parse_ip4\<close> answers \<open>0\<close>,
  which is the sign to stop, and although the lines behind it are read and queued, no module sees them:
  the run does what it does on the lines before, and leaves the others in the queue.\<close>

theorem unparsable_line_stops:
  assumes "\<forall>t \<in> set (ts @ (a, port) # us). host_ok (fst t) \<and> int_ok (snd t)"
    and "\<forall>t \<in> set ts. parse_ip4 (fst t) \<noteq> 0" "parse_ip4 a = 0"
    and "sc_queue s = []" "result_count s = 0" "int (length (ts @ (a, port) # us)) < 2 ^ 31 - 1"
  shows "stdin_mode en b jk (lines_of (ts @ (a, port) # us)) m s
    = map_option (\<lambda>(_, m, cx). (Finished (map target_of us @ [(0, 0)]), m, cx))
        (process_thread en b jk 1 (map target_of ts) m (sc_w s))"
proof -
  have "map target_of (ts @ (a, port) # us) @ [(0, 0)]
      = map target_of ts @ (0, port) # map target_of us @ [(0, 0)]"
    using assms(3) by (simp add: target_of_def)
  moreover have "\<forall>r \<in> set (map target_of ts). fst r \<noteq> 0" using assms(2) by (simp add: target_of_def)
  ultimately show ?thesis
    unfolding stdin_mode_lines[OF assms(1,4,5,6)] process_thread_def by (simp only: worker_loop_stop)
qed

section \<open>From a listing to the same listing\<close>

text \<open>While the random device works, the listing mode prints lines of targets the sampler draws.\<close>

lemma list_loop_lines:
  assumes ok: "draws_ok sy tb"
    and nz: "\<forall>fd w ip fd' w'. fd \<noteq> -1 \<longrightarrow>
      random_ip (sy_rng sy) (tb_ranges tb) (sy_junk sy) fd w = Some (ip, fd', w') \<longrightarrow> ip \<noteq> 0"
  shows "fd \<noteq> -1 \<Longrightarrow> \<exists>ts fd' w'.
    list_loop sy tb n fd w = Some (concat (map (\<lambda>r. target_line (fst r) (snd r)) ts), fd', w') \<and>
    length ts = n \<and> (\<forall>r \<in> set ts. int_ok (snd r) \<and> fst r \<noteq> 0)"
proof (induction n arbitrary: fd w)
  case (Suc n)
  obtain ip fd1 w1 where d1: "random_ip (sy_rng sy) (tb_ranges tb) (sy_junk sy) fd w = Some (ip, fd1, w1)" "fd1 \<noteq> -1"
    using ok Suc.prems unfolding draws_ok_def by blast
  obtain port fd2 w2 where d2: "random_port (sy_rng sy) (tb_ports tb) (sy_junk sy) fd1 w1 = Some (port, fd2, w2)" "fd2 \<noteq> -1"
    using ok d1(2) unfolding draws_ok_def by blast
  obtain ts fd' w' where t:
    "list_loop sy tb n fd2 w2 = Some (concat (map (\<lambda>r. target_line (fst r) (snd r)) ts), fd', w')"
    "length ts = n" "\<forall>r \<in> set ts. int_ok (snd r) \<and> fst r \<noteq> 0"
    using Suc.IH[OF d2(2)] by blast
  have "ip \<noteq> 0" using nz Suc.prems d1(1) by blast
  with d1(1) d2(1) t random_port_int[OF d2(1)] show ?case
    by (intro exI[of _ "(ip, port) # ts"] exI[of _ fd'] exI[of _ w']) auto
qed simp

lemma target_host_line: "target_line ip port = host_line (print_ip4 ip, port)"
  by (simp add: target_line_def target_text_def host_line_def)

lemma init_print:
  assumes "have_print b"
  shows "modules_init b False ''print'' [] modules_default
    = Some (modules_default\<lparr>md_print := \<lparr>pr_on = True, pr_has_file = False, pr_num = 0\<rparr>\<rparr>)"
proof -
  have "strstr ''print'' ''print'' = Some ''print''" "strstr ''print'' ''cookie'' = None"
    "strstr ''print'' ''rfb'' = None" "strstr ''print'' ''x11'' = None" by code_simp+
  with assms show ?thesis
    by (simp add: modules_init_def print_init_def checkcookie_init_def cookie_ports_opt_def rfb_init_def
        x11_init_def int_option_def modules_default_def print_default_def cookie_default_def
        rfb_default_def x11_default_def Let_def)
qed

text \<open>What the worker printed on the standard output.\<close>

definition printed :: "cba_io list \<Rightarrow> byte list" where
  "printed io = concat (map (\<lambda>x. case x of Print b \<Rightarrow> b | _ \<Rightarrow> []) io)"

lemma printed_lines:
  "printed (map (\<lambda>r. Print (ascii (target_line (fst r) (snd r)))) ts)
    = ascii (concat (map (\<lambda>r. target_line (fst r) (snd r)) ts))"
  by (induction ts) (simp_all add: printed_def ascii_def)



text \<open>Three lines, the second with a name instead of an address: only the first is printed.\<close>

theorem unparsable_line_stops_witness:
  "map_option (\<lambda>(e, m, cx). (e, printed (mx_io cx)))
     (stdin_mode \<lparr>en_os = peer_os, en_tls = None, en_file = False\<rparr>
       \<lparr>have_print = True, have_checkcookie = False, have_rfb = False, have_x11 = False\<rparr> (\<lambda>n. (True, True))
       (''1.2.3.4:80''@[CHR 0x0A]@''host:80''@[CHR 0x0A]@''1.2.3.5:80''@[CHR 0x0A])
       (modules_default\<lparr>md_print := \<lparr>pr_on = True, pr_has_file = False, pr_num = 0\<rparr>\<rparr>) (scan_start peer1))
   = Some (Finished [(0x01020305, 80), (0, 0)], ascii (''1.2.3.4:80''@[CHR 0x0A]))"
  (is "map_option _ (stdin_mode ?en ?b ?jk _ ?m ?s) = _")
proof -
  have i: "int_string 80 = ''80''" by code_simp
  have q: "print_ip4 0x01020304 = ''1.2.3.4''" "print_ip4 0x01020305 = ''1.2.3.5''" by code_simp+
  have p: "parse_ip4 ''1.2.3.4'' = 0x01020304" "parse_ip4 ''1.2.3.5'' = 0x01020305"
    using parse_print[of "0x01020304"] parse_print[of "0x01020305"] by (simp_all add: q)
  have e: "parse_ip4 ''host'' = 0" by code_simp
  have h: "host_ok ''1.2.3.4''" "host_ok ''1.2.3.5''" "host_ok ''host''"
    using host_print_ip4[of "0x01020304"] host_print_ip4[of "0x01020305"] by (simp_all add: q host_ok_def is_space_def)
  have t: "target_line 0x01020304 80 = ''1.2.3.4:80''@[CHR 0x0A]" by (simp add: target_line_def target_text_def q i)
  have "stdin_mode ?en ?b ?jk (''1.2.3.4:80''@[CHR 0x0A]@''host:80''@[CHR 0x0A]@''1.2.3.5:80''@[CHR 0x0A]) ?m ?s
    = map_option (\<lambda>(_, m, cx). (Finished [(0x01020305, 80), (0, 0)], m, cx))
        (process_thread ?en ?b ?jk 1 [(0x01020304, 80)] ?m (sc_w ?s))"
    using unparsable_line_stops[of "[(''1.2.3.4'', 80)]" "''host''" 80 "[(''1.2.3.5'', 80)]" ?s ?en ?b ?jk ?m]
    by (simp add: h p e host_line_def i target_of_def int_ok_def scan_start_def)
  then show ?thesis
    by (simp add: process_thread_def exec_prints only_print_def modules_default_def cookie_default_def
        rfb_default_def x11_default_def printed_def t)
qed

end
