(* ===== verification/Stats.thy ===== *)
theory Stats
  imports Worker
begin

text \<open>
  What the log of the scanner adds up to. \<open>print_stats\<close> writes the events and the results since it was
  last called. Whatever \<open>conn_thread\<close> does in between, its log is a sequence of whole entries of
  \<^verbatim>\<open>log.c\<close>, whose statistics sum to the counters at the last call, and each result counted is queued;
  \<open>main\<close> calls \<open>print_stats\<close> once more at the end.
\<close>

section \<open>Entries of the log\<close>

datatype log_entry = Counts u64 int int | Canary bool | Event string

fun entry_calls :: "bool \<Rightarrow> log_entry \<Rightarrow> cba_call list" where
  "entry_calls f (Counts t ne nr) = log_stats f t ne nr"
| "entry_calls f (Canary got_reply) = log_canary_fail f got_reply"
| "entry_calls f (Event msg) = log_event f msg"

fun new_events :: "log_entry \<Rightarrow> int" where
  "new_events (Counts t ne nr) = ne"
| "new_events _ = 0"

fun new_results :: "log_entry \<Rightarrow> int" where
  "new_results (Counts t ne nr) = nr"
| "new_results _ = 0"

fun entry_ok :: "log_entry \<Rightarrow> bool" where
  "entry_ok (Counts t ne nr) \<longleftrightarrow> int_ok ne \<and> int_ok nr"
| "entry_ok _ \<longleftrightarrow> True"

definition entries_calls :: "bool \<Rightarrow> log_entry list \<Rightarrow> cba_call list" where
  "entries_calls f es = concat (map (entry_calls f) es)"

section \<open>The invariant\<close>

definition booked :: "'w sys \<Rightarrow> 'w scan \<Rightarrow> bool" where
  "booked sy s \<longleftrightarrow> result_count s = int (length (sc_queue s)) \<and>
     (\<exists>es. sc_calls s = entries_calls (sy_file sy) es \<and> (\<forall>e \<in> set es. entry_ok e) \<and>
       last_event_count s = sum_list (map new_events es) \<and> last_result_count s = sum_list (map new_results es))"

lemma booked_cong:
  "booked sy s \<Longrightarrow> sc_calls s' = sc_calls s \<Longrightarrow> last_event_count s' = last_event_count s \<Longrightarrow>
    last_result_count s' = last_result_count s \<Longrightarrow> result_count s' = result_count s \<Longrightarrow>
    sc_queue s' = sc_queue s \<Longrightarrow> booked sy s'"
  by (simp add: booked_def)

lemma booked_fields [simp]:
  "booked sy (s\<lparr>sc_w := w\<rparr>) = booked sy s" "booked sy (s\<lparr>sc_list := l\<rparr>) = booked sy s"
  "booked sy (s\<lparr>sc_rng_fd := fd\<rparr>) = booked sy s" "booked sy (s\<lparr>sc_last_packet := t\<rparr>) = booked sy s"
  "booked sy (s\<lparr>packets_sent := n\<rparr>) = booked sy s" "booked sy (s\<lparr>event_count := n\<rparr>) = booked sy s"
  by (simp_all add: booked_def)

lemma booked_entry:
  assumes "booked sy s" "new_events e = 0" "new_results e = 0" "entry_ok e"
  shows "booked sy (sc_log (entry_calls (sy_file sy) e) s)"
proof -
  obtain es where "sc_calls s = entries_calls (sy_file sy) es" "last_event_count s = sum_list (map new_events es)"
    "last_result_count s = sum_list (map new_results es)" "result_count s = int (length (sc_queue s))"
    "\<forall>e \<in> set es. entry_ok e"
    using assms(1) by (auto simp: booked_def)
  with assms(2-4) show ?thesis
    by (auto simp: booked_def sc_log_def entries_calls_def intro!: exI[of _ "es @ [e]"])
qed

lemma booked_log [simp]:
  "booked sy s \<Longrightarrow> booked sy (sc_log (log_event (sy_file sy) msg) s)"
  "booked sy s \<Longrightarrow> booked sy (sc_log (log_canary_fail (sy_file sy) b) s)"
  using booked_entry[of sy s "Event msg"] booked_entry[of sy s "Canary b"] by simp_all

lemma queue_result_booked: "booked sy s \<Longrightarrow> queue_result ip port s = Some s' \<Longrightarrow> booked sy s'"
  by (auto simp: queue_result_def booked_def cadd_def cint_def split: if_splits)

lemma print_stats_booked:
  assumes "booked sy s" "print_stats sy s = Some s'"
  shows "booked sy s' \<and> last_event_count s' = event_count s' \<and> last_result_count s' = result_count s' \<and>
    sc_queue s' = sc_queue s \<and> event_count s' = event_count s"
proof -
  obtain es where es: "sc_calls s = entries_calls (sy_file sy) es" "last_event_count s = sum_list (map new_events es)"
    "last_result_count s = sum_list (map new_results es)" "result_count s = int (length (sc_queue s))"
    "\<forall>e \<in> set es. entry_ok e"
    using assms(1) by (auto simp: booked_def)
  obtain t w where tw: "(if sy_file sy then sy_time sy (sc_w s) else (0, sc_w s)) = (t, w)" by force
  have "s' = (sc_log (log_stats (sy_file sy) t (event_count s - last_event_count s) (result_count s - last_result_count s)) s)
      \<lparr>sc_w := w, last_event_count := event_count s, last_result_count := result_count s\<rparr>"
    "int_ok (event_count s - last_event_count s)" "int_ok (result_count s - last_result_count s)"
    using assms(2) tw by (auto simp: print_stats_def csub_def cint_def split: if_splits)
  with es show ?thesis
    by (auto simp: booked_def sc_log_def entries_calls_def
        intro!: exI[of _ "es @ [Counts t (event_count s - last_event_count s) (result_count s - last_result_count s)]"])
qed

section \<open>Every step keeps it\<close>

lemma pick_target_booked: "booked sy s \<Longrightarrow> pick_target sy p tb s = Some (ip, port, s') \<Longrightarrow> booked sy s'"
  by (auto simp: pick_target_def Let_def split: Option.bind_splits if_splits)

lemma bind_loop_booked:
  "booked sy s \<Longrightarrow> bind_loop sy bip sock port lim bp s = Some (Inr s') \<Longrightarrow> booked sy s'"
proof (induction sy bip sock port lim bp s rule: bind_loop.induct)
  case (1 sy bip sock port lim bp s)
  from 1(2,3) show ?case
    by (subst (asm) bind_loop.simps)
      (auto simp: Let_def split: if_splits prod.splits option.splits dest!: 1(1)[rotated -1])
qed

lemma open_socket_booked:
  "booked sy s \<Longrightarrow> open_socket sy p port s = Some (Inr (sock, s')) \<Longrightarrow> booked sy s'"
  by (auto simp: open_socket_def Let_def then_do_eq_Inr split: prod.splits if_splits option.splits
      dest!: bind_loop_booked[rotated])

lemma count_packet_booked: "booked sy s \<Longrightarrow> count_packet sy p sock s = Some s' \<Longrightarrow> booked sy s'"
  by (auto simp: count_packet_def Let_def split: Option.bind_splits if_splits dest!: print_stats_booked[rotated])

lemma after_connect_booked:
  "booked sy s \<Longrightarrow> after_connect sy p sock ip port s = Some (Inr (tfd, s')) \<Longrightarrow> booked sy s'"
  by (auto simp: after_connect_def Let_def split: if_splits prod.splits dest!: queue_result_booked[rotated])

lemma try_connect_booked:
  assumes "booked sy s" "try_connect sy p tb s = Some (Inr (tfd, s'))"
  shows "booked sy s'"
proof -
  obtain ip port s1 where s1: "pick_target sy p tb s = Some (ip, port, s1)"
    using assms(2) by (auto simp: try_connect_def split: option.splits)
  obtain sock s2 where s2: "open_socket sy p port s1 = Some (Inr (sock, s2))"
    using assms(2) s1 by (auto simp: try_connect_def then_do_eq_Inr)
  obtain sock' w where w: "socket4_try_connect (sy_os sy) sock ip port (sc_w s2) = (sock', w)" by force
  obtain s3 where s3: "count_packet sy p sock' (s2\<lparr>sc_w := w\<rparr>) = Some s3"
    "after_connect sy p sock' ip port s3 = Some (Inr (tfd, s'))"
    using assms(2) s1 s2 w by (auto simp: try_connect_def split: option.splits)
  have "booked sy s2" by (rule open_socket_booked[OF pick_target_booked[OF assms(1) s1] s2])
  then show ?thesis using count_packet_booked[OF _ s3(1)] after_connect_booked[OF _ s3(2)] by simp
qed

lemma watch_socket_booked:
  "booked sy (snd r) \<Longrightarrow> watch_socket sy r = Some (Inr s') \<Longrightarrow> booked sy s'"
  by (cases r) (auto simp: watch_socket_def Let_def split: if_splits prod.splits)

lemma check_interval_booked [simp]: "booked sy (check_connect_interval sy p s) = booked sy s"
  by (simp add: check_connect_interval_def Let_def split: prod.split)

lemma fill_step_booked: "booked sy s \<Longrightarrow> fill_step sy p tb s = Some (Inr s') \<Longrightarrow> booked sy s'"
  by (auto simp: fill_step_def Let_def then_do_eq_Inr split: if_splits
      dest!: try_connect_booked[rotated] watch_socket_booked[rotated])

lemma fill_loop_booked: "booked sy s \<Longrightarrow> fill_loop sy p tb fuel s = Some (Inr s') \<Longrightarrow> booked sy s'"
proof (induction fuel arbitrary: s)
  case 0
  then show ?case by (subst (asm) fill_loop.simps) (simp split: if_splits)
next
  case (Suc fuel)
  then show ?case
    by (subst (asm) fill_loop.simps) (auto simp: then_do_eq_Inr split: if_splits dest: fill_step_booked)
qed

lemma drop_socket_booked: "booked sy s \<Longrightarrow> drop_socket sy fd s = Some (fd', s') \<Longrightarrow> booked sy s'"
  by (auto simp: drop_socket_def)

lemma handle_event_booked: "booked sy s \<Longrightarrow> handle_event sy p ev s = Some s' \<Longrightarrow> booked sy s'"
  by (cases ev) (auto simp: handle_event_def split: Option.bind_splits if_splits
      dest!: drop_socket_booked[rotated] queue_result_booked[rotated])

lemma handle_events_booked: "booked sy s \<Longrightarrow> handle_events sy p evs s = Some s' \<Longrightarrow> booked sy s'"
  by (induction evs arbitrary: s) (auto split: Option.bind_splits dest: handle_event_booked)

lemma expire_loop_booked: "booked sy s \<Longrightarrow> expire_loop sy p now fuel fd s = Some (Inr s') \<Longrightarrow> booked sy s'"
proof (induction fuel arbitrary: fd s)
  case 0
  then show ?case by (subst (asm) expire_loop.simps) (auto split: if_splits option.splits)
next
  case (Suc fuel)
  from Suc.prems show ?case
    by (subst (asm) expire_loop.simps)
      (auto simp: Let_def split: if_splits option.splits dest!: Suc.IH[rotated] drop_socket_booked[rotated])
qed

lemma conn_round_booked: "booked sy s \<Longrightarrow> conn_round sy p tb fuel s = Some (Inr s') \<Longrightarrow> booked sy s'"
proof -
  assume s: "booked sy s" "conn_round sy p tb fuel s = Some (Inr s')"
  then obtain s1 where s1: "fill_loop sy p tb fuel s = Some (Inr s1)"
    by (auto simp: conn_round_def then_do_eq_Inr)
  with s(2) obtain evs s2 where s2: "wait_events sy p s1 = Some (evs, s2)"
    by (auto simp: conn_round_def split: option.splits)
  with s(2) s1 obtain s3 where "handle_events sy p evs s2 = Some s3" "expire sy p s3 = Some (Inr s')"
    by (auto simp: conn_round_def split: option.splits)
  note r = s1 s2 this
  have "booked sy s1" by (rule fill_loop_booked[OF s(1) r(1)])
  then have "booked sy s2" using r(2) by (auto simp: wait_events_def Let_def split: Option.bind_splits prod.splits)
  then have "booked sy s3" by (rule handle_events_booked[OF _ r(3)])
  then show ?thesis using r(4) by (auto simp: expire_def Let_def split: prod.splits dest: expire_loop_booked[rotated])
qed

lemma conn_loop_booked: "booked sy s \<Longrightarrow> conn_loop sy p tb fuel rounds s = Some (Inr s') \<Longrightarrow> booked sy s'"
proof (induction rounds arbitrary: s)
  case 0
  then show ?case by (subst (asm) conn_loop.simps) (auto simp: Let_def split: if_splits prod.splits)
next
  case (Suc rounds)
  obtain fin w where d: "sy_done sy (sc_w s) = (fin, w)" by force
  have b: "booked sy (s\<lparr>sc_w := w\<rparr>)" using Suc.prems(1) by simp
  from Suc.prems(2) d show ?case
    by (subst (asm) conn_loop.simps)
      (use b in \<open>auto simp: Let_def then_do_eq_Inr split: if_splits dest: conn_round_booked[OF b] Suc.IH\<close>)
qed

section \<open>The totals\<close>

lemma stats_booked:
  assumes "scan_mode sy p tb mem fuel rounds (scan_start w) = Some (Inr s)"
  shows "\<exists>es rs. sc_calls s = entries_calls (sy_file sy) es \<and> (\<forall>e \<in> set es. entry_ok e) \<and> sc_queue s = rs @ [(0, 0)] \<and>
    sum_list (map new_results es) = int (length rs) \<and> sum_list (map new_events es) = event_count s"
proof -
  obtain s1 s2 where r: "conn_thread sy p tb mem fuel rounds (scan_start w) = Some (Inr s1)"
    "print_stats sy s1 = Some s2" "stop_worker s2 = Some s"
    using assms by (auto simp: scan_mode_def then_do_eq_Inr split: Option.bind_splits)
  have "booked sy ((scan_start w)\<lparr>sc_list := l\<rparr>)" for l
    by (simp add: booked_def scan_start_def entries_calls_def exI[of _ "[]"])
  then have "booked sy s1" using r(1) by (auto simp: conn_thread_def split: option.splits dest: conn_loop_booked[rotated])
  note b = print_stats_booked[OF this r(2)]
  have "s = s2\<lparr>sc_queue := sc_queue s2 @ [(0, 0)], result_count := result_count s2 + 1\<rparr>"
    using r(3) by (auto simp: stop_worker_def queue_result_def cadd_def cint_def split: if_splits)
  with b show ?thesis by (auto simp: booked_def)
qed

text \<open>C8: the log accounts for everything. When a scan has ended, whatever the network did, the scanner's part
  of the result file is a sequence of whole entries; the results in its statistics add up to the number
  of results queued before the sign to stop, and the events to the events counted, the final
  \<open>print_stats\<close> included, so none is reported twice and none is lost.\<close>

theorem stats_add_up:
  assumes "scan_mode sy p tb mem fuel rounds (scan_start w) = Some (Inr s)"
  shows "\<exists>es rs. sc_calls s = entries_calls (sy_file sy) es \<and> sc_queue s = rs @ [(0, 0)] \<and>
    sum_list (map new_results es) = int (length rs) \<and> sum_list (map new_events es) = event_count s"
  using stats_booked[OF assms] by blast

text \<open>The simulated scan with a result file, whose statistics are written every second packet.\<close>

lemma sim_scan_mode:
  "map_option (map_sum id (\<lambda>s. (sc_queue s, event_count s)))
     (scan_mode (sim_sys\<lparr>sy_file := True\<rparr>) (small_options\<lparr>stats_every := 2\<rparr>) one_target (replicate 12 any_entry) 5 5
       (scan_start sim_start)) = Some (Inr ([(7, 80), (7, 80), (0, 0)], 2))"
  by code_simp

theorem stats_add_up_witness:
  "\<exists>s es. scan_mode (sim_sys\<lparr>sy_file := True\<rparr>) (small_options\<lparr>stats_every := 2\<rparr>) one_target (replicate 12 any_entry) 5 5
      (scan_start sim_start) = Some (Inr s) \<and> sc_queue s = [(7, 80), (7, 80), (0, 0)] \<and>
    sc_calls s = entries_calls True es \<and> sum_list (map new_results es) = 2 \<and> sum_list (map new_events es) = 2"
proof -
  obtain s where s: "scan_mode (sim_sys\<lparr>sy_file := True\<rparr>) (small_options\<lparr>stats_every := 2\<rparr>) one_target
      (replicate 12 any_entry) 5 5 (scan_start sim_start) = Some (Inr s)"
    "sc_queue s = [(7, 80), (7, 80), (0, 0)]" "event_count s = 2"
    using map_outcome[OF sim_scan_mode] by auto
  from stats_add_up[OF s(1)] s show ?thesis by auto
qed

end
