(* ===== verification/Report.thy ===== *)
theory Report
  imports Stats
begin

text \<open>
  \<^verbatim>\<open>cba_reader_cscan.py\<close>, which reads a result file and prints the scanner's statistics and the results of
  the module \<open>print\<close>, and what it shows of a scan: the path from the scanner through the result file and
  the reader to the report. A time stamp stays the number it is; events and failed canaries, which are only
  printed, are left out.
\<close>

section \<open>The script\<close>

text \<open>\<open>handle_cscan_entry\<close> loops over the events of an entry; an index behind the end raises. The rows it
  prints come first, then what it keeps of them.\<close>

type_synonym stat = "cba_val \<times> cba_val \<times> cba_val"

fun cscan_stats :: "cba_event list \<Rightarrow> stat list option" where
  "cscan_stats [] = Some []"
| "cscan_stats ((k, code, val) # evs) =
     (if code = STAT_TIME
      then (case evs of
          e1 # e2 # evs \<Rightarrow> map_option ((#) (val, snd (snd e1), snd (snd e2))) (cscan_stats evs)
        | _ \<Rightarrow> None)
      else cscan_stats evs)"

text \<open>A number, for Python, is also the value of a bit. To compare another value with a number raises.\<close>

fun num_of :: "cba_val \<Rightarrow> int option" where
  "num_of (V_int i) = Some i"
| "num_of V_true = Some 1"
| "num_of _ = None"

fun cscan_extremes :: "stat list \<Rightarrow> int \<Rightarrow> stat option \<Rightarrow> int \<Rightarrow> stat option \<Rightarrow> (stat option \<times> stat option) option" where
  "cscan_extremes [] min_events min_stat max_events max_stat = Some (min_stat, max_stat)"
| "cscan_extremes (stat # rows) min_events min_stat max_events max_stat = do {
     n \<leftarrow> num_of (fst (snd stat));
     _ \<leftarrow> num_of (snd (snd stat));
     let (min_events, min_stat) = (if min_stat = None \<or> n < min_events then (n, Some stat) else (min_events, min_stat));
     let (max_events, max_stat) = (if max_events < n then (n, Some stat) else (max_events, max_stat));
     cscan_extremes rows min_events min_stat max_events max_stat
   }"

text \<open>The two lines behind the loop: \<open>stat_to_string\<close> raises on \<open>None\<close>.\<close>

definition handle_cscan_entry :: "entry \<Rightarrow> (stat list \<times> stat \<times> stat) option" where
  "handle_cscan_entry e = do {
     rows \<leftarrow> cscan_stats (snd e);
     (min_stat, max_stat) \<leftarrow> cscan_extremes rows 0 None 0 None;
     min_stat \<leftarrow> min_stat;
     max_stat \<leftarrow> max_stat;
     Some (rows, min_stat, max_stat)
   }"

text \<open>
  \<open>entries\<close> of \<^verbatim>\<open>cba_reader.py\<close> with what it keeps: the states of the threads stay in the object. At the end
  of the file the next call goes back to the first byte, which is the byte order, and reads on from there.
\<close>

definition module_cfg :: "byte list \<Rightarrow> rd_cfg" where
  "module_cfg m = \<lparr>rc_filter = Some m, rc_extract = (\<lambda>_. False), rc_open = (\<lambda>_. True)\<rparr>"

definition entries_from :: "byte list \<Rightarrow> cba_reader \<Rightarrow> byte list \<Rightarrow> (entry list \<times> cba_reader) option" where
  "entries_from m r bs =
     map_option (\<lambda>(r, es). (es @ read_final (module_cfg m) r, r)) (read_packets (module_cfg m) r bs)"

text \<open>\<open>entry.dict[0]\<close>: the last value with the code \<open>0\<close>.\<close>

definition entry_value :: "entry \<Rightarrow> cba_val option" where
  "entry_value e = map_of (rev (map snd (snd e))) 0"

definition all_somes :: "'a option list \<Rightarrow> 'a list option" where
  "all_somes xs = (if None \<in> set xs then None else Some (map the xs))"

text \<open>The script with its switches for statistics and results.\<close>

definition cscan_report ::
  "bool \<Rightarrow> bool \<Rightarrow> byte list \<Rightarrow> ((stat list \<times> stat \<times> stat) list \<times> cba_val list) option" where
  "cscan_report stats results bs = do {
     (st, r, rest) \<leftarrow> (if stats then do {
         (es, r) \<leftarrow> entries_from (ascii ''cscan'') rd_init (drop 1 bs);
         st \<leftarrow> all_somes (map handle_cscan_entry es);
         Some (st, r, bs)
       } else Some ([], rd_init, drop 1 bs));
     rs \<leftarrow> (if results then do {
         (es, r) \<leftarrow> entries_from [] r rest;
         all_somes (map entry_value es)
       } else Some []);
     Some (st, rs)
   }"

section \<open>One thread of a file\<close>

text \<open>What the packets of one thread depend on are its own calls, and what is read of it its own packets.\<close>

fun spec_calls :: "cba_call list \<Rightarrow> writer \<Rightarrow> packet list" where
  "spec_calls [] w = []"
| "spec_calls (c # cs) w = (case spec_call c w of (w, ps) \<Rightarrow> ps @ spec_calls cs w)"

definition of_thread :: "byte \<Rightarrow> (byte \<times> 'a) list \<Rightarrow> 'a list" where
  "of_thread tid xs = map snd (filter (\<lambda>x. fst x = tid) xs)"

lemma of_thread_simps [simp]:
  "of_thread tid [] = []" "of_thread tid ((u, x) # xs) = (if u = tid then [x] else []) @ of_thread tid xs"
  "of_thread tid (xs @ ys) = of_thread tid xs @ of_thread tid ys"
  "of_thread tid (map (Pair u) zs) = (if u = tid then zs else [])"
  by (simp_all add: of_thread_def filter_map comp_def)

lemma spec_run_thread: "of_thread tid (spec_run cs ws) = spec_calls (of_thread tid cs) (ws tid)"
proof (induction cs arbitrary: ws)
  case (Cons x cs)
  obtain u call where x: "x = (u, call)" by (cases x)
  obtain w ps where "spec_call call (ws u) = (w, ps)" by (cases "spec_call call (ws u)")
  with x Cons show ?case by auto
qed simp

fun thread_step :: "rd_cfg \<Rightarrow> packet \<Rightarrow> thread_state \<Rightarrow> thread_state \<times> entry list" where
  "thread_step c (code, body) ts =
     (case apply_body c code body
         (if ptype body = CBA_HEAD then ts else ts\<lparr>ts_cur_code := code, ts_cur_type := ptype body\<rparr>) of
        (ts, es, fs) \<Rightarrow> (ts, es))"

fun thread_run :: "rd_cfg \<Rightarrow> packet list \<Rightarrow> thread_state \<Rightarrow> thread_state \<times> entry list" where
  "thread_run c [] ts = (ts, [])"
| "thread_run c (p # ps) ts =
     (case thread_step c p ts of (ts, es) \<Rightarrow> case thread_run c ps ts of (ts, es') \<Rightarrow> (ts, es @ es'))"

lemma apply_packet_thread:
  "apply_packet c u p r = (r', es) \<Longrightarrow>
    ts_of r' tid = (if u = tid then fst (thread_step c p (ts_of r tid)) else ts_of r tid) \<and>
    es = snd (thread_step c p (ts_of r u))"
  by (cases p) (auto simp: apply_packet_def Let_def split: prod.splits)

lemma apply_packets_thread:
  "ts_of (fst (apply_packets c ps r)) tid = fst (thread_run c (of_thread tid ps) (ts_of r tid))"
proof (induction ps arbitrary: r)
  case (Cons x ps)
  obtain u p where x: "x = (u, p)" by (cases x)
  obtain r' es where a: "apply_packet c u p r = (r', es)" by (cases "apply_packet c u p r")
  note t = apply_packet_thread[OF a, of tid]
  show ?case using Cons.IH[of r'] t by (auto simp: x a split: prod.splits)
qed simp

lemma read_final_thread:
  assumes "ts_events (ts_of r tid) \<noteq> []" "rc_filter c = None \<or> rc_filter c = Some (ts_module (ts_of r tid))"
  shows "(ts_module (ts_of r tid), ts_events (ts_of r tid)) \<in> set (read_final c r)"
proof -
  have "map_of (rd_states r) tid = Some (ts_of r tid)"
    using assms(1) by (auto simp: ts_of_def ts_reset_def split: option.splits)
  then have "(tid, ts_of r tid) \<in> set (rd_states r)" by (rule map_of_SomeD)
  with assms show ?thesis by (force simp: read_final_def rd_result_def)
qed

section \<open>The scanner's own entries\<close>

fun entry_packets :: "log_entry \<Rightarrow> packet list" where
  "entry_packets (Counts t ne nr) = [(STAT_TIME, P_int64 t), (0, P_int32 (to_u32 ne)), (0, P_int32 (to_u32 nr))]"
| "entry_packets (Canary got_reply) = [(if got_reply then CANARY_FAIL_RESPONSE else CANARY_FAIL, P_bit)]"
| "entry_packets (Event msg) = [(EVENT, P_str (ascii msg))]"

fun entry_events :: "log_entry \<Rightarrow> cba_event list" where
  "entry_events (Counts t ne nr) = [(CBA_INT64, STAT_TIME, V_int (sint t)),
     (CBA_INT32, 0, V_int (to_int32 (to_u32 ne))), (CBA_INT32, 0, V_int (to_int32 (to_u32 nr)))]"
| "entry_events (Canary got_reply) = [(CBA_BIT, if got_reply then CANARY_FAIL_RESPONSE else CANARY_FAIL, V_true)]"
| "entry_events (Event msg) = [(CBA_STR, EVENT, V_text (ascii msg))]"

lemma spec_entry: "spec_calls (entry_calls True e @ cs) (0, []) = entry_packets e @ spec_calls cs (0, [])"
  by (cases e) (simp_all add: log_stats_def log_canary_fail_def log_event_def)

lemma spec_log: "spec_calls (entries_calls True es) (0, []) = concat (map entry_packets es)"
  by (induction es) (simp_all add: entries_calls_def spec_entry)

definition main_calls :: "int \<Rightarrow> cba_call list \<Rightarrow> cba_call list" where
  "main_calls n cs = C_head (ascii ''cscan'') # log_stats_every True n @ cs"

lemma spec_main:
  "spec_calls (main_calls n (entries_calls True es)) (0, [])
    = (0, P_head (ascii ''cscan'')) # (STATS_EVERY, P_int32 (to_u32 n)) # concat (map entry_packets es)"
  by (simp add: main_calls_def log_stats_every_def spec_log)

lemma thread_run_append:
  "thread_run c (ps @ qs) ts = (case thread_run c ps ts of (ts, es) \<Rightarrow>
     case thread_run c qs ts of (ts, es') \<Rightarrow> (ts, es @ es'))"
  by (induction ps arbitrary: ts) (auto split: prod.splits)

lemma run_entry:
  "\<exists>ts'. thread_run c (entry_packets e) ts = (ts', []) \<and> ts_module ts' = ts_module ts \<and>
    ts_events ts' = ts_events ts @ entry_events e"
  by (cases e) (simp_all add: add_event_def to_int32_def CBA_HEAD_def CBA_INT32_def CBA_INT64_def CBA_BIT_def
      CBA_STR_def)

lemma run_entries:
  "\<exists>ts'. thread_run c (concat (map entry_packets es)) ts = (ts', []) \<and> ts_module ts' = ts_module ts \<and>
    ts_events ts' = ts_events ts @ concat (map entry_events es)"
proof (induction es arbitrary: ts)
  case (Cons e es)
  obtain ts1 where "thread_run c (entry_packets e) ts = (ts1, [])" "ts_module ts1 = ts_module ts"
    "ts_events ts1 = ts_events ts @ entry_events e" using run_entry by blast
  moreover obtain ts2 where "thread_run c (concat (map entry_packets es)) ts1 = (ts2, [])" "ts_module ts2 = ts_module ts1"
    "ts_events ts2 = ts_events ts1 @ concat (map entry_events es)" using Cons.IH by blast
  ultimately show ?case by (simp add: thread_run_append)
qed simp

lemma run_main:
  "\<exists>ts'. thread_run c (spec_calls (main_calls n (entries_calls True es)) (0, [])) ts_reset = (ts', []) \<and>
    ts_module ts' = ascii ''cscan'' \<and>
    ts_events ts' = (CBA_INT32, STATS_EVERY, V_int (to_int32 (to_u32 n))) # concat (map entry_events es)"
proof -
  let ?ts = "add_event CBA_INT32 STATS_EVERY (V_int (to_int32 (to_u32 n)))
    (ts_reset\<lparr>ts_module := ascii ''cscan'', ts_cur_code := STATS_EVERY, ts_cur_type := CBA_INT32\<rparr>)"
  have "thread_run c [(0, P_head (ascii ''cscan'')), (STATS_EVERY, P_int32 (to_u32 n))] ts_reset = (?ts, [])"
    by (simp add: rd_result_def ts_reset_def to_int32_def CBA_HEAD_def CBA_INT32_def)
  moreover obtain ts' where "thread_run c (concat (map entry_packets es)) ?ts = (ts', [])"
    "ts_module ts' = ts_module ?ts" "ts_events ts' = ts_events ?ts @ concat (map entry_events es)"
    using run_entries by blast
  ultimately show ?thesis
    using thread_run_append[of c "[(0, P_head (ascii ''cscan'')), (STATS_EVERY, P_int32 (to_u32 n))]"
        "concat (map entry_packets es)" ts_reset]
    by (simp add: spec_main add_event_def ts_reset_def del: thread_run.simps)
qed

text \<open>The script gets the statistics back.\<close>

fun stat_row :: "log_entry \<Rightarrow> stat list" where
  "stat_row (Counts t ne nr) = [(V_int (sint t), V_int ne, V_int nr)]"
| "stat_row _ = []"

lemma log_codes:
  "STATS_EVERY \<noteq> STAT_TIME" "EVENT \<noteq> STAT_TIME" "CANARY_FAIL \<noteq> STAT_TIME" "CANARY_FAIL_RESPONSE \<noteq> STAT_TIME"
  by (simp_all add: STATS_EVERY_def STAT_TIME_def EVENT_def CANARY_FAIL_def CANARY_FAIL_RESPONSE_def)

lemma stats_of_events:
  "\<forall>e \<in> set es. entry_ok e \<Longrightarrow> cscan_stats (concat (map entry_events es)) = Some (concat (map stat_row es))"
proof (induction es)
  case (Cons e es)
  then show ?case by (cases e) (simp_all add: log_codes to_int32_to_u32)
qed simp

section \<open>The pass over the statistics\<close>

abbreviation (input) cscan_name :: "byte list" where
  "cscan_name \<equiv> ascii ''cscan''"

text \<open>No thread but the first is in the middle of an entry of the module \<open>cscan\<close>.\<close>

definition one_cscan :: "cba_reader \<Rightarrow> bool" where
  "one_cscan r \<longleftrightarrow> distinct (map fst (rd_states r)) \<and> (\<forall>u. u \<noteq> 0 \<longrightarrow> ts_module (ts_of r u) \<noteq> cscan_name)"

lemma spec_calls_heads:
  "(code, P_head m) \<in> set (spec_calls cs w) \<Longrightarrow> C_head m \<in> set cs \<or> (code, P_head m) \<in> set (snd w)"
proof (induction cs arbitrary: w)
  case (Cons c cs)
  obtain w' ps where s: "spec_call c w = (w', ps)" by (cases "spec_call c w")
  let ?p = "(code, P_head m)"
  have h: "?p \<in> set ps \<or> ?p \<in> set (snd w') \<Longrightarrow> ?p \<in> set (snd w) \<or> c = C_head m"
    using s by (cases c; cases w) (auto split: if_splits)
  have "?p \<in> set ps \<or> ?p \<in> set (spec_calls cs w')" using Cons.prems s by simp
  then have "?p \<in> set ps \<or> C_head m \<in> set cs \<or> ?p \<in> set (snd w')" using Cons.IH by blast
  with h show ?case by (metis list.set_intros)
qed simp

lemma thread_step_module:
  "snd p \<noteq> P_head m \<Longrightarrow> ts_module ts \<noteq> m \<Longrightarrow> m \<noteq> [] \<Longrightarrow> ts_module (fst (thread_step c p ts)) \<noteq> m"
  by (cases p; cases "snd p") (auto simp: add_event_def ts_reset_def Let_def split: prod.splits)

lemma thread_step_quiet: "ts_module ts \<noteq> m \<Longrightarrow> snd (thread_step (module_cfg m) p ts) = []"
  by (cases p; cases "snd p") (auto simp: rd_result_def module_cfg_def Let_def split: prod.splits)

lemma apply_packet_keys:
  "distinct (map fst (rd_states r)) \<Longrightarrow> apply_packet c u p r = (r', es) \<Longrightarrow> distinct (map fst (rd_states r'))"
  by (auto simp: apply_packet_def Let_def set_ts_def distinct_update split: prod.splits)

lemma pass_cscan:
  assumes "one_cscan r" "\<forall>(u, p) \<in> set ps. u \<noteq> 0 \<longrightarrow> snd p \<noteq> P_head cscan_name"
    and "snd (thread_run (module_cfg cscan_name) (of_thread 0 ps) (ts_of r 0)) = []"
  shows "one_cscan (fst (apply_packets (module_cfg cscan_name) ps r)) \<and>
    snd (apply_packets (module_cfg cscan_name) ps r) = []"
  using assms
proof (induction ps arbitrary: r)
  case (Cons x ps)
  let ?c = "module_cfg cscan_name"
  obtain u p where x: "x = (u, p)" by (cases x)
  obtain r' es where a: "apply_packet ?c u p r = (r', es)" by (cases "apply_packet ?c u p r")
  note t = apply_packet_thread[OF a]
  have ne: "cscan_name \<noteq> []" by (simp add: ascii_def)
  have "ts_module (ts_of r' v) \<noteq> cscan_name" if "v \<noteq> 0" for v
    using t[of v] Cons.prems(1,2) that thread_step_module[OF _ _ ne] by (auto simp: x one_cscan_def)
  then have one: "one_cscan r'"
    using apply_packet_keys[OF _ a] Cons.prems(1) by (simp add: one_cscan_def)
  have e: "es = [] \<and> snd (thread_run ?c (of_thread 0 ps) (ts_of r' 0)) = []"
  proof (cases "u = 0")
    case True
    with Cons.prems(3) t[of 0] show ?thesis by (auto simp: x split: prod.splits)
  next
    case False
    with Cons.prems(1,3) t[of 0] show ?thesis by (simp add: x one_cscan_def thread_step_quiet)
  qed
  have "one_cscan (fst (apply_packets ?c ps r')) \<and> snd (apply_packets ?c ps r') = []"
    using Cons.IH[OF one] Cons.prems(2) e by simp
  with e show ?case by (auto simp: x a split: prod.splits)
qed simp

lemma final_one:
  assumes "distinct (map fst st)" "\<forall>(u, ts) \<in> set st. u \<noteq> tid \<longrightarrow> rd_result c ts = []"
  shows "concat (map (\<lambda>(u, ts). rd_result c ts) st)
    = (case map_of st tid of None \<Rightarrow> [] | Some ts \<Rightarrow> rd_result c ts)"
  using assms
proof (induction st)
  case (Cons x st)
  obtain u ts where x: "x = (u, ts)" by (cases x)
  show ?case
  proof (cases "u = tid")
    case True
    then have "map_of st tid = None" using Cons.prems(1) by (simp add: x map_of_eq_None_iff)
    with Cons True show ?thesis by (simp add: x)
  qed (use Cons in \<open>simp add: x\<close>)
qed simp

lemma read_final_cscan:
  assumes "one_cscan r"
  shows "read_final (module_cfg cscan_name) r = rd_result (module_cfg cscan_name) (ts_of r 0)"
proof -
  have "rd_result (module_cfg cscan_name) ts = []" if "(u, ts) \<in> set (rd_states r)" "u \<noteq> 0" for u ts
  proof -
    have "map_of (rd_states r) u = Some ts" using assms that(1) by (simp add: one_cscan_def)
    then have "ts_of r u = ts" by (simp add: ts_of_def)
    with assms that(2) show ?thesis by (auto simp: one_cscan_def rd_result_def module_cfg_def)
  qed
  then have "read_final (module_cfg cscan_name) r
      = (case map_of (rd_states r) 0 of None \<Rightarrow> [] | Some ts \<Rightarrow> rd_result (module_cfg cscan_name) ts)"
    using assms unfolding read_final_def by (intro final_one) (auto simp: one_cscan_def)
  moreover have "rd_result c ts_reset = []" for c by (simp add: rd_result_def ts_reset_def)
  ultimately show ?thesis by (simp add: ts_of_def split: option.split)
qed

section \<open>From the scan to the report\<close>

fun count_row :: "log_entry \<Rightarrow> (int \<times> int \<times> int) list" where
  "count_row (Counts t ne nr) = [(sint t, ne, nr)]"
| "count_row _ = []"

abbreviation (input) row_val :: "int \<times> int \<times> int \<Rightarrow> stat" where
  "row_val x \<equiv> (V_int (fst x), V_int (fst (snd x)), V_int (snd (snd x)))"

lemma rows_of_entries:
  fixes es :: "log_entry list"
  defines "rows \<equiv> concat (map count_row es)"
  shows "concat (map stat_row es) = map (\<lambda>x. row_val x) rows"
    "sum_list (map (\<lambda>x. fst (snd x)) rows) = sum_list (map new_events es)"
    "sum_list (map (\<lambda>x. snd (snd x)) rows) = sum_list (map new_results es)"
  unfolding rows_def by (induction es; simp; rename_tac e es; case_tac e; simp)+

text \<open>The extremes: the first row with the fewest events, and the first with the most, if it has any.\<close>

fun row_extremes :: "(int \<times> int \<times> int) list \<Rightarrow> (int \<times> int \<times> int) option \<Rightarrow> (int \<times> int \<times> int) option \<Rightarrow>
  (int \<times> int \<times> int) option \<times> (int \<times> int \<times> int) option" where
  "row_extremes [] mn mx = (mn, mx)"
| "row_extremes (x # rows) mn mx = row_extremes rows
     (if \<forall>y \<in> set_option mn. fst (snd x) < fst (snd y) then Some x else mn)
     (if 0 < fst (snd x) \<and> (\<forall>y \<in> set_option mx. fst (snd y) < fst (snd x)) then Some x else mx)"

abbreviation (input) events_of :: "(int \<times> int \<times> int) option \<Rightarrow> int" where
  "events_of m \<equiv> (case m of None \<Rightarrow> 0 | Some x \<Rightarrow> fst (snd x))"

lemma cscan_extremes_rows:
  "(\<forall>y \<in> set_option mx. 0 < fst (snd y)) \<Longrightarrow>
    cscan_extremes (map (\<lambda>x. row_val x) rows) (events_of mn) (map_option (\<lambda>x. row_val x) mn) (events_of mx)
      (map_option (\<lambda>x. row_val x) mx)
    = Some (map_prod (map_option (\<lambda>x. row_val x)) (map_option (\<lambda>x. row_val x)) (row_extremes rows mn mx))"
proof (induction rows arbitrary: mn mx)
  case (Cons x rows)
  let ?mn = "if \<forall>y \<in> set_option mn. fst (snd x) < fst (snd y) then Some x else mn"
  let ?mx = "if 0 < fst (snd x) \<and> (\<forall>y \<in> set_option mx. fst (snd y) < fst (snd x)) then Some x else mx"
  have "\<forall>y \<in> set_option ?mx. 0 < fst (snd y)" using Cons.prems by auto
  from Cons.IH[OF this, of ?mn] Cons.prems show ?case
    by (cases mn; cases mx) (auto split: if_splits)
qed simp

lemma row_least:
  "rows \<noteq> [] \<or> mn \<noteq> None \<Longrightarrow> \<exists>x. fst (row_extremes rows mn mx) = Some x \<and> x \<in> set rows \<union> set_option mn \<and>
    (\<forall>y \<in> set rows \<union> set_option mn. fst (snd x) \<le> fst (snd y))"
proof (induction rows arbitrary: mn mx)
  case (Cons x rows)
  let ?mn = "if \<forall>y \<in> set_option mn. fst (snd x) < fst (snd y) then Some x else mn"
  have "?mn \<noteq> None" by (cases mn; cases x) auto
  from Cons.IH[OF disjI2[OF this]] obtain z where
    z: "fst (row_extremes (x # rows) mn mx) = Some z" "z \<in> set rows \<union> set_option ?mn"
      "\<forall>y \<in> set rows \<union> set_option ?mn. fst (snd z) \<le> fst (snd y)"
    unfolding row_extremes.simps by blast
  show ?case by (rule exI[of _ z]) (use z in \<open>cases mn; fastforce split: if_splits\<close>)
qed auto

lemma row_greatest:
  "\<forall>y \<in> set_option mx. 0 < fst (snd y) \<Longrightarrow> if \<exists>y \<in> set rows \<union> set_option mx. 0 < fst (snd y)
    then \<exists>x. snd (row_extremes rows mn mx) = Some x \<and> x \<in> set rows \<union> set_option mx \<and>
      (\<forall>y \<in> set rows \<union> set_option mx. fst (snd y) \<le> fst (snd x))
    else snd (row_extremes rows mn mx) = None"
proof (induction rows arbitrary: mn mx)
  case (Cons x rows)
  let ?mx = "if 0 < fst (snd x) \<and> (\<forall>y \<in> set_option mx. fst (snd y) < fst (snd x)) then Some x else mx"
  have "\<forall>y \<in> set_option ?mx. 0 < fst (snd y)" using Cons.prems by auto
  note ih = Cons.IH[OF this, of "if \<forall>y \<in> set_option mn. fst (snd x) < fst (snd y) then Some x else mn"]
  have some: "(\<exists>y \<in> set rows \<union> set_option ?mx. 0 < fst (snd y))
      \<longleftrightarrow> (\<exists>y \<in> set (x # rows) \<union> set_option mx. 0 < fst (snd y))"
    using Cons.prems by (cases mx) auto
  show ?case
  proof (cases "\<exists>y \<in> set (x # rows) \<union> set_option mx. 0 < fst (snd y)")
    case True
    with ih some obtain z where z: "snd (row_extremes (x # rows) mn mx) = Some z" "z \<in> set rows \<union> set_option ?mx"
      "\<forall>y \<in> set rows \<union> set_option ?mx. fst (snd y) \<le> fst (snd z)" by auto
    have p: "0 < fst (snd z)" using True some z(3) by (meson less_le_trans)
    have "z \<in> set (x # rows) \<union> set_option mx" using z(2) by (auto split: if_splits)
    moreover have "\<forall>y \<in> set (x # rows) \<union> set_option mx. fst (snd y) \<le> fst (snd z)"
      using z(3) p by (cases mx) (fastforce split: if_splits)+
    ultimately show ?thesis using True z(1) by auto
  next
    case False
    with ih some show ?thesis by auto
  qed
next
  case Nil
  then show ?case by (cases mx) auto
qed

lemma report_rows:
  fixes es :: "log_entry list" and n :: int
  assumes "\<forall>e \<in> set es. entry_ok e"
  defines "rows \<equiv> concat (map count_row es)"
    and "entry \<equiv> (cscan_name, (CBA_INT32, STATS_EVERY, V_int n) # concat (map entry_events es))"
  shows "if \<exists>x \<in> set rows. 0 < fst (snd x)
    then \<exists>mn \<in> set rows. \<exists>mx \<in> set rows.
      handle_cscan_entry entry = Some (map (\<lambda>x. row_val x) rows, row_val mn, row_val mx) \<and>
      (\<forall>x \<in> set rows. fst (snd mn) \<le> fst (snd x) \<and> fst (snd x) \<le> fst (snd mx))
    else handle_cscan_entry entry = None"
proof -
  have st: "cscan_stats (snd entry) = Some (map (\<lambda>x. row_val x) rows)"
    using stats_of_events[OF assms(1)] rows_of_entries(1)[of es] by (simp add: rows_def entry_def log_codes)
  obtain mn mx where m: "row_extremes rows None None = (mn, mx)" by fastforce
  have ex: "cscan_extremes (map (\<lambda>x. row_val x) rows) 0 None 0 None
      = Some (map_option (\<lambda>x. row_val x) mn, map_option (\<lambda>x. row_val x) mx)"
    using cscan_extremes_rows[of None rows None] m by simp
  note g = row_greatest[of None rows None, unfolded m snd_conv, simplified]
  show ?thesis
  proof (cases "\<exists>x \<in> set rows. 0 < fst (snd x)")
    case True
    then have "rows \<noteq> []" by auto
    from row_least[OF disjI1[OF this], of None None, unfolded m fst_conv] obtain x where "mn = Some x" "x \<in> set rows"
      "\<forall>y \<in> set rows. fst (snd x) \<le> fst (snd y)" by auto
    moreover obtain y where "mx = Some y" "y \<in> set rows" "\<forall>x \<in> set rows. fst (snd x) \<le> fst (snd y)"
      using g True by auto
    ultimately show ?thesis using True by (auto simp: handle_cscan_entry_def st ex)
  next
    case False
    with g have "mx = None" by simp
    with False show ?thesis by (cases mn) (auto simp: handle_cscan_entry_def st ex)
  qed
qed

lemma file_packets:
  assumes "calls_ok cs (\<lambda>_. (0, []))" "\<forall>(tid, p) \<in> set (spec_run cs (\<lambda>_. (0, []))). extractable c p"
  obtains ts where "cba_run cs cba_thread_init = Some (ts, enc_file (spec_run cs (\<lambda>_. (0, []))))"
    "read_packets c rd_init (enc_file (spec_run cs (\<lambda>_. (0, [])))) = Some (apply_packets c (spec_run cs (\<lambda>_. (0, []))) rd_init)"
proof -
  let ?ps = "spec_run cs (\<lambda>_. (0, []))"
  have "\<forall>(tid, p) \<in> set ?ps. body_ok (snd p)" by (rule spec_run_body_ok[OF assms(1)]) simp
  then have "read_packets c rd_init (enc_file ?ps) = Some (apply_packets c ?ps rd_init)"
    using assms(2) by (intro read_packets_spec[OF rd_init_idle]) auto
  moreover obtain ts where "cba_run cs cba_thread_init = Some (ts, enc_file ?ps)"
    using cba_run_spec[OF _ assms(1), of cba_thread_init] wr_rel_init by blast
  ultimately show thesis using that by blast
qed

lemma no_other_head:
  assumes "\<forall>u. u \<noteq> 0 \<longrightarrow> C_head m \<notin> set (of_thread u cs)"
  shows "\<forall>(u, q) \<in> set (spec_run cs (\<lambda>_. (0, []))). u \<noteq> 0 \<longrightarrow> snd q \<noteq> P_head m"
proof (intro ballI, unfold split_beta, intro impI notI)
  fix x assume x: "x \<in> set (spec_run cs (\<lambda>_. (0, [])))" "fst x \<noteq> 0" "snd (snd x) = P_head m"
  have "snd x \<in> set (of_thread (fst x) (spec_run cs (\<lambda>_. (0, []))))" using x(1) by (force simp: of_thread_def)
  then have "(fst (snd x), P_head m) \<in> set (spec_calls (of_thread (fst x) cs) (0, []))"
    using spec_run_thread[of "fst x" cs "\<lambda>_. (0, [])"] x(3) by (metis prod.collapse)
  from spec_calls_heads[OF this] assms x(2) show False by simp
qed

lemma statistics_pass:
  assumes "of_thread 0 cs = main_calls n (entries_calls True es)"
    and "\<forall>u. u \<noteq> 0 \<longrightarrow> C_head cscan_name \<notin> set (of_thread u cs)"
    and "calls_ok cs (\<lambda>_. (0, []))"
    and "\<forall>(tid, p) \<in> set (spec_run cs (\<lambda>_. (0, []))). extractable (module_cfg cscan_name) p"
  obtains ts r where "cba_run cs cba_thread_init = Some (ts, enc_file (spec_run cs (\<lambda>_. (0, []))))"
    "entries_from cscan_name rd_init (enc_file (spec_run cs (\<lambda>_. (0, [])))) = Some ([(cscan_name,
      (CBA_INT32, STATS_EVERY, V_int (to_int32 (to_u32 n))) # concat (map entry_events es))], r)"
    "r = fst (apply_packets (module_cfg cscan_name) (spec_run cs (\<lambda>_. (0, []))) rd_init)" "one_cscan r"
proof -
  let ?ps = "spec_run cs (\<lambda>_. (0, []))" and ?c = "module_cfg cscan_name"
  obtain ts where ts: "cba_run cs cba_thread_init = Some (ts, enc_file ?ps)"
    "read_packets ?c rd_init (enc_file ?ps) = Some (apply_packets ?c ?ps rd_init)"
    using file_packets[OF assms(3,4)] .
  obtain r es' where r: "apply_packets ?c ?ps rd_init = (r, es')" by (cases "apply_packets ?c ?ps rd_init")
  have th: "of_thread 0 ?ps = spec_calls (main_calls n (entries_calls True es)) (0, [])"
    using spec_run_thread[of 0 cs "\<lambda>_. (0, [])"] assms(1) by simp
  obtain t where t: "thread_run ?c (of_thread 0 ?ps) ts_reset = (t, [])" "ts_module t = cscan_name"
    "ts_events t = (CBA_INT32, STATS_EVERY, V_int (to_int32 (to_u32 n))) # concat (map entry_events es)"
    using run_main unfolding th by blast
  have init: "ts_of rd_init u = ts_reset" for u by (simp add: rd_init_def ts_of_def)
  have "one_cscan rd_init" by (simp add: one_cscan_def init) (simp add: rd_init_def ts_reset_def ascii_def)
  from pass_cscan[OF this no_other_head[OF assms(2)]] t(1) r have one: "one_cscan r" "es' = []" by (simp_all add: init)
  have "ts_of r 0 = t" using apply_packets_thread[of ?c ?ps rd_init 0] t(1) r by (simp add: init)
  then have "entries_from cscan_name rd_init (enc_file ?ps) = Some ([(cscan_name, ts_events t)], r)"
    using ts(2) r one read_final_cscan[OF one(1)] t(2,3) by (simp add: entries_from_def rd_result_def module_cfg_def)
  then show thesis by (intro that[OF ts(1)]) (simp_all add: t(3) r, rule one(1))
qed

text \<open>C9: the statistics are right from end to end. Take any scan that ended, and a result file in which the
  scanner's calls, behind the head \<open>cscan\<close> and \<open>log_stats_every\<close> of \<open>main\<close>, are interleaved in any way with
  those of other threads, none of which claims to be \<open>cscan\<close>, within the limits of the format. Then
  \<^verbatim>\<open>cba_reader_cscan.py -s\<close> prints one series of statistics, whose results sum to the number of results
  the scanner queued and whose events to the events it counted, with the rows of the fewest and the most
  events; unless no row has an event, where the line about the most raises an exception.\<close>

theorem report_adds_up:
  assumes "scan_mode sy p tb mem fuel rounds (scan_start w) = Some (Inr s)" "sy_file sy"
    and "of_thread 0 cs = main_calls n (sc_calls s)"
    and "\<forall>u. u \<noteq> 0 \<longrightarrow> C_head (ascii ''cscan'') \<notin> set (of_thread u cs)"
    and "calls_ok cs (\<lambda>_. (0, []))"
    and "\<forall>(tid, p) \<in> set (spec_run cs (\<lambda>_. (0, []))). extractable (module_cfg (ascii ''cscan'')) p"
  shows "\<exists>ts bs rows rs. cba_run cs cba_thread_init = Some (ts, bs) \<and>
    sc_queue s = rs @ [(0, 0)] \<and> sum_list (map (\<lambda>x. snd (snd x)) rows) = int (length rs) \<and>
    sum_list (map (\<lambda>x. fst (snd x)) rows) = event_count s \<and>
    (if \<exists>x \<in> set rows. 0 < fst (snd x)
     then \<exists>mn \<in> set rows. \<exists>mx \<in> set rows.
       cscan_report True False (cba_open_file 0 @ bs)
         = Some ([(map (\<lambda>x. row_val x) rows, row_val mn, row_val mx)], []) \<and>
       (\<forall>x \<in> set rows. fst (snd mn) \<le> fst (snd x) \<and> fst (snd x) \<le> fst (snd mx))
     else cscan_report True False (cba_open_file 0 @ bs) = None)"
proof -
  let ?ps = "spec_run cs (\<lambda>_. (0, []))"
  obtain es rs where es: "sc_calls s = entries_calls True es" "\<forall>e \<in> set es. entry_ok e" "sc_queue s = rs @ [(0, 0)]"
    "sum_list (map new_results es) = int (length rs)" "sum_list (map new_events es) = event_count s"
    using stats_booked[OF assms(1)] assms(2) by auto
  have th: "of_thread 0 cs = main_calls n (entries_calls True es)" using assms(3) es(1) by simp
  obtain ts r where p: "cba_run cs cba_thread_init = Some (ts, enc_file ?ps)"
    "entries_from cscan_name rd_init (enc_file ?ps) = Some ([(cscan_name,
      (CBA_INT32, STATS_EVERY, V_int (to_int32 (to_u32 n))) # concat (map entry_events es))], r)"
    using statistics_pass[OF th assms(4-6)] .
  let ?rows = "concat (map count_row es)"
  let ?e = "(cscan_name, (CBA_INT32, STATS_EVERY, V_int (to_int32 (to_u32 n))) # concat (map entry_events es))"
  have d: "drop 1 (cba_open_file 0 @ enc_file ?ps) = enc_file ?ps" by (simp add: cba_open_file_def ascii_def)
  have rep: "cscan_report True False (cba_open_file 0 @ enc_file ?ps)
      = map_option (\<lambda>x. ([x], [])) (handle_cscan_entry ?e)"
    by (cases "handle_cscan_entry ?e")
      (simp_all add: cscan_report_def d p(2) all_somes_def del: drop_append One_nat_def)
  have fin: "if \<exists>x \<in> set ?rows. 0 < fst (snd x)
     then \<exists>mn \<in> set ?rows. \<exists>mx \<in> set ?rows. cscan_report True False (cba_open_file 0 @ enc_file ?ps)
         = Some ([(map (\<lambda>x. row_val x) ?rows, row_val mn, row_val mx)], []) \<and>
       (\<forall>x \<in> set ?rows. fst (snd mn) \<le> fst (snd x) \<and> fst (snd x) \<le> fst (snd mx))
     else cscan_report True False (cba_open_file 0 @ enc_file ?ps) = None"
    using report_rows[OF es(2), of "to_int32 (to_u32 n)"] unfolding rep by (auto split: if_splits)
  show ?thesis
    by (rule exI[of _ ts], rule exI[of _ "enc_file ?ps"], rule exI[of _ ?rows], rule exI[of _ rs])
      (intro conjI p(1) es(3) fin, simp_all only: rows_of_entries(2,3) es(4,5))
qed

text \<open>The log of the simulated scan, around which another thread writes a result.\<close>

abbreviation (input) sim_log :: "cba_call list" where
  "sim_log \<equiv> [C_code STAT_TIME, C_int64 0, C_int32 0, C_int32 0, C_code STAT_TIME, C_int64 0, C_int32 1, C_int32 1,
     C_code STAT_TIME, C_int64 0, C_int32 1, C_int32 1]"

abbreviation (input) sim_file :: "(byte \<times> cba_call) list" where
  "sim_file \<equiv> [(1, C_head [])] @ map (Pair 0) (main_calls 2 sim_log) @ [(1, C_str (ascii ''0.0.0.7:80''))]"

lemma sim_log_calls:
  "map_option (map_sum id (\<lambda>s. (sc_queue s, event_count s, sc_calls s)))
     (scan_mode (sim_sys\<lparr>sy_file := True\<rparr>) (small_options\<lparr>stats_every := 2\<rparr>) one_target (replicate 12 any_entry) 5 5
       (scan_start sim_start)) = Some (Inr ([(7, 80), (7, 80), (0, 0)], 2, sim_log))"
  by code_simp

theorem report_adds_up_witness:
  "\<exists>ts bs rows mn mx. cba_run sim_file cba_thread_init = Some (ts, bs) \<and>
    cscan_report True False (cba_open_file 0 @ bs)
      = Some ([(map (\<lambda>x. row_val x) rows, row_val mn, row_val mx)], []) \<and>
    sum_list (map (\<lambda>x. snd (snd x)) rows) = 2 \<and> sum_list (map (\<lambda>x. fst (snd x)) rows) = 2"
proof -
  obtain s where s: "scan_mode (sim_sys\<lparr>sy_file := True\<rparr>) (small_options\<lparr>stats_every := 2\<rparr>) one_target
      (replicate 12 any_entry) 5 5 (scan_start sim_start) = Some (Inr s)"
    "sc_queue s = [(7, 80), (7, 80), (0, 0)]" "event_count s = 2" "sc_calls s = sim_log"
    using map_outcome[OF sim_log_calls] by auto
  have ps: "spec_run sim_file (\<lambda>_. (0, [])) = (0, 0, P_head cscan_name) # (0, STATS_EVERY, P_int32 2) #
      map (Pair 0) [(STAT_TIME, P_int64 0), (0, P_int32 0), (0, P_int32 0), (STAT_TIME, P_int64 0), (0, P_int32 1),
        (0, P_int32 1), (STAT_TIME, P_int64 0), (0, P_int32 1), (0, P_int32 1)] @
      [(1, 0, P_head []), (1, 0, P_str (ascii ''0.0.0.7:80''))]"
    by (simp add: main_calls_def log_stats_every_def to_u32_def)
  have h: "of_thread 0 sim_file = main_calls 2 (sc_calls s)" by (simp add: s(4))
  have k: "\<forall>u. u \<noteq> 0 \<longrightarrow> C_head (ascii ''cscan'') \<notin> set (of_thread u sim_file)" by (simp add: ascii_def)
  have ok: "calls_ok sim_file (\<lambda>_. (0, []))"
    by (simp add: main_calls_def log_stats_every_def CBA_MAXBUFF_def ascii_def)
  have x: "\<forall>(tid, p) \<in> set (spec_run sim_file (\<lambda>_. (0, []))). extractable (module_cfg (ascii ''cscan'')) p"
    unfolding ps by (simp add: extractable_def)
  have f: "sy_file (sim_sys\<lparr>sy_file := True\<rparr>)" by simp
  obtain ts bs rows rs where r: "cba_run sim_file cba_thread_init = Some (ts, bs)"
    "sc_queue s = rs @ [(0, 0)]" "sum_list (map (\<lambda>x. snd (snd x)) rows) = int (length rs)"
    "sum_list (map (\<lambda>x. fst (snd x)) rows) = event_count s"
    and q: "if \<exists>x \<in> set rows. 0 < fst (snd x)
     then \<exists>mn \<in> set rows. \<exists>mx \<in> set rows. cscan_report True False (cba_open_file 0 @ bs)
         = Some ([(map (\<lambda>x. row_val x) rows, row_val mn, row_val mx)], []) \<and>
       (\<forall>x \<in> set rows. fst (snd mn) \<le> fst (snd x) \<and> fst (snd x) \<le> fst (snd mx))
     else cscan_report True False (cba_open_file 0 @ bs) = None"
    using report_adds_up[OF s(1) f h k ok x] by (elim exE conjE) (rule that)
  have "length rs = 2" using arg_cong[OF r(2), of length] s(2) by simp
  with r(3,4) s(3) have two: "sum_list (map (\<lambda>x. snd (snd x)) rows) = 2" "sum_list (map (\<lambda>x. fst (snd x)) rows) = 2"
    by simp_all
  have "\<exists>x \<in> set rows. 0 < fst (snd x)"
  proof (rule ccontr)
    assume "\<not> ?thesis"
    then have "sum_list (map (\<lambda>x. fst (snd x)) rows) \<le> 0" by (intro sum_list_nonpos) (auto simp: not_less)
    with two(2) show False by simp
  qed
  with q obtain mn mx where "cscan_report True False (cba_open_file 0 @ bs)
      = Some ([(map (\<lambda>x. row_val x) rows, row_val mn, row_val mx)], [])" by auto
  with r(1) two show ?thesis by (intro exI conjI)
qed

end
