(* ===== verification/Report_Again.thy ===== *)
theory Report_Again
  imports Report
begin

text \<open>
  \<^verbatim>\<open>cba_reader_cscan.py\<close> without a switch reads the file twice with the same reader: once for the statistics,
  once for the results. The second pass starts at the byte-order mark, which is taken for a thread, and
  with the states the first pass left. The marker and the head of the scanner happen to have an even number of
  bytes in all, so the pass gets back in step; but the last result of the first pass is still there.
\<close>

section \<open>A pass over the results\<close>

definition result_entry :: "byte list \<Rightarrow> entry" where
  "result_entry x = ([], [(CBA_STR, 0, V_text x)])"

definition result_packets :: "byte list list \<Rightarrow> packet list" where
  "result_packets rs = concat (map (\<lambda>x. [(0, P_head []), (0, P_str x)]) rs)"

definition result_calls :: "byte list list \<Rightarrow> cba_call list" where
  "result_calls rs = concat (map (\<lambda>x. [C_head [], C_str x]) rs)"

lemma spec_results: "spec_calls (result_calls rs) (0, []) = result_packets rs"
  by (induction rs) (simp_all add: result_calls_def result_packets_def)

text \<open>Reading a head shows the entry before it, the end of the file the last one.\<close>


lemma run_results:
  assumes "ts_module ts = []" "thread_run (module_cfg []) (result_packets rs) ts = (ts', es)"
  shows "es @ rd_result (module_cfg []) ts' = rd_result (module_cfg []) ts @ map result_entry rs"
  using assms
proof (induction rs arbitrary: ts es)
  case (Cons x rs)
  let ?t = "add_event CBA_STR 0 (V_text x) (ts_reset\<lparr>ts_cur_code := 0, ts_cur_type := CBA_STR\<rparr>)"
  have s: "thread_run (module_cfg []) [(0, P_head []), (0, P_str x)] ts = (?t, rd_result (module_cfg []) ts)"
    using Cons.prems(1) by (simp add: ts_reset_def CBA_HEAD_def CBA_STR_def)
  obtain es' where e: "thread_run (module_cfg []) (result_packets rs) ?t = (ts', es')"
    "es = rd_result (module_cfg []) ts @ es'"
    using Cons.prems(2) s thread_run_append[of "module_cfg []" "[(0, P_head []), (0, P_str x)]" "result_packets rs" ts]
    by (auto simp: result_packets_def split: prod.splits)
  have "ts_module ?t = []" by (simp add: add_event_def ts_reset_def)
  from Cons.IH[OF this e(1)] e(2) show ?case
    by (simp add: rd_result_def module_cfg_def add_event_def ts_reset_def result_entry_def)
qed (simp add: result_packets_def)

lemma apply_packets_emit:
  "\<forall>(u, p) \<in> set ps. u \<noteq> tid \<longrightarrow> ptype (snd p) \<noteq> CBA_HEAD \<Longrightarrow>
    snd (apply_packets c ps r) = snd (thread_run c (of_thread tid ps) (ts_of r tid))"
proof (induction ps arbitrary: r)
  case (Cons x ps)
  obtain u p where x: "x = (u, p)" by (cases x)
  obtain r' es where a: "apply_packet c u p r = (r', es)" by (cases "apply_packet c u p r")
  note t = apply_packet_thread[OF a, of tid]
  have "es = []" if "u \<noteq> tid"
    using t Cons.prems that by (cases p; cases "snd p") (auto simp: x Let_def split: prod.splits)
  with Cons.IH[of r'] Cons.prems t show ?case by (auto simp: x a split: prod.splits)
qed simp

lemma run_no_head:
  "\<forall>p \<in> set ps. ptype (snd p) \<noteq> CBA_HEAD \<Longrightarrow> ts_module (fst (thread_run c ps ts)) = ts_module ts"
proof (induction ps arbitrary: ts)
  case (Cons p ps)
  have "ts_module (fst (thread_step c p ts)) = ts_module ts"
    using Cons.prems by (cases p; cases "snd p") (auto simp: add_event_def Let_def split: prod.splits)
  with Cons.IH[of "fst (thread_step c p ts)"] Cons.prems show ?case by (simp add: split_beta)
qed simp

lemma apply_packets_keys:
  "distinct (map fst (rd_states r)) \<Longrightarrow> distinct (map fst (rd_states (fst (apply_packets c ps r))))"
proof (induction ps arbitrary: r)
  case (Cons x ps)
  obtain u p where x: "x = (u, p)" by (cases x)
  obtain r' es where a: "apply_packet c u p r = (r', es)" by (cases "apply_packet c u p r")
  from Cons.IH[OF apply_packet_keys[OF Cons.prems a]] show ?case by (auto simp: x a split: prod.splits)
qed simp

lemma of_thread_none: "\<forall>(u, p) \<in> set ps. u \<noteq> tid \<Longrightarrow> of_thread tid ps = []"
  by (auto simp: of_thread_def filter_empty_conv)

lemma of_thread_set: "p \<in> set (of_thread u ps) \<Longrightarrow> (u, p) \<in> set ps"
  by (auto simp: of_thread_def)

text \<open>A pass over the packets behind the first, with a reader that may remember an entry of thread \<open>1\<close>.\<close>

lemma pass_results:
  assumes r: "distinct (map fst (rd_states r))" "ts_module (ts_of r 0) \<noteq> []" "ts_module (ts_of r 1) = []"
      "\<forall>u. u \<noteq> 0 \<and> u \<noteq> 1 \<longrightarrow> ts_events (ts_of r u) = []"
    and ps: "\<forall>(u, p) \<in> set ps. u = 0 \<and> ptype (snd p) \<noteq> CBA_HEAD \<or> u = 1" "of_thread 1 ps = result_packets rs"
    and a: "apply_packets (module_cfg []) ps r = (r', es)"
  shows "es @ read_final (module_cfg []) r' = rd_result (module_cfg []) (ts_of r 1) @ map result_entry rs"
proof -
  let ?c = "module_cfg []"
  obtain ts' es' where t: "thread_run ?c (result_packets rs) (ts_of r 1) = (ts', es')"
    by (cases "thread_run ?c (result_packets rs) (ts_of r 1)")
  have es: "es = es'" using apply_packets_emit[of ps 1 ?c r] ps a t by auto
  have now: "ts_of r' u = fst (thread_run ?c (of_thread u ps) (ts_of r u))" for u
    using apply_packets_thread[of ?c ps r u] a by simp
  have keys: "distinct (map fst (rd_states r'))" using apply_packets_keys[OF r(1), of ?c ps] a by simp
  have "rd_result ?c ts = []" if "(u, ts) \<in> set (rd_states r')" "u \<noteq> 1" for u ts
  proof -
    have "map_of (rd_states r') u = Some ts" using keys that(1) by simp
    then have ts: "ts_of r' u = ts" by (simp add: ts_of_def)
    show ?thesis
    proof (cases "u = 0")
      case True
      have "\<forall>p \<in> set (of_thread 0 ps). ptype (snd p) \<noteq> CBA_HEAD"
        using ps(1) of_thread_set[of _ 0 ps] by fastforce
      then have "ts_module ts = ts_module (ts_of r 0)" 
        using run_no_head[of "of_thread 0 ps" ?c "ts_of r 0"] now[of 0] ts True by argo
      with r(2) show ?thesis by (simp add: rd_result_def module_cfg_def)
    next
      case False
      with that(2) ps(1) have "of_thread u ps = []" by (intro of_thread_none) auto
      with now[of u] ts r(4) False that(2) show ?thesis by (simp add: rd_result_def)
    qed
  qed
  then have "read_final ?c r' = (case map_of (rd_states r') 1 of None \<Rightarrow> [] | Some ts \<Rightarrow> rd_result ?c ts)"
    using keys unfolding read_final_def by (intro final_one) auto
  moreover have "rd_result ?c ts_reset = []" by (simp add: rd_result_def ts_reset_def)
  ultimately have "read_final ?c r' = rd_result ?c (ts_of r' 1)" by (simp add: ts_of_def split: option.split)
  then show ?thesis using run_results[OF r(3) t] now[of 1] ps(2) t es by simp
qed

section \<open>The second start\<close>

text \<open>The byte order and the head of the scanner, read as packets of the threads \<open>0x4C\<close>, \<open>5\<close>, \<open>0x73\<close> and \<open>0x61\<close>,
  none of which the program has.\<close>

definition ghosts :: "byte set" where
  "ghosts = {0x4C, 5, 0x73, 0x61}"

text \<open>A packet of an unknown type, and an empty head, of a thread without an entry.\<close>

definition ghost_at :: "byte \<Rightarrow> cba_reader \<Rightarrow> cba_reader \<Rightarrow> bool" where
  "ghost_at g r r' \<longleftrightarrow> (rd_idle r \<longrightarrow> rd_idle r') \<and>
     (distinct (map fst (rd_states r)) \<longrightarrow> distinct (map fst (rd_states r'))) \<and>
     (\<forall>u. u \<noteq> g \<longrightarrow> ts_of r' u = ts_of r u) \<and> (ts_events (ts_of r g) = [] \<longrightarrow> ts_events (ts_of r' g) = [])"

lemma ghost_set:
  assumes "ts_stream ts = None" "ts_events ts = [] \<or> ts_events ts = ts_events (ts_of r g)"
  shows "ghost_at g r (set_ts g ts r)"
proof -
  have "distinct (map fst (rd_states (set_ts g ts r)))" if "distinct (map fst (rd_states r))"
    using that by (simp add: set_ts_def distinct_update)
  with assms show ?thesis by (auto simp: ghost_at_def rd_idle_def)
qed

lemma read_quiet: "read_packet c r bs = Some (r', [], rest) \<Longrightarrow> read_packets c r bs = read_packets c r' rest"
  by (cases "read_packets c r' rest") (simp_all add: read_packets_step split_beta)

lemma read_unknown:
  assumes "rd_idle r" "b AND 0x80 = 0" "b \<notin> {0, 1, 2, 3, 4, 5, 6}"
  obtains r' where "read_packets c r (g # b # bs) = read_packets c r' bs" "ghost_at g r r'"
proof -
  let ?r = "set_ts g ((ts_of r g)\<lparr>ts_cur_code := 0, ts_cur_type := b\<rparr>) r"
  have s: "ts_stream (ts_of r g) = None" using assms(1) by (simp add: rd_idle_def)
  then have "read_packet c r (g # b # bs) = Some (?r, [], bs)"
    using assms(2,3) by (simp add: read_packet_def read_body_def CBA_HEAD_def CBA_STR_def CBA_DATA_def CBA_BIT_def
        CBA_INT32_def CBA_INT64_def CBA_FILE_def)
  with s show thesis by (intro that[of ?r] read_quiet ghost_set) simp_all
qed

lemma read_empty_head:
  assumes "rd_idle r" "ts_events (ts_of r g) = []"
  obtains r' where "read_packets c r (g # 0 # 0 # bs) = read_packets c r' bs" "ghost_at g r r'"
proof -
  have "ts_stream (ts_of r g) = None" using assms(1) by (simp add: rd_idle_def)
  then have "read_packet c r (g # 0 # 0 # bs) = Some (set_ts g ts_reset r, [], bs)"
    using assms(2) by (simp add: read_packet_def read_body_def CBA_HEAD_def rd_bytes_def decode_ascii_def rd_result_def)
  then show thesis by (intro that[of "set_ts g ts_reset r"] read_quiet ghost_set) (simp_all add: ts_reset_def)
qed

lemma ghost_idle: "ghost_at g r r' \<Longrightarrow> rd_idle r \<Longrightarrow> rd_idle r'"
  by (simp add: ghost_at_def)

lemma read_ghosts:
  assumes "rd_idle r" "\<forall>u \<in> ghosts. ts_events (ts_of r u) = []" "distinct (map fst (rd_states r))"
  obtains r2 where "read_packets c r (ascii ''L'' @ enc_packet 0 (0, P_head cscan_name) @ bs) = read_packets c r2 bs"
    "rd_idle r2" "distinct (map fst (rd_states r2))" "\<forall>u. u \<notin> ghosts \<longrightarrow> ts_of r2 u = ts_of r u"
    "\<forall>u \<in> ghosts. ts_events (ts_of r2 u) = []"
proof -
  have start: "ascii ''L'' @ enc_packet 0 (0, P_head cscan_name) @ bs
      = 0x4C # 0 # 0 # 5 # 0x63 # 0x73 # 0x63 # 0x61 # 0x6E # bs"
    by (simp add: enc_packet_def enc_hdr_def ascii_def CBA_HEAD_def)
  have e: "ts_events (ts_of r 0x4C) = []" using assms(2) by (simp add: ghosts_def)
  obtain ra where a: "read_packets c r (0x4C # 0 # 0 # 5 # 0x63 # 0x73 # 0x63 # 0x61 # 0x6E # bs)
      = read_packets c ra (5 # 0x63 # 0x73 # 0x63 # 0x61 # 0x6E # bs)" "ghost_at 0x4C r ra"
    by (rule read_empty_head[OF assms(1) e])
  note ia = ghost_idle[OF a(2) assms(1)]
  obtain rb where b: "read_packets c ra (5 # 0x63 # 0x73 # 0x63 # 0x61 # 0x6E # bs)
      = read_packets c rb (0x73 # 0x63 # 0x61 # 0x6E # bs)" "ghost_at 5 ra rb"
    by (rule read_unknown[OF ia, of "0x63"]) simp_all
  note ib = ghost_idle[OF b(2) ia]
  obtain rc where d: "read_packets c rb (0x73 # 0x63 # 0x61 # 0x6E # bs) = read_packets c rc (0x61 # 0x6E # bs)"
      "ghost_at 0x73 rb rc"
    by (rule read_unknown[OF ib, of "0x63"]) simp_all
  note ic = ghost_idle[OF d(2) ib]
  obtain rd where e: "read_packets c rc (0x61 # 0x6E # bs) = read_packets c rd bs" "ghost_at 0x61 rc rd"
    by (rule read_unknown[OF ic, of "0x6E"]) simp_all
  show thesis
  proof (rule that[of rd])
    show "read_packets c r (ascii ''L'' @ enc_packet 0 (0, P_head cscan_name) @ bs) = read_packets c rd bs"
      unfolding start using a(1) b(1) d(1) e(1) by simp
    show "rd_idle rd" by (rule ghost_idle[OF e(2) ic])
    show "distinct (map fst (rd_states rd))" using assms(3) a(2) b(2) d(2) e(2) by (simp add: ghost_at_def)
    show "\<forall>u. u \<notin> ghosts \<longrightarrow> ts_of rd u = ts_of r u"
      using a(2) b(2) d(2) e(2) by (simp add: ghost_at_def ghosts_def)
    show "\<forall>u \<in> ghosts. ts_events (ts_of rd u) = []"
      using assms(2) a(2) b(2) d(2) e(2) by (simp add: ghost_at_def ghosts_def)
  qed
qed

section \<open>Both passes\<close>

lemma apply_packets_idle: "rd_idle r \<Longrightarrow> rd_idle (fst (apply_packets c ps r))"
proof (induction ps arbitrary: r)
  case (Cons x ps)
  obtain u p where x: "x = (u, p)" by (cases x)
  obtain r' es where a: "apply_packet c u p r = (r', es)" by (cases "apply_packet c u p r")
  from Cons.IH[OF apply_packet_idle[OF Cons.prems a]] show ?case by (simp add: x a split_beta)
qed simp

lemma run_results_last:
  assumes "rs \<noteq> []"
  shows "ts_module (fst (thread_run c (result_packets rs) ts)) = [] \<and>
    ts_events (fst (thread_run c (result_packets rs) ts)) = [(CBA_STR, 0, V_text (last rs))]"
proof -
  have "result_packets rs = result_packets (butlast rs) @ [(0, P_head []), (0, P_str (last rs))]"
    using arg_cong[OF append_butlast_last_id[OF assms], of result_packets] by (simp add: result_packets_def)
  then show ?thesis
    by (simp add: thread_run_append split_beta add_event_def ts_reset_def CBA_HEAD_def CBA_STR_def)
qed

lemma spec_run_threads: "fst ` set (spec_run cs ws) \<subseteq> fst ` set cs"
proof (induction cs arbitrary: ws)
  case (Cons x cs)
  obtain u call where x: "x = (u, call)" by (cases x)
  obtain w ps where "spec_call call (ws u) = (w, ps)" by (cases "spec_call call (ws u)")
  with Cons[of "ws(u := w)"] x show ?case by (auto simp del: fun_upd_apply)
qed simp

lemma entry_packet_kind: "p \<in> set (entry_packets e) \<Longrightarrow> ptype (snd p) \<noteq> CBA_HEAD \<and> extractable c p"
  by (cases e) (auto simp: extractable_def CBA_INT32_def CBA_INT64_def CBA_BIT_def CBA_STR_def CBA_HEAD_def)

lemma result_packet_kind: "p \<in> set (result_packets rs) \<Longrightarrow> extractable c p"
  by (auto simp: result_packets_def extractable_def split: if_splits)

lemma result_values: "all_somes (map entry_value (map result_entry xs)) = Some (map V_text xs)"
  by (auto simp: all_somes_def entry_value_def result_entry_def comp_def)

text \<open>The file of a scan with one module thread that writes results as \<open>print\<close> does.\<close>

definition scan_file :: "int \<Rightarrow> (byte \<times> cba_call) list \<Rightarrow> (byte \<times> cba_call) list" where
  "scan_file n ds = map (Pair 0) (main_calls n []) @ ds"

lemma spec_scan_file:
  "spec_run (scan_file n ds) (\<lambda>_. (0, [])) = (0, 0, P_head cscan_name) # (0, STATS_EVERY, P_int32 (to_u32 n)) #
    spec_run ds (\<lambda>_. (0, []))"
proof -
  have "(\<lambda>_ :: byte. (0, []))(0 := (0, [])) = (\<lambda>_. (0, []) :: writer)" by (rule ext) simp
  then show ?thesis by (simp add: scan_file_def main_calls_def log_stats_every_def fun_upd_same del: fun_upd_apply)
qed

lemma two_threads:
  assumes "fst ` set ds \<subseteq> {0, 1}" "of_thread 0 ds = entries_calls True es" "of_thread 1 ds = result_calls rs"
  shows "of_thread 0 (spec_run ds (\<lambda>_. (0, []))) = concat (map entry_packets es)"
    "of_thread 1 (spec_run ds (\<lambda>_. (0, []))) = result_packets rs"
    "\<forall>(u, p) \<in> set (spec_run ds (\<lambda>_. (0, []))). (u = 0 \<and> ptype (snd p) \<noteq> CBA_HEAD \<or> u = 1) \<and> extractable c p"
proof -
  let ?qs = "spec_run ds (\<lambda>_. (0, []))"
  show q0: "of_thread 0 ?qs = concat (map entry_packets es)" by (simp add: spec_run_thread assms(2) spec_log)
  show q1: "of_thread 1 ?qs = result_packets rs" by (simp add: spec_run_thread assms(3) spec_results)
  have "(u = 0 \<and> ptype (snd p) \<noteq> CBA_HEAD \<or> u = 1) \<and> extractable c p" if "(u, p) \<in> set ?qs" for u p
  proof -
    have p: "p \<in> set (of_thread u ?qs)" using that by (force simp: of_thread_def)
    have "u \<in> fst ` set ?qs" using that by force
    then have "u = 0 \<or> u = 1" using spec_run_threads[of ds "\<lambda>_. (0, [])"] assms(1) by blast
    then show ?thesis
    proof
      assume "u = 0"
      with p q0 obtain e where "p \<in> set (entry_packets e)" by auto
      with \<open>u = 0\<close> entry_packet_kind show ?thesis by blast
    next
      assume "u = 1"
      with p q1 result_packet_kind show ?thesis by simp
    qed
  qed
  then show "\<forall>(u, p) \<in> set ?qs. (u = 0 \<and> ptype (snd p) \<noteq> CBA_HEAD \<or> u = 1) \<and> extractable c p" by auto
qed

lemma first_results:
  assumes "fst ` set ds \<subseteq> {0, 1}" "of_thread 0 ds = entries_calls True es" "of_thread 1 ds = result_calls rs"
    "calls_ok (scan_file n ds) (\<lambda>_. (0, []))"
  shows "map_option fst (entries_from [] rd_init (enc_file (spec_run (scan_file n ds) (\<lambda>_. (0, [])))))
    = Some (map result_entry rs)"
proof -
  let ?c = "module_cfg []" and ?ps = "spec_run (scan_file n ds) (\<lambda>_. (0, []))"
  let ?qs = "(0, STATS_EVERY, P_int32 (to_u32 n)) # spec_run ds (\<lambda>_. (0, []))"
  note th = two_threads[OF assms(1-3)]
  have ps: "?ps = (0, 0, P_head cscan_name) # ?qs" by (rule spec_scan_file)
  have "\<forall>(tid, p) \<in> set ?ps. body_ok (snd p)" by (rule spec_run_body_ok[OF assms(4)]) simp
  moreover have "\<forall>(u, p) \<in> set ?ps. extractable ?c p" using th(3)[of ?c] by (auto simp: ps extractable_def)
  ultimately have f: "read_packets ?c rd_init (enc_file ?ps) = Some (apply_packets ?c ?ps rd_init)"
    by (intro read_packets_spec[OF rd_init_idle]) auto
  define r1 where "r1 = fst (apply_packet ?c 0 (0, P_head cscan_name) rd_init)"
  have init: "ts_of rd_init u = ts_reset" for u by (simp add: rd_init_def ts_of_def)
  obtain es1 where a: "apply_packet ?c 0 (0, P_head cscan_name) rd_init = (r1, es1)"
    by (cases "apply_packet ?c 0 (0, P_head cscan_name) rd_init") (simp add: r1_def)
  have t: "ts_of r1 0 = ts_reset\<lparr>ts_module := cscan_name\<rparr>" "\<And>u. u \<noteq> 0 \<Longrightarrow> ts_of r1 u = ts_reset" "es1 = []"
    using apply_packet_thread[OF a] by (simp_all add: init rd_result_def ts_reset_def CBA_HEAD_def)
  obtain r' es2 where b: "apply_packets ?c ?qs r1 = (r', es2)" by (cases "apply_packets ?c ?qs r1")
  have "es2 @ read_final ?c r' = rd_result ?c (ts_of r1 1) @ map result_entry rs"
  proof (rule pass_results[OF _ _ _ _ _ _ b])
    show "distinct (map fst (rd_states r1))" by (rule apply_packet_keys[OF _ a]) (simp add: rd_init_def)
    show "\<forall>(u, p) \<in> set ?qs. u = 0 \<and> ptype (snd p) \<noteq> CBA_HEAD \<or> u = 1"
      using th(3) by (auto simp: CBA_HEAD_def CBA_INT32_def)
    show "of_thread 1 ?qs = result_packets rs" using th(2) by simp
  qed (simp_all add: t ts_reset_def ascii_def)
  then have "es2 @ read_final ?c r' = map result_entry rs" by (simp add: t rd_result_def ts_reset_def)
  moreover have "apply_packets ?c ?ps rd_init = (r', es2)"
    unfolding ps apply_packets.simps(2)[of ?c 0 _ ?qs] by (simp only: a b t(3) Let_def prod.case append.simps)
  ultimately show ?thesis by (simp only: entries_from_def f option.map prod.case fst_conv)
qed

lemma second_results:
  assumes "fst ` set ds \<subseteq> {0, 1}" "of_thread 0 ds = entries_calls True es" "of_thread 1 ds = result_calls rs"
    "calls_ok (scan_file n ds) (\<lambda>_. (0, []))" "rs \<noteq> []"
    and r: "r = fst (apply_packets (module_cfg cscan_name) (spec_run (scan_file n ds) (\<lambda>_. (0, []))) rd_init)"
      "one_cscan r" "ts_module (ts_of r 0) = cscan_name"
  shows "map_option fst (entries_from [] r (cba_open_file 0 @ enc_file (spec_run (scan_file n ds) (\<lambda>_. (0, [])))))
    = Some (result_entry (last rs) # map result_entry rs)"
proof -
  let ?c = "module_cfg []" and ?ps = "spec_run (scan_file n ds) (\<lambda>_. (0, []))"
  let ?qs = "(0, STATS_EVERY, P_int32 (to_u32 n)) # spec_run ds (\<lambda>_. (0, []))"
  note th = two_threads[OF assms(1-3)]
  have ps: "?ps = (0, 0, P_head cscan_name) # ?qs" by (rule spec_scan_file)
  have init: "ts_of rd_init u = ts_reset" for u by (simp add: rd_init_def ts_of_def)
  have now: "ts_of r u = fst (thread_run (module_cfg cscan_name) (of_thread u ?ps) ts_reset)" for u
    unfolding r(1) apply_packets_thread init ..
  have one: "ts_module (ts_of r 1) = []" "ts_events (ts_of r 1) = [(CBA_STR, 0, V_text (last rs))]"
    using run_results_last[OF assms(5)] th(2) by (simp_all add: now ps)
  have other: "ts_of r u = ts_reset" if "u \<noteq> 0" "u \<noteq> 1" for u
  proof -
    have "\<forall>(v, p) \<in> set ?ps. v \<noteq> u" using th(3)[of ?c] that by (auto simp: ps)
    from of_thread_none[OF this] show ?thesis by (simp add: now)
  qed
  have idle: "rd_idle r" unfolding r(1) by (rule apply_packets_idle[OF rd_init_idle])
  have keys: "distinct (map fst (rd_states r))" using r(2) by (simp add: one_cscan_def)
  have g: "\<forall>u \<in> ghosts. ts_events (ts_of r u) = []" by (auto simp: ghosts_def other ts_reset_def)
  obtain r2 where r2: "read_packets ?c r (ascii ''L'' @ enc_packet 0 (0, P_head cscan_name) @ enc_file ?qs)
      = read_packets ?c r2 (enc_file ?qs)" "rd_idle r2" "distinct (map fst (rd_states r2))"
    "\<forall>u. u \<notin> ghosts \<longrightarrow> ts_of r2 u = ts_of r u" "\<forall>u \<in> ghosts. ts_events (ts_of r2 u) = []"
    using read_ghosts[OF idle g keys] .
  have "\<forall>(tid, p) \<in> set ?ps. body_ok (snd p)" by (rule spec_run_body_ok[OF assms(4)]) simp
  moreover have "\<forall>(u, p) \<in> set ?qs. extractable ?c p" using th(3)[of ?c] by (auto simp: extractable_def)
  ultimately have f: "read_packets ?c r2 (enc_file ?qs) = Some (apply_packets ?c ?qs r2)"
    by (intro read_packets_spec[OF r2(2)]) (auto simp: ps)
  have same: "ts_of r2 0 = ts_of r 0" "ts_of r2 1 = ts_of r 1" using r2(4) by (simp_all add: ghosts_def)
  have rest: "ts_events (ts_of r2 u) = []" if "u \<noteq> 0" "u \<noteq> 1" for u
    using r2(4,5) other[OF that] by (cases "u \<in> ghosts") (simp_all add: ts_reset_def)
  obtain r' es2 where b: "apply_packets ?c ?qs r2 = (r', es2)" by (cases "apply_packets ?c ?qs r2")
  have "es2 @ read_final ?c r' = rd_result ?c (ts_of r2 1) @ map result_entry rs"
  proof (rule pass_results[OF r2(3) _ _ _ _ _ b])
    show "\<forall>(u, p) \<in> set ?qs. u = 0 \<and> ptype (snd p) \<noteq> CBA_HEAD \<or> u = 1"
      using th(3) by (auto simp: CBA_HEAD_def CBA_INT32_def)
    show "of_thread 1 ?qs = result_packets rs" using th(2) by simp
    show "ts_module (ts_of r2 0) \<noteq> []" by (simp add: same r(3) ascii_def)
  qed (simp_all add: same one rest)
  moreover have "rd_result ?c (ts_of r2 1) = [result_entry (last rs)]"
    by (simp add: same one rd_result_def module_cfg_def result_entry_def)
  moreover have "cba_open_file 0 @ enc_file ?ps = ascii ''L'' @ enc_packet 0 (0, P_head cscan_name) @ enc_file ?qs"
    by (simp add: cba_open_file_def ps del: enc_file_simps(2)) simp
  ultimately show ?thesis
    by (simp only: entries_from_def r2(1) f b option.map prod.case fst_conv append.simps)
qed

lemma new_events_row:
  "e \<in> set es \<Longrightarrow> 0 < new_events e \<Longrightarrow> \<exists>x \<in> set (concat (map count_row es)). 0 < fst (snd x)"
  by (cases e) force+

text \<open>C10: the results are shown twice over. Let the file of a scan hold the scanner's log and the results a module
  thread wrote as \<open>print\<close> does, interleaved in any way. With \<^verbatim>\<open>-r\<close> \<^verbatim>\<open>cba_reader_cscan.py\<close> prints each
  result once. Without a switch, when it prints the statistics first, the second pass goes back to the byte order
  and reads it as a thread, with the states of the first pass: it prints the last result before all the others,
  and again in its place.\<close>

theorem results_duplicated:
  assumes "fst ` set ds \<subseteq> {0, 1}" "of_thread 0 ds = entries_calls True es" "\<forall>e \<in> set es. entry_ok e"
    and "of_thread 1 ds = result_calls rs" "rs \<noteq> []" "calls_ok (scan_file n ds) (\<lambda>_. (0, []))"
    and "\<exists>e \<in> set es. 0 < new_events e"
  shows "\<exists>ts bs mn mx. cba_run (scan_file n ds) cba_thread_init = Some (ts, bs) \<and>
    cscan_report False True (cba_open_file 0 @ bs) = Some ([], map V_text rs) \<and>
    cscan_report True True (cba_open_file 0 @ bs)
      = Some ([(concat (map stat_row es), mn, mx)], V_text (last rs) # map V_text rs)"
proof -
  let ?cs = "scan_file n ds"
  let ?ps = "spec_run ?cs (\<lambda>_. (0, []))"
  have c0: "of_thread 0 ?cs = main_calls n (entries_calls True es)"
    using assms(2) by (simp add: scan_file_def main_calls_def)
  have h: "\<forall>u. u \<noteq> 0 \<longrightarrow> C_head cscan_name \<notin> set (of_thread u ?cs)"
  proof (intro allI impI)
    fix u :: byte assume u: "u \<noteq> 0"
    show "C_head cscan_name \<notin> set (of_thread u ?cs)"
    proof (cases "u = 1")
      case True
      then show ?thesis using assms(4) by (auto simp: scan_file_def result_calls_def ascii_def)
    next
      case False
      with u assms(1) have "\<forall>(v, c) \<in> set ds. v \<noteq> u" by fastforce
      from of_thread_none[OF this] u show ?thesis by (simp add: scan_file_def)
    qed
  qed
  have x: "\<forall>(tid, p) \<in> set ?ps. extractable (module_cfg cscan_name) p"
    using two_threads(3)[OF assms(1,2,4), of "module_cfg cscan_name"]
    by (auto simp: spec_scan_file extractable_def)
  obtain ts r where p: "cba_run ?cs cba_thread_init = Some (ts, enc_file ?ps)"
    "entries_from cscan_name rd_init (enc_file ?ps) = Some ([(cscan_name,
      (CBA_INT32, STATS_EVERY, V_int (to_int32 (to_u32 n))) # concat (map entry_events es))], r)"
    "r = fst (apply_packets (module_cfg cscan_name) ?ps rd_init)" "one_cscan r"
    using statistics_pass[OF c0 h assms(6) x] .
  let ?e = "(cscan_name, (CBA_INT32, STATS_EVERY, V_int (to_int32 (to_u32 n))) # concat (map entry_events es))"
  have "\<exists>x \<in> set (concat (map count_row es)). 0 < fst (snd x)"
    using assms(7) new_events_row by blast
  then obtain mn mx where st: "handle_cscan_entry ?e = Some (concat (map stat_row es), mn, mx)"
    using report_rows[OF assms(3), of "to_int32 (to_u32 n)"] unfolding rows_of_entries(1)
    by (auto simp del: map_concat split: if_splits)
  have m: "ts_module (ts_of r 0) = cscan_name"
  proof -
    have "ts_of rd_init 0 = ts_reset" by (simp add: rd_init_def ts_of_def)
    then have "ts_of r 0 = fst (thread_run (module_cfg cscan_name)
        (spec_calls (main_calls n (entries_calls True es)) (0, [])) ts_reset)"
      by (simp only: p(3) apply_packets_thread spec_run_thread c0)
    with run_main[of "module_cfg cscan_name" n es] show ?thesis by auto
  qed
  obtain r1 where one: "entries_from [] rd_init (enc_file ?ps) = Some (map result_entry rs, r1)"
    using first_results[OF assms(1,2,4,6)] by auto
  obtain r2 where two: "entries_from [] r (cba_open_file 0 @ enc_file ?ps)
      = Some (result_entry (last rs) # map result_entry rs, r2)"
    using second_results[OF assms(1,2,4,6,5) p(3,4) m] by auto
  have d: "drop 1 (cba_open_file 0 @ enc_file ?ps) = enc_file ?ps" by (simp add: cba_open_file_def ascii_def)
  have "cscan_report False True (cba_open_file 0 @ enc_file ?ps) = Some ([], map V_text rs)"
    using result_values[of rs] by (simp add: cscan_report_def d one del: drop_append One_nat_def)
  moreover have "cscan_report True True (cba_open_file 0 @ enc_file ?ps)
      = Some ([(concat (map stat_row es), mn, mx)], V_text (last rs) # map V_text rs)"
  proof -
    have s: "all_somes (map handle_cscan_entry [?e]) = Some [(concat (map stat_row es), mn, mx)]"
      by (simp add: all_somes_def st)
    have v: "all_somes (map entry_value (result_entry (last rs) # map result_entry rs))
        = Some (V_text (last rs) # map V_text rs)"
      using result_values[of "last rs # rs"] by (simp only: list.map)
    show ?thesis
      by (simp only: cscan_report_def d p(2) two s v if_True bind.bind_lunit prod.case option.simps Option.bind.simps)
  qed
  ultimately show ?thesis using p(1) by (intro exI conjI)
qed

theorem results_duplicated_witness:
  "\<exists>ts bs mn mx. cba_run (scan_file 2 ([(1, C_head [])] @ map (Pair 0) (entries_calls True [Counts 0 1 1]) @
      [(1, C_str (ascii ''a'')), (1, C_head []), (1, C_str (ascii ''b''))])) cba_thread_init = Some (ts, bs) \<and>
    cscan_report False True (cba_open_file 0 @ bs) = Some ([], [V_text (ascii ''a''), V_text (ascii ''b'')]) \<and>
    cscan_report True True (cba_open_file 0 @ bs) = Some ([([(V_int 0, V_int 1, V_int 1)], mn, mx)],
      [V_text (ascii ''b''), V_text (ascii ''a''), V_text (ascii ''b'')])"
proof -
  let ?ds = "[(1, C_head [])] @ map (Pair 0) (entries_calls True [Counts 0 1 1]) @
      [(1, C_str (ascii ''a'')), (1, C_head []), (1, C_str (ascii ''b''))]"
  have t: "fst ` set ?ds \<subseteq> {0, 1}" by auto
  have z: "of_thread 0 ?ds = entries_calls True [Counts 0 1 1]" by simp
  have w: "of_thread 1 ?ds = result_calls [ascii ''a'', ascii ''b'']" by (simp add: result_calls_def)
  have e: "\<forall>e \<in> set [Counts 0 1 1]. entry_ok e" by (simp add: int_ok_def)
  have ok: "calls_ok (scan_file 2 ?ds) (\<lambda>_. (0, []))"
    by (simp add: scan_file_def main_calls_def log_stats_every_def entries_calls_def log_stats_def CBA_MAXBUFF_def
        ascii_def)
  show ?thesis using results_duplicated[OF t z e w _ ok] by simp
qed

end
