(* ===== verification/Setup.thy ===== *)
theory Setup
  imports Args
begin

unbundle bit_operations_syntax

text \<open>
  What \<open>main\<close> of \<^verbatim>\<open>cscan.c\<close> does before it starts the threads: \<open>setup_misc\<close>, which checks a limit of the
  system and detaches the process, and the helpers \<open>read_int_from_file\<close>, \<open>get_local_port_range\<close> and
  \<open>format_bytes\<close>; and the clocks of \<^verbatim>\<open>utils.c\<close>. The system is a record of the calls; in this process,
  \<open>ho_fork\<close> answers \<open>0\<close> in the child and the number of the child in the parent.
\<close>

section \<open>The system\<close>

record 'w host =
  ho_signals :: "'w \<Rightarrow> 'w"
  ho_open :: "string \<Rightarrow> 'w \<Rightarrow> int \<times> 'w"
  ho_read :: "int \<Rightarrow> 'w \<Rightarrow> string \<times> 'w"
  ho_close :: "int \<Rightarrow> 'w \<Rightarrow> 'w"
  ho_fork :: "'w \<Rightarrow> int \<times> 'w"
  ho_setsid :: "'w \<Rightarrow> int \<times> 'w"
  ho_dup2 :: "int \<Rightarrow> int \<Rightarrow> 'w \<Rightarrow> 'w"

section \<open>Numbers from /proc\<close>

text \<open>
  The buffer holds at most 63 bytes of what \<open>read\<close> delivers, the text ends at a NUL. \<open>sscanf\<close> answers \<open>-1\<close>
  for white space only, which counts as success; after a success the file is not closed.
\<close>

definition proc_text :: "string \<Rightarrow> string" where
  "proc_text s = takeWhile (\<lambda>c. c \<noteq> CHR 0x00) (take 63 s)"

definition read_int_from_file :: "'w host \<Rightarrow> string \<Rightarrow> 'w \<Rightarrow> (int \<times> 'w) option" where
  "read_int_from_file h name w =
     (let (fd, w) = ho_open h name w in
      if fd = -1 then Some (-1, w)
      else let (s, w) = ho_read h fd w in
        case scan_d (proc_text s) of
          Conv v _ \<Rightarrow> map_option (\<lambda>v. (v, w)) (cint v)
        | Eof \<Rightarrow> Some (0, w)
        | Nomatch \<Rightarrow> Some (-1, ho_close h fd w))"

text \<open>\<open>start << 16 | end\<close> on \<open>int\<close>s; with fewer than two numbers, but at least \<open>sscanf\<close>'s \<open>-1\<close>, a variable
  without a value is used.\<close>

definition port_range_word :: "int \<Rightarrow> int \<Rightarrow> u32 option" where
  "port_range_word start end = do {
     start \<leftarrow> cint start;
     end \<leftarrow> cint end;
     hi \<leftarrow> (if start < 0 then None else cmul start 65536);
     Some (to_u32 hi OR to_u32 end)
   }"

definition get_local_port_range :: "'w host \<Rightarrow> 'w \<Rightarrow> (u32 \<times> 'w) option" where
  "get_local_port_range h w =
     (let (fd, w) = ho_open h ''/proc/sys/net/ipv4/ip_local_port_range'' w in
      if fd = -1 then Some (0, w)
      else let (s, w) = ho_read h fd w in
        case scan_d (proc_text s) of
          Eof \<Rightarrow> None
        | Nomatch \<Rightarrow> Some (0, ho_close h fd w)
        | Conv start rest \<Rightarrow> (case scan_d rest of
            Conv end _ \<Rightarrow> map_option (\<lambda>r. (r, w)) (port_range_word start end)
          | _ \<Rightarrow> None))"

section \<open>Detaching\<close>

text \<open>One \<open>fork\<close>: the parent, and a failure, end the process.\<close>

definition fork_away :: "'w host \<Rightarrow> 'w \<Rightarrow> 'w outcome" where
  "fork_away h w =
     (let (pid, w) = ho_fork h w in
      if pid < 0 then Some (Inl (Exited 1)) else if 0 < pid then Some (Inl (Exited 0)) else Some (Inr w))"

definition null_streams :: "'w host \<Rightarrow> 'w \<Rightarrow> 'w outcome" where
  "null_streams h w =
     (let (fd, w) = ho_open h ''/dev/null'' w in
      if fd = -1 then Some (Inl (Exited 1))
      else let w = ho_dup2 h fd 2 (ho_dup2 h fd 1 (ho_dup2 h fd 0 w)) in
        Some (Inr (if 2 < fd then ho_close h fd w else w)))"

definition detach :: "'w host \<Rightarrow> 'w \<Rightarrow> 'w outcome" where
  "detach h w =
     then_do (fork_away h w) (\<lambda>w.
       let (r, w) = ho_setsid h w in
       if r < 0 then Some (Inl (Exited 1)) else then_do (fork_away h w) (null_streams h))"

definition setup_misc :: "'w host \<Rightarrow> options \<Rightarrow> 'w \<Rightarrow> 'w outcome" where
  "setup_misc h p w =
     (case read_int_from_file h ''/proc/sys/fs/epoll/max_user_watches'' (ho_signals h w) of None \<Rightarrow> None
      | Some (watches, w) \<Rightarrow>
          if 0 < watches \<and> watches < max_pending_sockets p then Some (Inl (Exited 1))
          else if daemonize p then detach h w else Some (Inr w))"

section \<open>The rate as text\<close>

text \<open>Bytes and the index of the unit.\<close>

fun bytes_loop :: "nat \<Rightarrow> int \<Rightarrow> nat \<Rightarrow> int \<times> nat" where
  "bytes_loop 0 bytes idx = (bytes, idx)"
| "bytes_loop (Suc left) bytes idx =
     (if 1000 < bytes then bytes_loop left (bytes sdiv 1000) (Suc idx) else (bytes, idx))"

definition format_bytes :: "int \<Rightarrow> string" where
  "format_bytes bytes =
     (let (n, idx) = bytes_loop 3 bytes 0 in int_string n @ '' '' @ [''B'', ''KB'', ''MB'', ''GB''] ! idx)"

section \<open>Clocks\<close>

text \<open>\<open>get_ms\<close> and \<open>get_us\<close> on what \<open>clock_gettime\<close> stores; the arithmetic is on 64-bit signed integers.\<close>

definition long_ok :: "int \<Rightarrow> bool" where
  "long_ok x \<longleftrightarrow> - (2 ^ 63) \<le> x \<and> x < 2 ^ 63"

definition clock_value :: "int \<Rightarrow> int \<Rightarrow> int \<times> int \<Rightarrow> u64 option" where
  "clock_value per_sec nsecs = (\<lambda>(sec, nsec).
     if long_ok (sec * per_sec) \<and> long_ok (sec * per_sec + nsec sdiv nsecs)
     then Some (word_of_int (sec * per_sec + nsec sdiv nsecs)) else None)"

definition get_ms :: "int \<times> int \<Rightarrow> u64 option" where
  "get_ms = clock_value 1000 1000000"

definition get_us :: "int \<times> int \<Rightarrow> u64 option" where
  "get_us = clock_value 1000000 1000"

section \<open>The descriptors after the set-up\<close>

text \<open>\<open>tab w fd\<close> is the name of the file the descriptor stands for. Opening takes a free descriptor, closing
  frees it, \<open>dup2\<close> makes a descriptor stand for what another one does, and \<open>fork\<close> inherits them.\<close>

definition host_ok :: "'w host \<Rightarrow> ('w \<Rightarrow> int \<Rightarrow> string option) \<Rightarrow> bool" where
  "host_ok h tab \<longleftrightarrow>
     (\<forall>w. tab (ho_signals h w) = tab w) \<and> (\<forall>fd w. tab (snd (ho_read h fd w)) = tab w) \<and>
     (\<forall>w. tab (snd (ho_fork h w)) = tab w) \<and> (\<forall>w. tab (snd (ho_setsid h w)) = tab w) \<and>
     (\<forall>name w fd w'. ho_open h name w = (fd, w') \<longrightarrow>
        fd = -1 \<and> tab w' = tab w \<or> 0 \<le> fd \<and> tab w fd = None \<and> tab w' = (tab w)(fd \<mapsto> name)) \<and>
     (\<forall>fd w. tab (ho_close h fd w) = (tab w)(fd := None)) \<and>
     (\<forall>fd fd' w. tab w fd \<noteq> None \<longrightarrow> tab (ho_dup2 h fd fd' w) = (tab w)(fd' := tab w fd))"

lemma host_okD:
  assumes "host_ok h tab"
  shows "tab (ho_signals h w) = tab w" "ho_read h fd w = (x, w') \<Longrightarrow> tab w' = tab w"
    "ho_fork h w = (pid, w') \<Longrightarrow> tab w' = tab w" "ho_setsid h w = (r, w') \<Longrightarrow> tab w' = tab w"
    "tab (ho_close h fd w) = (tab w)(fd := None)"
    "tab w fd \<noteq> None \<Longrightarrow> tab (ho_dup2 h fd fd' w) = (tab w)(fd' := tab w fd)"
  using assms unfolding host_ok_def by (metis snd_conv)+

lemma host_ok_open:
  assumes "host_ok h tab" "ho_open h name w = (fd, w')"
  obtains (failed) "fd = -1" "tab w' = tab w"
    | (opened) "0 \<le> fd" "tab w fd = None" "tab w' = (tab w)(fd \<mapsto> name)"
proof -
  have "fd = -1 \<and> tab w' = tab w \<or> 0 \<le> fd \<and> tab w fd = None \<and> tab w' = (tab w)(fd \<mapsto> name)"
    using assms by (auto simp: host_ok_def)
  then show thesis by (elim disjE conjE) (erule (1) failed, erule (2) opened)
qed

lemma fork_away_tab: "host_ok h tab \<Longrightarrow> fork_away h w = Some (Inr w') \<Longrightarrow> tab w' = tab w"
  by (auto simp: fork_away_def Let_def host_okD(3) split: prod.splits if_splits)

lemma null_streams_tab:
  assumes h: "host_ok h tab" and r: "null_streams h w = Some (Inr w')"
  shows "tab w' = (tab w)(0 \<mapsto> ''/dev/null'', 1 \<mapsto> ''/dev/null'', 2 \<mapsto> ''/dev/null'')"
proof -
  obtain fd w1 where o: "ho_open h ''/dev/null'' w = (fd, w1)" by force
  with r have n: "fd \<noteq> -1" by (auto simp: null_streams_def)
  let ?w = "ho_dup2 h fd 2 (ho_dup2 h fd 1 (ho_dup2 h fd 0 w1))"
  from h o show ?thesis
  proof (cases rule: host_ok_open)
    case opened
    let ?n = "Some ''/dev/null''"
    have "tab (ho_dup2 h fd 0 w1) = (tab w1)(0 := ?n)" using host_okD(6)[OF h, of w1 fd 0] opened by simp
    then have "tab (ho_dup2 h fd 1 (ho_dup2 h fd 0 w1)) = (tab w1)(0 := ?n, 1 := ?n)"
      using host_okD(6)[OF h, of "ho_dup2 h fd 0 w1" fd 1] opened by simp
    then have t: "tab ?w = (tab w)(fd := ?n, 0 := ?n, 1 := ?n, 2 := ?n)"
      using host_okD(6)[OF h, of "ho_dup2 h fd 1 (ho_dup2 h fd 0 w1)" fd 2] opened by simp
    have "w' = (if 2 < fd then ho_close h fd ?w else ?w)" using r o n by (simp add: null_streams_def Let_def)
    moreover have "fd = 0 \<or> fd = 1 \<or> fd = 2" if "\<not> 2 < fd" using that opened(1) by linarith
    ultimately show ?thesis using t opened(2) host_okD(5)[OF h] by (auto simp: fun_eq_iff)
  qed (use n in simp)
qed

lemma detach_tab:
  assumes h: "host_ok h tab" and r: "detach h w = Some (Inr w')"
  shows "tab w' = (tab w)(0 \<mapsto> ''/dev/null'', 1 \<mapsto> ''/dev/null'', 2 \<mapsto> ''/dev/null'')"
proof -
  obtain w1 where s1: "fork_away h w = Some (Inr w1)" using r by (auto simp: detach_def then_do_eq_Inr)
  obtain r2 w2 where s2: "ho_setsid h w1 = (r2, w2)" by force
  obtain w3 where s3: "fork_away h w2 = Some (Inr w3)" "null_streams h w3 = Some (Inr w')"
    using r s1 s2 by (auto simp: detach_def then_do_eq_Inr split: if_splits)
  note s = s1 s2 s3
  have "tab w3 = tab w"
    using fork_away_tab[OF h s(1)] host_okD(4)[OF h s(2)] fork_away_tab[OF h s(3)] by simp
  with null_streams_tab[OF h s(4)] show ?thesis by simp
qed

abbreviation (input) watches_file :: string where
  "watches_file \<equiv> ''/proc/sys/fs/epoll/max_user_watches''"

lemma read_int_tab:
  assumes h: "host_ok h tab" and r: "read_int_from_file h name w = Some (v, w')"
  shows "tab w' = tab w \<and> v = -1 \<or> (\<exists>fd \<ge> 0. tab w fd = None \<and> tab w' = (tab w)(fd \<mapsto> name))"
proof -
  obtain fd w1 where o: "ho_open h name w = (fd, w1)" by force
  from h o show ?thesis
  proof (cases rule: host_ok_open)
    case failed
    with r o show ?thesis by (simp add: read_int_from_file_def)
  next
    case opened
    obtain s w2 where s: "ho_read h fd w1 = (s, w2)" by force
    have "tab w2 = (tab w)(fd \<mapsto> name)" using host_okD(2)[OF h s] opened(3) by simp
    moreover have "tab (ho_close h fd w2) = tab w" using calculation opened(2) host_okD(5)[OF h] by (auto simp: fun_eq_iff)
    ultimately show ?thesis
      using r o s opened(1,2) by (auto simp: read_int_from_file_def split: conv.splits)
  qed
qed


text \<open>A system with five descriptors, whose world is its descriptor table.\<close>

abbreviation (input) small_host :: "(int \<Rightarrow> string option) host" where
  "small_host \<equiv> \<lparr>ho_signals = id,
     ho_open = (\<lambda>name w. if w 3 = None then (3, w(3 \<mapsto> name)) else if w 4 = None then (4, w(4 \<mapsto> name)) else (-1, w)),
     ho_read = (\<lambda>fd w. (''5000''@[CHR 0x0A], w)), ho_close = (\<lambda>fd w. w(fd := None)), ho_fork = Pair 0,
     ho_setsid = Pair 9, ho_dup2 = (\<lambda>a b w. w(b := w a))\<rparr>"

abbreviation (input) tty_table :: "int \<Rightarrow> string option" where
  "tty_table \<equiv> Map.empty(0 \<mapsto> ''tty'', 1 \<mapsto> ''tty'', 2 \<mapsto> ''tty'')"

lemma small_setup:
  "map_option (map_sum id (\<lambda>w. (w 3, w 4))) (setup_misc small_host ((default_options [] [])\<lparr>daemonize := True\<rparr>) tty_table)
    = Some (Inr (Some watches_file, None))"
  by code_simp


section \<open>Numbers as they are printed\<close>

text \<open>A range of ports fits the word as long as it starts below \<open>32768\<close>. Linux starts at \<open>32768\<close>, where
  \<open>start << 16\<close> overflows.\<close>

lemma port_range_splits:
  assumes "0 \<le> lo" "lo < 32768" "0 \<le> hi" "hi < 65536"
  shows "\<exists>r. port_range_word lo hi = Some r \<and> drop_bit 16 r = word_of_int lo \<and> r AND 0xFFFF = word_of_int hi"
proof -
  let ?r = "word_of_int (lo * 65536) OR word_of_int hi :: u32"
  have e: "(word_of_int (lo * 65536) :: u32) = push_bit 16 (word_of_int lo)" by (simp add: push_bit_eq_mult)
  have h: "(word_of_int hi :: u32) = take_bit 16 (word_of_int hi)"
    using assms(3,4) by (simp flip: of_int_take_bit add: take_bit_int_eq_self)
  have l: "(word_of_int lo :: u32) = take_bit 16 (word_of_int lo)"
    using assms(1,2) by (simp flip: of_int_take_bit add: take_bit_int_eq_self)
  have m: "(0xFFFF :: u32) = mask 16" by (simp add: mask_eq_exp_minus_1)
  have "drop_bit 16 ?r = word_of_int lo"
    by (rule bit_word_eqI, subst h, subst l, subst e) (simp add: bit_simps)
  moreover have "?r AND 0xFFFF = word_of_int hi"
    by (rule bit_word_eqI, subst (1 2) h, subst e, subst m) (auto simp: bit_simps)
  moreover have "port_range_word lo hi = Some ?r"
    using assms by (simp add: port_range_word_def cint_def int_ok_def to_u32_def)
  ultimately show ?thesis by blast
qed

lemma port_range_overflows: "32768 \<le> lo \<Longrightarrow> port_range_word lo hi = None"
  by (auto simp: port_range_word_def cint_def int_ok_def cmul_def)

text \<open>\<open>format_bytes\<close> rounds down to three digits or fewer, up to gigabytes.\<close>

lemma bytes_loop_div:
  "0 \<le> b \<Longrightarrow> bytes_loop left b idx = (n, k) \<Longrightarrow>
    idx \<le> k \<and> k \<le> idx + left \<and> n = b div 1000 ^ (k - idx) \<and> (n \<le> 1000 \<or> k = idx + left)"
proof (induction left b idx rule: bytes_loop.induct)
  case (2 left b idx)
  show ?case
  proof (cases "1000 < b")
    case True
    then have b: "b sdiv 1000 = b div 1000" by (simp add: sdiv_nonneg)
    have "Suc idx \<le> k \<and> k \<le> Suc idx + left \<and> n = b div 1000 div 1000 ^ (k - Suc idx) \<and> (n \<le> 1000 \<or> k = Suc idx + left)"
      by (rule "2.IH"[OF True, unfolded b]) (use "2.prems" True b in \<open>simp_all add: pos_imp_zdiv_nonneg_iff\<close>)
    moreover then have "k - idx = Suc (k - Suc idx)" by linarith
    ultimately show ?thesis by (auto simp: zdiv_zmult2_eq)
  qed (use 2 in simp)
qed simp

text \<open>The two clocks agree: both are the same time, in whole units.\<close>

lemma clocks_agree:
  assumes "0 \<le> sec" "sec < 2 ^ 43" "0 \<le> nsec" "nsec < 1000000000"
  shows "\<exists>us ms. get_us (sec, nsec) = Some us \<and> get_ms (sec, nsec) = Some ms \<and>
    uint us = (sec * 1000000000 + nsec) div 1000 \<and> uint ms = uint us div 1000"
proof -
  have n: "0 \<le> nsec div 1000" "nsec div 1000 < 1000000" "0 \<le> nsec div 1000000" "nsec div 1000000 < 1000"
    using assms(3,4) by (auto simp: pos_imp_zdiv_nonneg_iff)
  have s: "nsec sdiv 1000 = nsec div 1000" "nsec sdiv 1000000 = nsec div 1000000"
    using assms(3) by (simp_all add: sdiv_nonneg)
  have u: "uint (word_of_int x :: u64) = x" if "0 \<le> x" "x < 2 ^ 64" for x
    using that by (simp add: uint_word_of_int)
  have "(sec * 1000000000 + nsec) div 1000 = sec * 1000000 + nsec div 1000"
    "(sec * 1000000 + nsec div 1000) div 1000 = sec * 1000 + nsec div 1000000"
    by (simp_all add: div_mult_self4 flip: zdiv_zmult2_eq)
  moreover have "get_us (sec, nsec) = Some (word_of_int (sec * 1000000 + nsec div 1000))"
    "get_ms (sec, nsec) = Some (word_of_int (sec * 1000 + nsec div 1000000))"
    using assms n by (simp_all add: get_us_def get_ms_def clock_value_def long_ok_def s)
  moreover have "uint (word_of_int (sec * 1000000 + nsec div 1000) :: u64) = sec * 1000000 + nsec div 1000"
    "uint (word_of_int (sec * 1000 + nsec div 1000000) :: u64) = sec * 1000 + nsec div 1000000"
    using assms n by (intro u; simp)+
  ultimately show ?thesis by metis
qed

end
