(* ===== verification/Program.thy ===== *)
theory Program
  imports Report_Again Setup
begin

text \<open>
  \<open>main\<close> of \<^verbatim>\<open>cscan.c\<close>: the parts in the order the program calls them, from the command line to the worker's
  end. The two threads are run one behind the other, the worker on the sequence of what was queued; the calls both
  make of the result file are kept apart, for any interleaving of them. A worker that ends at an address \<open>0\<close>
  before the last result leaves the others in the queue, where the program may wait for ever for a free place.
\<close>

section \<open>The program and what it runs on\<close>

text \<open>
  Besides the calls of the system: what \<open>malloc\<close> and files deliver while the arguments are read, the tables and
  options the build sets, \<open>open\<close> and \<open>fstat\<close> of the result file (its size, or none), the TLS
  library, the flags of the build, the uninitialised flags of the probes' sockets, the standard input, and the
  memory of the table of sockets.
\<close>

record 'w machine =
  ma_mem :: "nat \<Rightarrow> bool"
  ma_heap :: "nat \<Rightarrow> u32"
  ma_files :: "string \<Rightarrow> byte list option"
  ma_tables :: tables
  ma_defaults :: options
  ma_host :: "'w host"
  ma_create :: "string \<Rightarrow> 'w \<Rightarrow> nat option \<times> 'w"
  ma_sys :: "'w sys"
  ma_tls :: "'w tls option"
  ma_build :: build
  ma_junk :: "nat \<Rightarrow> bool \<times> bool"
  ma_input :: string
  ma_list :: "sl_entry list"

text \<open>\<open>Ran start cs s wk\<close>: what the new result file starts with (if there is one), the calls of \<open>main\<close> before the
  worker starts, the state of the scanner at the end, with its calls, and that of the worker.\<close>

datatype 'w main_end =
  Listed string
| Ran "byte list option" "cba_call list" "'w scan" "worker_end \<times> modules \<times> 'w mctx"

definition open_output :: "'w machine \<Rightarrow> options \<Rightarrow> 'w \<Rightarrow> (byte list option \<times> 'w) outcome" where
  "open_output k p w =
     (case output_cba_file p of None \<Rightarrow> Some (Inr (None, w))
      | Some name \<Rightarrow> (case ma_create k name w of
          (None, w) \<Rightarrow> Some (Inl (Exited 1))
        | (Some n, w) \<Rightarrow> Some (Inr (Some (cba_open_file n), w))))"

text \<open>Where the targets come from; the greeting of the scanner multiplies the rate by \<open>60\<close>.\<close>

definition main_targets ::
  "'w machine \<Rightarrow> options \<Rightarrow> tables \<Rightarrow> nat \<Rightarrow> nat \<Rightarrow> bool \<Rightarrow> 'w \<Rightarrow> 'w scan outcome" where
  "main_targets k p tb fuel rounds has_file w =
     (if from_stdin p
      then map_option Inr (Option.bind (add_from_stdin (ma_input k) (scan_start w)) stop_worker)
      else case cmul 60 (packets_per_second p) of None \<Rightarrow> None
        | Some _ \<Rightarrow> scan_mode ((ma_sys k)\<lparr>sy_file := has_file\<rparr>) p tb (ma_list k) fuel rounds (scan_start w))"

definition main_env :: "'w machine \<Rightarrow> bool \<Rightarrow> 'w env" where
  "main_env k has_file = \<lparr>en_os = sy_os (ma_sys k), en_tls = ma_tls k, en_file = has_file\<rparr>"

definition cscan_main :: "'w machine \<Rightarrow> nat \<Rightarrow> nat \<Rightarrow> nat \<Rightarrow> string list \<Rightarrow> 'w \<Rightarrow> 'w main_end outcome" where
  "cscan_main k lines fuel rounds args w =
     then_do (parse_args (ma_mem k) (ma_heap k) (ma_files k) (ma_tables k) (ma_defaults k) args) (\<lambda>(p, tb).
     then_do (setup_misc (ma_host k) p w) (\<lambda>w.
       if list_only p then map_option (\<lambda>(txt, _, _). Inr (Listed txt)) (list_loop (ma_sys k) tb lines 0 w)
       else then_do (open_output k p w) (\<lambda>(start, w).
         let f = (start \<noteq> None) in
         case modules_init (ma_build k) f (enabled_modules p) (modules_config p) modules_default of None \<Rightarrow> None
         | Some m \<Rightarrow> then_do (main_targets k p tb fuel rounds f w) (\<lambda>s.
             map_option (\<lambda>wk. Inr (Ran start (C_head (ascii ''cscan'') # log_stats_every f (stats_every p)) s wk))
               (process_thread (main_env k f) (ma_build k) (ma_junk k) 1 (sc_queue s) m (sc_w s))))))"

section \<open>A run with a result file\<close>

lemma add_from_stdin_keeps:
  "add_from_stdin t s = Some s' \<Longrightarrow> sc_calls s' = sc_calls s"
proof (induction t s rule: add_from_stdin.induct)
  case (1 t s)
  show ?case
  proof (cases "\<exists>a port rest. scan_target t = Some (Some (a, port, rest))")
    case True
    then obtain a port rest where t: "scan_target t = Some (Some (a, port, rest))" by blast
    then obtain s1 where s1: "queue_result (parse_ip4 a) port s = Some s1" "add_from_stdin rest s1 = Some s'"
      using 1(2) by (subst (asm) add_from_stdin.simps) (auto split: option.splits)
    have "sc_calls s' = sc_calls s1" by (rule 1(1)[OF t _ _ _ s1]) simp_all
    with s1(1) show ?thesis by (auto simp: queue_result_def split: Option.bind_splits)
  next
    case False
    then show ?thesis using 1(2) by (subst (asm) add_from_stdin.simps) (auto split: option.splits)
  qed
qed

lemma main_targets_log:
  assumes "main_targets k p tb fuel rounds f w = Some (Inr s)"
  shows "\<exists>es rs. sc_calls s = entries_calls f es \<and> (\<forall>e \<in> set es. entry_ok e) \<and> sc_queue s = rs @ [(0, 0)]"
proof (cases "from_stdin p")
  case True
  then obtain s1 where "add_from_stdin (ma_input k) (scan_start w) = Some s1" "stop_worker s1 = Some s"
    using assms by (auto simp: main_targets_def split: Option.bind_splits)
  then show ?thesis
    using add_from_stdin_keeps[of "ma_input k" "scan_start w" s1]
    by (intro exI[of _ "[]"] exI[of _ "sc_queue s1"])
      (auto simp: stop_worker_def queue_result_def scan_start_def entries_calls_def split: Option.bind_splits)
next
  case False
  then show ?thesis using assms stats_booked by (fastforce simp: main_targets_def split: option.splits)
qed

lemma main_ran:
  assumes "cscan_main k lines fuel rounds args w = Some (Inr (Ran (Some start) cs s wk))"
    and "parse_args (ma_mem k) (ma_heap k) (ma_files k) (ma_tables k) (ma_defaults k) args = Some (Inr (p, tb))"
  obtains m w1 n where "main_targets k p tb fuel rounds True w1 = Some (Inr s)"
    "modules_init (ma_build k) True (enabled_modules p) (modules_config p) modules_default = Some m"
    "cs = main_calls (stats_every p) []" "start = cba_open_file n"
    "process_thread (main_env k True) (ma_build k) (ma_junk k) 1 (sc_queue s) m (sc_w s) = Some wk"
  using assms
  by (auto simp: cscan_main_def open_output_def then_do_eq_Inr Let_def main_calls_def split: if_splits option.splits prod.splits)

section \<open>What the worker writes\<close>

text \<open>The calls of the result file a module makes, one behind the other.\<close>

fun mx_calls :: "'w env \<Rightarrow> cba_call list \<Rightarrow> 'w mctx \<Rightarrow> 'w mctx option" where
  "mx_calls en [] cx = Some cx"
| "mx_calls en (c # cs) cx = (case mx_call en c cx of None \<Rightarrow> None | Some cx \<Rightarrow> mx_calls en cs cx)"

abbreviation (input) result_text :: "u32 \<times> int \<Rightarrow> byte list" where
  "result_text r \<equiv> ascii (target_text (fst r) (snd r))"

lemma mx_calls_append:
  "mx_calls en (cs @ ds) cx = (case mx_calls en cs cx of None \<Rightarrow> None | Some cx \<Rightarrow> mx_calls en ds cx)"
  by (induction cs arbitrary: cx) (auto split: option.split)

definition print_to_file :: "modules \<Rightarrow> bool" where
  "print_to_file m \<longleftrightarrow> pr_on (md_print m) \<and> pr_has_file (md_print m) \<and> \<not> ck_on (md_cookie m) \<and>
     \<not> rfb_on (md_rfb m) \<and> \<not> x11_on (md_x11 m)"

lemma init_switches:
  "checkcookie_init en cfg c = Some c' \<Longrightarrow> ck_on c' = (strstr en ''cookie'' \<noteq> None)"
  "rfb_init en cfg rc = Some rc' \<Longrightarrow> rfb_on rc' = (strstr en ''rfb'' \<noteq> None)"
  "x11_init en cfg xc = Some xc' \<Longrightarrow> x11_on xc' = (strstr en ''x11'' \<noteq> None)"
  by (auto simp: checkcookie_init_def rfb_init_def x11_init_def split: Option.bind_splits)

lemma modules_init_switches:
  assumes "modules_init b f en cfg m = Some m'"
  shows "md_print m' = (if have_print b then print_init f en (md_print m) else md_print m) \<and>
    ck_on (md_cookie m') = (if have_checkcookie b then strstr en ''cookie'' \<noteq> None else ck_on (md_cookie m)) \<and>
    rfb_on (md_rfb m') = (if have_rfb b then strstr en ''rfb'' \<noteq> None else rfb_on (md_rfb m)) \<and>
    x11_on (md_x11 m') = (if have_x11 b then strstr en ''x11'' \<noteq> None else x11_on (md_x11 m))"
proof -
  let ?m1 = "if have_print b then m\<lparr>md_print := print_init f en (md_print m)\<rparr> else m"
  obtain m2 where m2: "(if have_checkcookie b then map_option (\<lambda>c. ?m1\<lparr>md_cookie := c\<rparr>)
      (checkcookie_init en cfg (md_cookie ?m1)) else Some ?m1) = Some m2"
    using assms by (auto simp only: modules_init_def Let_def bind_eq_Some_conv)
  obtain m3 where m3: "(if have_rfb b then map_option (\<lambda>c. m2\<lparr>md_rfb := c\<rparr>) (rfb_init en cfg (md_rfb m2))
      else Some m2) = Some m3"
    "(if have_x11 b then map_option (\<lambda>c. m3\<lparr>md_x11 := c\<rparr>) (x11_init en cfg (md_x11 m3)) else Some m3) = Some m'"
    using assms unfolding modules_init_def Let_def m2 bind.bind_lunit by (auto simp only: bind_eq_Some_conv)
  have "md_print m2 = md_print ?m1 \<and> md_rfb m2 = md_rfb m \<and> md_x11 m2 = md_x11 m \<and>
      ck_on (md_cookie m2) = (if have_checkcookie b then strstr en ''cookie'' \<noteq> None else ck_on (md_cookie m))"
    using m2 init_switches(1) by (auto simp del: strstr.simps split: if_splits)
  moreover have "md_print m3 = md_print m2 \<and> md_cookie m3 = md_cookie m2 \<and> md_x11 m3 = md_x11 m2 \<and>
      rfb_on (md_rfb m3) = (if have_rfb b then strstr en ''rfb'' \<noteq> None else rfb_on (md_rfb m2))"
    using m3(1) init_switches(2) by (auto split: if_splits)
  moreover have "md_print m' = md_print m3 \<and> md_cookie m' = md_cookie m3 \<and> md_rfb m' = md_rfb m3 \<and>
      x11_on (md_x11 m') = (if have_x11 b then strstr en ''x11'' \<noteq> None else x11_on (md_x11 m3))"
    using m3(2) init_switches(3) by (auto split: if_splits)
  ultimately show ?thesis by simp
qed

lemma init_print_to_file:
  assumes "modules_init b True ''print'' cfg modules_default = Some m" "have_print b"
  shows "print_to_file m"
proof -
  have "strstr ''print'' ''print'' = Some ''print''" "strstr ''print'' ''cookie'' = None"
    "strstr ''print'' ''rfb'' = None" "strstr ''print'' ''x11'' = None" by code_simp+
  with modules_init_switches[OF assms(1)] assms(2) show ?thesis
    by (simp add: print_to_file_def print_init_def modules_default_def cookie_default_def rfb_default_def
        x11_default_def)
qed

lemma exec_writes:
  assumes "print_to_file m" "have_print b"
  shows "modules_exec en b jk ip port m cx
    = map_option (Pair m) (mx_calls en [C_head [], C_str (result_text (ip, port))] cx)"
  using assms
  by (cases "mx_call en (C_head []) cx")
    (auto simp: print_to_file_def modules_exec_def check_cookie_def run_modules_def print_result_def
      rfb_result_def x11_result_def Let_def ascii_def split: option.split)

lemma worker_writes:
  assumes "print_to_file m" "have_print b"
  shows "\<forall>r \<in> set rs. fst r \<noteq> 0 \<Longrightarrow>
    worker_loop en b jk rs m cx = map_option (\<lambda>cx. (Waiting, m, cx)) (mx_calls en (result_calls (map (\<lambda>r. result_text r) rs)) cx)"
proof (induction rs arbitrary: jk cx)
  case (Cons r rs)
  obtain ip port where r: "r = (ip, port)" by (cases r)
  have "result_calls (map (\<lambda>r. result_text r) (r # rs))
      = [C_head [], C_str (result_text (ip, port))] @ result_calls (map (\<lambda>r. result_text r) rs)"
    by (simp add: result_calls_def r)
  then show ?case
    using Cons exec_writes[OF assms, of en "jk 0" ip port cx]
    by (auto simp: r mx_calls_append split: option.split)
qed (simp add: result_calls_def)

lemma mx_calls_defined:
  assumes "en_file en"
  shows "wr_rel tid (mx_cba cx) (ws tid) \<Longrightarrow> calls_ok (map (Pair tid) cs) ws \<Longrightarrow> \<exists>cx'. mx_calls en cs cx = Some cx'"
proof (induction cs arbitrary: cx ws)
  case (Cons c cs)
  obtain t io where e: "cba_exec True c (mx_cba cx) = Some (t, io)" "wr_rel tid t (fst (spec_call c (ws tid)))"
    using exec_refines[OF Cons.prems(1), of c] Cons.prems(2) by auto
  then have "mx_call en c cx = Some (cx\<lparr>mx_cba := t, mx_io := mx_io cx @ io\<rparr>)"
    using assms by (simp add: mx_call_def)
  with Cons.IH[of "cx\<lparr>mx_cba := t, mx_io := mx_io cx @ io\<rparr>" "ws(tid := fst (spec_call c (ws tid)))"] Cons.prems(2) e(2)
  show ?case by (simp add: fun_upd_same del: fun_upd_apply)
qed simp

section \<open>From the command line to the report\<close>


text \<open>A machine around the simulated scan.\<close>

abbreviation (input) sim_machine :: "sim machine" where
  "sim_machine \<equiv> \<lparr>ma_mem = (\<lambda>_. True), ma_heap = (\<lambda>_. 0), ma_files = (\<lambda>_. None), ma_tables = one_target,
     ma_defaults = default_options ''rfb'' [],
     ma_host = \<lparr>ho_signals = id, ho_open = (\<lambda>name w. (-1, w)), ho_read = (\<lambda>fd w. ([], w)), ho_close = (\<lambda>fd w. w),
       ho_fork = Pair 0, ho_setsid = Pair 9, ho_dup2 = (\<lambda>a b w. w)\<rparr>,
     ma_create = (\<lambda>name w. (Some 0, w)), ma_sys = sim_sys, ma_tls = None,
     ma_build = \<lparr>have_print = True, have_checkcookie = True, have_rfb = True, have_x11 = True\<rparr>,
     ma_junk = (\<lambda>n. (True, True)), ma_input = [], ma_list = replicate 12 any_entry\<rparr>"

abbreviation (input) sim_args :: "string list" where
  "sim_args \<equiv> [''-m'', ''2'', ''-e'', ''10'', ''-st'', ''2'', ''-o'', ''out'', ''-mod'', ''print'']"

abbreviation (input) sim_options :: options where
  "sim_options \<equiv> (default_options ''print'' [])\<lparr>max_pending_sockets := 2, packets_per_second := 2,
     socket_list_excess := 10, connect_interval := 360000, stats_every := 2, output_cba_file := Some ''out''\<rparr>"

lemma sim_parse: "parse_args m h f one_target (default_options ''rfb'' []) sim_args = Some (Inr (sim_options, one_target))"
proof -
  let ?a = "\<lparr>ar_opts = (default_options ''print'' [])\<lparr>packets_per_second := 0, max_pending_sockets := 2,
      socket_list_excess := 10, output_cba_file := Some ''out''\<rparr>,
    ranges_file = None, ports_file = None, portspec = None, new_stats_every = 2\<rparr>"
  have "arg_loop sim_args (arg_init (default_options ''rfb'' [])) = Some ?a" by code_simp
  moreover have "map_option (choose_stats ?a) (derive_rates (ar_opts ?a)) = Some sim_options" by code_simp
  moreover have "\<not> wants_help sim_args" by code_simp
  ultimately show ?thesis
    by (auto simp: parse_args_def choose_ranges_def choose_ports_def)
qed

lemma sim_program:
  "map_option (map_sum id (\<lambda>s. (sc_queue s, sc_calls s)))
     (scan_mode (sim_sys\<lparr>sy_file := True\<rparr>) sim_options one_target (replicate 12 any_entry) 5 5
       (scan_start sim_start)) = Some (Inr ([(7, 80), (7, 80), (0, 0)],
     entries_calls True [Counts 0 0 0, Counts 0 2 2]))"
  by code_simp


end
