(* ===== verification/Queues.thy ===== *)
theory Queues
  imports Prelude "HOL-Library.Monad_Syntax"
begin

text \<open>
  \<^verbatim>\<open>queue.c\<close>, the bounded blocking queue between the scanner thread and the worker: the ring buffer
  operations that run under the mutex (\<open>queue_put_body\<close>, \<open>queue_get_body\<close>), what they implement
  (\<open>q_list\<close>), and the contract \<open>bounded_fifo\<close>. The mutex and the two condition variables are in
  theory Queue_Monitor. \<open>items\<close> is the slot array: the code moves whole items only, at offsets that
  are multiples of \<open>item_size\<close>.
\<close>

section \<open>Data and operations\<close>

record 'a queue =
  q_item_size :: int
  q_capacity :: int
  q_start :: int
  q_next :: int
  q_items :: "'a list"

text \<open>\<open>mem\<close> is the block \<open>malloc\<close> returned.\<close>

definition init_queue :: "'a list \<Rightarrow> int \<Rightarrow> int \<Rightarrow> 'a queue" where
  "init_queue mem capacity item_size =
     \<lparr>q_item_size = item_size, q_capacity = capacity, q_start = -1, q_next = 0, q_items = mem\<rparr>"

text \<open>The two waiting conditions.\<close>

definition queue_full :: "'a queue \<Rightarrow> bool" where
  "queue_full q \<longleftrightarrow> q_start q = q_next q"

definition queue_empty :: "'a queue \<Rightarrow> bool" where
  "queue_empty q \<longleftrightarrow> q_start q = -1"

text \<open>\<open>queue_put\<close> after its waiting loop, up to the unlock: the new queue and \<open>was_empty\<close>.\<close>

definition queue_put_body :: "'a \<Rightarrow> 'a queue \<Rightarrow> ('a queue \<times> bool) option" where
  "queue_put_body item q = do {
     let (q, was_empty) = (if q_start q = -1 then (q\<lparr>q_start := q_next q\<rparr>, True) else (q, False));
     items \<leftarrow> arr_set (q_items q) (q_next q) item;
     n \<leftarrow> cadd (q_next q) 1;
     n \<leftarrow> cmod n (q_capacity q);
     Some (q\<lparr>q_items := items, q_next := n\<rparr>, was_empty)
   }"

text \<open>\<open>queue_get\<close> after its waiting loop: the new queue, the item and \<open>was_full\<close>.\<close>

definition queue_get_body :: "'a queue \<Rightarrow> ('a queue \<times> 'a \<times> bool) option" where
  "queue_get_body q = do {
     out \<leftarrow> arr_get (q_items q) (q_start q);
     let was_full = (q_start q = q_next q);
     s \<leftarrow> cadd (q_start q) 1;
     s \<leftarrow> cmod s (q_capacity q);
     let q = q\<lparr>q_start := s\<rparr>;
     Some (if q_start q = q_next q then q\<lparr>q_start := -1, q_next := 0\<rparr> else q, out, was_full)
   }"

section \<open>Abstraction and invariant\<close>

definition wf_queue :: "'a queue \<Rightarrow> bool" where
  "wf_queue q \<longleftrightarrow> 0 < q_capacity q \<and> q_capacity q < 2 ^ 31 \<and>
     int (length (q_items q)) = q_capacity q \<and>
     (q_start q = -1 \<and> q_next q = 0 \<or>
      0 \<le> q_start q \<and> q_start q < q_capacity q \<and> 0 \<le> q_next q \<and> q_next q < q_capacity q)"

definition q_length :: "'a queue \<Rightarrow> nat" where
  "q_length q =
     (if q_start q = -1 then 0
      else if q_start q < q_next q then nat (q_next q - q_start q)
      else nat (q_capacity q + q_next q - q_start q))"

definition q_list :: "'a queue \<Rightarrow> 'a list" where
  "q_list q = map (\<lambda>k. q_items q ! ((nat (q_start q) + k) mod nat (q_capacity q))) [0..<q_length q]"

lemma length_q_list [simp]: "length (q_list q) = q_length q"
  by (simp add: q_list_def)

lemma wf_init_queue: "0 < c \<Longrightarrow> c < 2 ^ 31 \<Longrightarrow> length mem = nat c \<Longrightarrow>
    wf_queue (init_queue mem c sz) \<and> q_list (init_queue mem c sz) = []"
  by (simp add: wf_queue_def init_queue_def q_list_def q_length_def)

lemma queue_empty_iff: "wf_queue q \<Longrightarrow> queue_empty q \<longleftrightarrow> q_list q = []"
  by (auto simp: wf_queue_def queue_empty_def q_list_def q_length_def)

lemma queue_full_iff: "wf_queue q \<Longrightarrow> queue_full q \<longleftrightarrow> length (q_list q) = nat (q_capacity q)"
  by (auto simp: wf_queue_def queue_full_def q_length_def)

lemma q_length_le: "wf_queue q \<Longrightarrow> q_length q \<le> nat (q_capacity q)"
  by (auto simp: wf_queue_def q_length_def)

text \<open>Slots of a window shorter than the ring are distinct.\<close>

lemma ring_neq:
  assumes "k < l" "l < c"
  shows "((s::nat) + k) mod c \<noteq> (s + l) mod c"
proof
  assume "(s + k) mod c = (s + l) mod c"
  then have "c dvd (s + l) - (s + k)" using assms by (subst mod_eq_dvd_iff_nat[symmetric]) auto
  then have "c dvd l - k" by simp
  with assms show False by (auto dest: dvd_imp_le)
qed

lemma ring_next:
  assumes "wf_queue q" "q_start q \<noteq> -1"
  shows "nat (q_next q) = (nat (q_start q) + q_length q) mod nat (q_capacity q)"
proof (cases "q_start q < q_next q")
  case True
  then have "nat (q_start q) + q_length q = nat (q_next q)" "nat (q_next q) < nat (q_capacity q)"
    using assms by (auto simp: wf_queue_def q_length_def)
  then show ?thesis by simp
next
  case False
  then have e: "nat (q_start q) + q_length q = nat (q_next q) + nat (q_capacity q)"
    and l: "nat (q_next q) < nat (q_capacity q)"
    using assms by (auto simp: wf_queue_def q_length_def)
  show ?thesis using l by (simp add: e)
qed

lemma nat_succ_mod: "0 \<le> x \<Longrightarrow> 0 < c \<Longrightarrow> nat ((x + 1) mod c) = Suc (nat x) mod nat c"
  by (simp add: nat_mod_distrib nat_add_distrib)

lemma queue_put_body_ok:
  assumes wf: "wf_queue q" and nf: "\<not> queue_full q"
  obtains q' where "queue_put_body x q = Some (q', q_list q = [])" "wf_queue q'"
    "q_list q' = q_list q @ [x]" "q_capacity q' = q_capacity q"
proof -
  let ?c = "q_capacity q" and ?n = "q_next q"
  define s where "s = (if q_start q = -1 then ?n else q_start q)"
  have b: "0 < ?c" "?c < 2 ^ 31" "0 \<le> ?n" "?n < ?c" "0 \<le> s" "s < ?c"
    "int (length (q_items q)) = ?c" using wf by (auto simp: wf_queue_def s_def)
  let ?n' = "(?n + 1) mod ?c"
  let ?q = "q\<lparr>q_start := s, q_items := (q_items q)[nat ?n := x], q_next := ?n'\<rparr>"
  have n': "0 \<le> ?n'" "?n' < ?c" using b by simp_all
  have ok: "in_arr (q_items q) ?n" "int_ok (?n + 1)" "int_ok ?c"
    using b by (auto simp: in_arr_def intro: int_ok_nonneg)
  have emp: "(q_list q = []) \<longleftrightarrow> q_start q = -1"
    using queue_empty_iff[OF wf] by (simp add: queue_empty_def)
  have res: "queue_put_body x q = Some (?q, q_list q = [])"
    using ok b by (auto simp: queue_put_body_def s_def emp Let_def)
  have wf': "wf_queue ?q" using b n' by (simp add: wf_queue_def)
  have lt: "q_length q < nat ?c"
    using q_length_le[OF wf] queue_full_iff[OF wf] nf by simp
  have nx: "nat ?n = (nat s + q_length q) mod nat ?c"
  proof (cases "q_start q = -1")
    case True
    then show ?thesis using b by (simp add: s_def q_length_def)
  next
    case False
    then show ?thesis using ring_next[OF wf] by (simp add: s_def)
  qed
  have len: "q_length ?q = Suc (q_length q)"
  proof (cases "?n + 1 < ?c")
    case True
    then have "?n' = ?n + 1" using b by simp
    then show ?thesis using wf nf b by (auto simp: q_length_def s_def wf_queue_def queue_full_def)
  next
    case False
    then have "?n + 1 = ?c" using b by simp
    then have "?n' = 0" by simp
    then show ?thesis using wf nf b \<open>?n + 1 = ?c\<close>
      by (auto simp: q_length_def s_def wf_queue_def queue_full_def)
  qed
  have old: "(q_items q)[nat ?n := x] ! ((nat s + k) mod nat ?c)
      = q_items q ! ((nat (q_start q) + k) mod nat ?c)" if "k < q_length q" for k
  proof -
    have "(nat s + k) mod nat ?c \<noteq> nat ?n" using ring_neq[OF that lt] nx by simp
    moreover have "q_start q \<noteq> -1" using that by (auto simp: q_length_def)
    ultimately show ?thesis by (simp add: s_def)
  qed
  have "q_list ?q = q_list q @ [x]"
    unfolding q_list_def len using old nx b by (simp add: nat_less_iff)
  with res wf' show thesis by (intro that[of ?q]) simp_all
qed

lemma queue_get_body_ok:
  assumes wf: "wf_queue q" and ne: "\<not> queue_empty q"
  obtains q' x where "queue_get_body q = Some (q', x, length (q_list q) = nat (q_capacity q))"
    "wf_queue q'" "q_list q = x # q_list q'" "q_capacity q' = q_capacity q"
proof -
  let ?c = "q_capacity q" and ?s = "q_start q" and ?n = "q_next q"
  have b: "0 < ?c" "?c < 2 ^ 31" "0 \<le> ?n" "?n < ?c" "0 \<le> ?s" "?s < ?c"
    "int (length (q_items q)) = ?c" using wf ne by (auto simp: wf_queue_def queue_empty_def)
  let ?s' = "(?s + 1) mod ?c"
  let ?q = "if ?s' = ?n then q\<lparr>q_start := -1, q_next := 0\<rparr> else q\<lparr>q_start := ?s'\<rparr>"
  let ?x = "q_items q ! nat ?s"
  have ok: "in_arr (q_items q) ?s" "int_ok (?s + 1)" "int_ok ?c"
    using b by (auto simp: in_arr_def intro: int_ok_nonneg)
  have full: "(?s = ?n) \<longleftrightarrow> length (q_list q) = nat ?c"
    using queue_full_iff[OF wf] by (simp add: queue_full_def)
  have res: "queue_get_body q = Some (?q, ?x, length (q_list q) = nat ?c)"
    using ok b full by (simp add: queue_get_body_def Let_def)
  have wf': "wf_queue ?q" using b by (simp add: wf_queue_def)
  have s': "nat ?s' = Suc (nat ?s) mod nat ?c" using b by (intro nat_succ_mod)
  have len: "q_length q = Suc (q_length ?q)"
  proof (cases "?s + 1 < ?c")
    case True
    then have "?s' = ?s + 1" using b by simp
    then show ?thesis using b by (auto simp: q_length_def)
  next
    case False
    then have e: "?s + 1 = ?c" using b by simp
    then have "?s' = 0" by simp
    then show ?thesis using b e by (auto simp: q_length_def)
  qed
  have shift: "(nat ?s + Suc k) mod nat ?c = (nat ?s' + k) mod nat ?c" for k
    by (simp add: s' mod_add_left_eq)
  have "q_list q = ?x # q_list ?q"
  proof (cases "?s' = ?n")
    case True
    then have "q_length q = 1" using len by (simp add: q_length_def)
    then show ?thesis using True b by (simp add: q_list_def q_length_def nat_less_iff)
  next
    case False
    have "q_list q = map (\<lambda>k. q_items q ! ((nat ?s + k) mod nat ?c)) (0 # map Suc [0..<q_length ?q])"
      unfolding q_list_def len by (simp only: upt_conv_Cons zero_less_Suc map_Suc_upt)
    also have "\<dots> = ?x # map (\<lambda>k. q_items q ! ((nat ?s' + k) mod nat ?c)) [0..<q_length ?q]"
      using b shift by (simp add: nat_less_iff comp_def)
    finally show ?thesis using False by (simp add: q_list_def)
  qed
  with res wf' show thesis by (intro that[of ?q ?x]) simp_all
qed

section \<open>The contract\<close>

text \<open>
  A bounded queue as seen by a caller that holds the lock and has tested the waiting condition.
  The two flags are exact: \<open>was_empty\<close> and \<open>was_full\<close> tell the state before the operation.
\<close>

locale bounded_fifo =
  fixes put :: "'a \<Rightarrow> 'q \<Rightarrow> ('q \<times> bool) option"
    and get :: "'q \<Rightarrow> ('q \<times> 'a \<times> bool) option"
    and full :: "'q \<Rightarrow> bool"
    and empty :: "'q \<Rightarrow> bool"
    and contents :: "'q \<Rightarrow> 'a list"
    and inv :: "'q \<Rightarrow> bool"
    and cap :: "'q \<Rightarrow> nat"
  assumes put_ok: "inv q \<Longrightarrow> \<not> full q \<Longrightarrow> \<exists>q'. put x q = Some (q', contents q = []) \<and> inv q' \<and>
      contents q' = contents q @ [x] \<and> cap q' = cap q"
    and get_ok: "inv q \<Longrightarrow> \<not> empty q \<Longrightarrow>
      \<exists>q' x. get q = Some (q', x, length (contents q) = cap q) \<and> inv q' \<and>
      contents q = x # contents q' \<and> cap q' = cap q"
    and full_iff: "inv q \<Longrightarrow> full q \<longleftrightarrow> length (contents q) = cap q"
    and empty_iff: "inv q \<Longrightarrow> empty q \<longleftrightarrow> contents q = []"
    and length_le: "inv q \<Longrightarrow> length (contents q) \<le> cap q"
    and cap_pos: "inv q \<Longrightarrow> 0 < cap q"
begin

lemma putD:
  assumes "inv q" "\<not> full q" "put x q = Some (q', b)"
  shows "inv q' \<and> contents q' = contents q @ [x] \<and> cap q' = cap q \<and> (b \<longleftrightarrow> empty q)"
  using put_ok[OF assms(1,2), of x] assms(3) empty_iff[OF assms(1)] by auto

lemma getD:
  assumes "inv q" "\<not> empty q" "get q = Some (q', x, b)"
  shows "inv q' \<and> contents q = x # contents q' \<and> cap q' = cap q \<and> (b \<longleftrightarrow> full q)"
  using get_ok[OF assms(1,2)] assms(3) full_iff[OF assms(1)] by auto

lemma not_full_and_empty: "inv q \<Longrightarrow> full q \<Longrightarrow> \<not> empty q"
  using full_iff empty_iff cap_pos by fastforce

lemma put_not_empty: "inv q \<Longrightarrow> \<not> full q \<Longrightarrow> put x q = Some (q', b) \<Longrightarrow> \<not> empty q'"
  using putD[of q x q' b] empty_iff[of q'] by auto

lemma get_not_full: "inv q \<Longrightarrow> \<not> empty q \<Longrightarrow> get q = Some (q', x, b) \<Longrightarrow> \<not> full q'"
  using getD[of q q' x b] full_iff[of q'] length_le[of q] by auto

end

interpretation ring: bounded_fifo queue_put_body queue_get_body queue_full queue_empty q_list
  wf_queue "\<lambda>q. nat (q_capacity q)"
proof
  fix q :: "'a queue" and x
  show "wf_queue q \<Longrightarrow> \<not> queue_full q \<Longrightarrow> \<exists>q'. queue_put_body x q = Some (q', q_list q = []) \<and>
      wf_queue q' \<and> q_list q' = q_list q @ [x] \<and> nat (q_capacity q') = nat (q_capacity q)"
    by (rule queue_put_body_ok[of q x]) auto
  show "wf_queue q \<Longrightarrow> \<not> queue_empty q \<Longrightarrow>
      \<exists>q' x. queue_get_body q = Some (q', x, length (q_list q) = nat (q_capacity q)) \<and> wf_queue q' \<and>
      q_list q = x # q_list q' \<and> nat (q_capacity q') = nat (q_capacity q)"
    by (rule queue_get_body_ok[of q]) auto
  show "wf_queue q \<Longrightarrow> queue_full q \<longleftrightarrow> length (q_list q) = nat (q_capacity q)"
    by (rule queue_full_iff)
  show "wf_queue q \<Longrightarrow> queue_empty q \<longleftrightarrow> q_list q = []" by (rule queue_empty_iff)
  show "wf_queue q \<Longrightarrow> length (q_list q) \<le> nat (q_capacity q)" by (simp add: q_length_le)
  show "wf_queue q \<Longrightarrow> 0 < nat (q_capacity q)" by (simp add: wf_queue_def)
qed

end
