(* ===== verification/Testers.thy ===== *)
theory Testers
  imports Report Program Queues
begin

text \<open>
  The test programs of the repository, run on the model: \<^verbatim>\<open>target_gen_test.c\<close> with \<^verbatim>\<open>rand_for_test.c\<close>,
  \<^verbatim>\<open>socket_list_test.c\<close>, \<^verbatim>\<open>queue_test.c\<close>, \<^verbatim>\<open>cba_tester.c\<close>, and the two programs that try a probe
  on one host. What a test prints is the list of the values in its output.
\<close>

section \<open>Drawing targets\<close>

text \<open>\<open>gen_rand32\<close> of \<^verbatim>\<open>rand_for_test.c\<close>: the static \<open>val\<close>, which is also returned.\<close>

definition stub_rand32 :: "u32 \<Rightarrow> u32 \<Rightarrow> u32 \<Rightarrow> u32" where
  "stub_rand32 msk max_val val = (if msk = 0 then max_val else val)"

definition stub_ip :: "range_cfg \<Rightarrow> u32 \<Rightarrow> (int \<times> u32) option" where
  "stub_ip cfg val = (let val = stub_rand32 (cfg_mask cfg) (cfg_max_idx cfg) val in
     map_option (\<lambda>ip. (to_int32 ip, val)) (random_ip_at cfg val))"

definition stub_port :: "range_cfg \<Rightarrow> u32 \<Rightarrow> (int \<times> u32) option" where
  "stub_port cfg val = (let val = stub_rand32 (cfg_mask cfg) (cfg_max_idx cfg) val in
     map_option (\<lambda>port. (port, val)) (random_port_at cfg val))"

text \<open>\<open>gen_rand32(0, t); printf("\<dots> %d", draw(cfg))\<close> for a sequence of \<open>t\<close>.\<close>

fun draw_each :: "(u32 \<Rightarrow> (int \<times> u32) option) \<Rightarrow> u32 list \<Rightarrow> u32 \<Rightarrow> (int list \<times> u32) option" where
  "draw_each draw [] val = Some ([], val)"
| "draw_each draw (t # ts) val = do {
     (x, val) \<leftarrow> draw (stub_rand32 0 t val);
     (xs, val) \<leftarrow> draw_each draw ts val;
     Some (x # xs, val)
   }"

definition test_ranges :: range_cfg where
  "test_ranges = \<lparr>cfg_num = 3, cfg_max_idx = 16, cfg_mask = 31, cfg_ranges = [5, 5, 45, 11, 54, 16]\<rparr>"

definition test_ports :: range_cfg where
  "test_ports = \<lparr>cfg_num = 2, cfg_max_idx = 11, cfg_mask = 15, cfg_ranges = [80, 9, 81, 11]\<rparr>"

text \<open>\<open>%d\<close> of a configuration with its first \<open>n\<close> words; no configuration is a null pointer.\<close>

definition show_cfg :: "nat \<Rightarrow> range_cfg ptr \<Rightarrow> (range_cfg \<times> int list) option" where
  "show_cfg n p = (case p of Null \<Rightarrow> None
     | Ptr c \<Rightarrow> if n \<le> length (cfg_ranges c)
         then Some (c, [cfg_num c, to_int32 (cfg_max_idx c), to_int32 (cfg_mask c)] @ map to_int32 (take n (cfg_ranges c)))
         else None)"

definition target_gen_test :: "(nat \<Rightarrow> bool) \<Rightarrow> (nat \<Rightarrow> u32) \<Rightarrow> byte list option \<Rightarrow> int list list option" where
  "target_gen_test malloc heap csw_file = do {
     (ips, val) \<leftarrow> draw_each (stub_ip test_ranges) (map word_of_nat [0..<17]) 0;
     (ports, val) \<leftarrow> draw_each (stub_port test_ports) (map word_of_nat [0..<12]) val;
     p \<leftarrow> make_port_ranges malloc ''443:2,80'';
     (parsed, spec_line) \<leftarrow> show_cfg 4 p;
     (spec_ports, val) \<leftarrow> draw_each (stub_port parsed) (map word_of_nat [0..<3]) val;
     p \<leftarrow> load_range_cfg malloc heap csw_file;
     (fromfile, file_line) \<leftarrow> show_cfg 6 p;
     Some [ips, ports, spec_line, spec_ports, file_line]
   }"

text \<open>The file \<^verbatim>\<open>test.csw\<close>.\<close>

definition test_csw :: "byte list" where
  "test_csw = concat (map le32 [3, 16, 31, 5, 5, 45, 11, 54, 16])"

lemma spec_mask: "mpr_mask 3 1 = Some 4"
  by (simp add: mpr_mask.simps cint_defs)

text \<open>The two lines with numbers to compare agree: \<open>2,2,3,443,1,80,2\<close> and \<open>3,16,31,5,5,45,11,54,16\<close>.\<close>

theorem target_gen_test_passes:
  assumes "\<And>n. malloc n"
  shows "target_gen_test malloc heap (Some test_csw)
    = Some [[0..5] @ [40..45] @ [50..54], replicate 10 80 @ [81, 81], [2, 2, 3, 443, 1, 80, 2], [443, 443, 80],
        [3, 16, 31, 5, 5, 45, 11, 54, 16]]"
proof -
  have m: "malloc = (\<lambda>_. True)" using assms by auto
  have "draw_each (stub_ip test_ranges) (map word_of_nat [0..<17]) 0 = Some ([0..5] @ [40..45] @ [50..54], 16)"
    by code_simp
  moreover have "draw_each (stub_port test_ports) (map word_of_nat [0..<12]) 16 = Some (replicate 10 80 @ [81, 81], 11)"
    by code_simp
  moreover have "make_port_ranges (\<lambda>_. True) ''443:2,80''
      = Some (Ptr \<lparr>cfg_num = 2, cfg_max_idx = 2, cfg_mask = 3, cfg_ranges = [443, 1, 80, 2]\<rparr>)"
    by code_simp (simp add: spec_mask, code_simp)
  moreover have "show_cfg 4 (Ptr \<lparr>cfg_num = 2, cfg_max_idx = 2, cfg_mask = 3, cfg_ranges = [443, 1, 80, 2]\<rparr>)
      = Some (\<lparr>cfg_num = 2, cfg_max_idx = 2, cfg_mask = 3, cfg_ranges = [443, 1, 80, 2]\<rparr>, [2, 2, 3, 443, 1, 80, 2])"
    by code_simp
  moreover have "draw_each (stub_port \<lparr>cfg_num = 2, cfg_max_idx = 2, cfg_mask = 3, cfg_ranges = [443, 1, 80, 2]\<rparr>)
      (map word_of_nat [0..<3]) 11 = Some ([443, 443, 80], 2)"
    by code_simp
  moreover have "load_range_cfg (\<lambda>_. True) heap (Some test_csw)
      = Some (Ptr \<lparr>cfg_num = 3, cfg_max_idx = 16, cfg_mask = 31, cfg_ranges = [5, 5, 45, 11, 54, 16]\<rparr>)"
    using load_range_cfg_words[of 3 "[5, 5, 45, 11, 54, 16]" "\<lambda>_. True" heap 16 31]
    by (simp add: test_csw_def to_u32_def)
  moreover have "show_cfg 6 (Ptr \<lparr>cfg_num = 3, cfg_max_idx = 16, cfg_mask = 31, cfg_ranges = [5, 5, 45, 11, 54, 16]\<rparr>)
      = Some (\<lparr>cfg_num = 3, cfg_max_idx = 16, cfg_mask = 31, cfg_ranges = [5, 5, 45, 11, 54, 16]\<rparr>,
        [3, 16, 31, 5, 5, 45, 11, 54, 16])"
    by code_simp
  ultimately show ?thesis unfolding target_gen_test_def m by simp
qed

section \<open>The table of sockets\<close>

text \<open>The numbers \<open>socket_list_test.c\<close> prints: the answers of \<open>del_from_socket_list\<close>, and \<open>first_fd\<close> twice.\<close>

fun del_each :: "nat \<Rightarrow> socket_list \<Rightarrow> int \<Rightarrow> (socket_list \<times> int list) option" where
  "del_each 0 l fd = Some (l, [])"
| "del_each (Suc n) l fd = do {
     (l, fd) \<leftarrow> del_from_socket_list l fd;
     (l, fds) \<leftarrow> del_each n l fd;
     Some (l, fd # fds)
   }"

definition socket_list_test :: "sl_entry list \<Rightarrow> int list option" where
  "socket_list_test mem = do {
     l \<leftarrow> add_to_socket_list (init_socket_list mem 30) 0 0 0 0;
     (l, d1) \<leftarrow> del_from_socket_list l 0;
     l \<leftarrow> add_to_socket_list l 3 0 0 10;
     l \<leftarrow> add_to_socket_list l 1 0 0 20;
     l \<leftarrow> add_to_socket_list l 2 0 0 30;
     l \<leftarrow> add_to_socket_list l 12 0 0 40;
     l \<leftarrow> add_to_socket_list l 8 0 0 50;
     (l, d2) \<leftarrow> del_from_socket_list l 12;
     let fd = first_fd l;
     (l, ds) \<leftarrow> del_each 4 l fd;
     l \<leftarrow> add_to_socket_list l 13 0 0 10;
     l \<leftarrow> add_to_socket_list l 8 0 0 20;
     l \<leftarrow> add_to_socket_list l 3 0 0 30;
     (l, _) \<leftarrow> del_from_socket_list l 3;
     l \<leftarrow> add_to_socket_list l 0 0 0 30;
     let fd2 = first_fd l;
     (l, es) \<leftarrow> del_each 2 l fd2;
     Some ([d1, d2, fd] @ ds @ [fd2] @ es)
   }"

text \<open>Whatever \<open>malloc\<close> returned: the last of a list is followed by \<open>-1\<close>, and the lists are in order of insertion.\<close>

theorem socket_list_test_prints:
  assumes "length mem = 30"
  shows "socket_list_test mem = Some ([-1, 8, 3] @ [1, 2, 8, -1] @ [13] @ [8, 0])"
proof -
  have "mem \<noteq> []" using assms by auto
  with assms show ?thesis
    by (simp add: socket_list_test_def init_socket_list_def add_to_socket_list_def del_from_socket_list_def
        arr_set_def arr_get_def in_arr_def nth_list_update numeral_eq_Suc)
qed

section \<open>The queue\<close>

text \<open>
  \<open>queue_test.c\<close> as the sequence of its calls; a call that would wait is \<open>None\<close>. The second thread sleeps while the first
  runs up to the call that finds the queue full; then it takes items, which lets that call go on.
\<close>

datatype queue_call = Put int | Get

fun run_calls :: "queue_call list \<Rightarrow> int queue \<Rightarrow> (int queue \<times> int list) option" where
  "run_calls [] q = Some (q, [])"
| "run_calls (Put x # cs) q =
     (if queue_full q then None else Option.bind (queue_put_body x q) (\<lambda>(q, _). run_calls cs q))"
| "run_calls (Get # cs) q =
     (if queue_empty q then None
      else Option.bind (queue_get_body q) (\<lambda>(q, x, _). map_option (\<lambda>(q, xs). (q, x # xs)) (run_calls cs q)))"

definition first_calls :: "queue_call list" where
  "first_calls = [Put 0, Put 1, Get, Get, Put (-1), Put 0, Get] @ map Put [1..9]"

text \<open>The second thread's calls with those of the first that wait for it between them.\<close>

definition later_calls :: "queue_call list" where
  "later_calls = [Get, Put 11] @ replicate 9 Get @ [Get, Put 12, Get]"

theorem queue_test_runs:
  "\<exists>q. run_calls first_calls (init_queue (replicate 10 junk) 10 4) = Some (q, [0, 1, -1]) \<and>
    run_calls [Put 11] q = None \<and>
    map_option snd (run_calls later_calls q) = Some [0, 1, 2, 3, 4, 5, 6, 7, 8, 9, 11, 12]"
proof -
  let ?q = "\<lparr>q_item_size = 4, q_capacity = 10, q_start = 1, q_next = 1, q_items = [9, 0, 1, 2, 3, 4, 5, 6, 7, 8]\<rparr>"
  have "run_calls first_calls (init_queue (replicate 10 junk) 10 4) = Some (?q, [0, 1, -1])" by code_simp
  moreover have "run_calls [Put 11] ?q = None" by code_simp
  moreover have "map_option snd (run_calls later_calls ?q) = Some [0, 1, 2, 3, 4, 5, 6, 7, 8, 9, 11, 12]" by code_simp
  ultimately show ?thesis by blast
qed

section \<open>The result file\<close>

text \<open>\<open>cba_tester.c\<close> without an argument; \<open>d\<close> is what its block of memory holds, \<open>rs\<close> the reads of the file.\<close>

definition cba_tester :: "byte list \<Rightarrow> byte list list \<Rightarrow> cba_call list" where
  "cba_tester d rs = [C_head (ascii ''mymod''), C_defer (ascii ''not visible''), C_head (ascii ''mymod''),
     C_defer (ascii ''visible''), C_code 12, C_str (ascii ''loltest loly:55''), C_head (ascii ''mymod2''),
     C_int32 455, C_bit 555, C_data d, C_file (ascii ''bigdata.com'') rs]"

lemma bigdata_name: "ascii ''bigdata.com'' \<noteq> []"
  by (simp add: ascii_def)

text \<open>A reader that extracts files gets all of it back, without the deferred text of the head that was replaced.\<close>

theorem cba_tester_read:
  assumes "\<forall>r \<in> set rs. r \<noteq> [] \<and> length r \<le> CBA_MAXBUFF"
  shows "\<exists>ts bs. cba_run (map (Pair 0) (cba_tester d rs)) cba_thread_init = Some (ts, bs) \<and>
    read_packets rd_all rd_init bs = Some (apply_packets rd_all (spec_run (map (Pair 0) (cba_tester d rs)) (\<lambda>_. (0, []))) rd_init) \<and>
    spec_entries rd_all (spec_run (map (Pair 0) (cba_tester d rs)) (\<lambda>_. (0, []))) =
      ([(ascii ''mymod'', [(CBA_STR, 0, V_text (ascii ''visible'')), (CBA_STR, 12, V_text (ascii ''loltest loly:55''))]),
        (ascii ''mymod2'', [(CBA_INT32, 0, V_int 455), (CBA_BIT, 555, V_true), (CBA_DATA, 0, V_bytes d),
          (CBA_FILE, 0, V_text (ascii ''bigdata.com''))])], [(ascii ''bigdata.com'', concat rs)])"
proof -
  let ?cs = "map (Pair 0) (cba_tester d rs)"
  have ps: "spec_run ?cs (\<lambda>_. (0, [])) = map (Pair 0) [(0, P_head (ascii ''mymod'')), (0, P_str (ascii ''visible'')),
      (12, P_str (ascii ''loltest loly:55'')), (0, P_head (ascii ''mymod2'')), (0, P_int32 455), (555, P_bit),
      (0, P_data d), (0, P_file (ascii ''bigdata.com'') rs)]"
    by (simp add: cba_tester_def)
  have ok: "calls_ok ?cs (\<lambda>_. (0, []))"
    using assms by (simp add: cba_tester_def CBA_MAXBUFF_def CBA_DEFERBUFF_def enc_packet_def hdr_len_def ascii_def)
  have x: "\<forall>(tid, p) \<in> set (spec_run ?cs (\<lambda>_. (0, []))). extractable rd_all p"
    unfolding ps by (simp add: extractable_def)
  have "safe_name (ascii ''bigdata.com'') = ascii ''bigdata.com''" by code_simp
  moreover have "takeWhile (\<lambda>r. r \<noteq> []) rs = rs" using assms by (simp add: takeWhile_eq_all_conv)
  then have "file_content rs = concat rs" unfolding file_content_def by (rule arg_cong)
  ultimately have "spec_entries rd_all (spec_run ?cs (\<lambda>_. (0, []))) =
      ([(ascii ''mymod'', [(CBA_STR, 0, V_text (ascii ''visible'')), (CBA_STR, 12, V_text (ascii ''loltest loly:55''))]),
        (ascii ''mymod2'', [(CBA_INT32, 0, V_int 455), (CBA_BIT, 555, V_true), (CBA_DATA, 0, V_bytes d),
          (CBA_FILE, 0, V_text (ascii ''bigdata.com''))])], [(ascii ''bigdata.com'', concat rs)])"
    unfolding ps
    by (simp add: spec_entries_def apply_packet_def Let_def add_event_def rd_init_def ts_reset_def rd_result_def
        read_final_def set_ts_def ts_of_def CBA_HEAD_def CBA_STR_def CBA_DATA_def CBA_BIT_def CBA_INT32_def
        CBA_FILE_def bigdata_name)
  with file_packets[OF ok x] show ?thesis by blast
qed

section \<open>One host\<close>

text \<open>\<open>rfb_tester.c\<close> and \<open>cookie_tester.c\<close> on the arguments behind the name: what is printed, and the exit code.\<close>

definition rfb_tester :: "'w env \<Rightarrow> bool \<Rightarrow> string list \<Rightarrow> 'w mctx \<Rightarrow> (string \<times> int \<times> 'w mctx) option" where
  "rfb_tester en junk args cx =
     (case args of
        host # p # _ \<Rightarrow> do {
          port \<leftarrow> atoi p;
          (ret, cx) \<leftarrow> check_vnc en junk (parse_ip4 host) port 2000 2000 cx;
          Some (if ret = 1 then ''host ok'' else if ret = 0 then ''need auth'' else ''error'', 0, cx)
        }
      | _ \<Rightarrow> Some (''host port'', 1, cx))"

definition cookie_tester :: "'w os \<Rightarrow> string list \<Rightarrow> 'w \<Rightarrow> (string \<times> int \<times> 'w) option" where
  "cookie_tester os args w =
     (case args of
        [] \<Rightarrow> Some (''host args'', 1, w)
      | host # rest \<Rightarrow> do {
          c \<leftarrow> checkcookie_init ''cookie'' (case rest of [] \<Rightarrow> [] | cfg # _ \<Rightarrow> cfg) cookie_default;
          (keep, w) \<leftarrow> check_cookie os c (parse_ip4 host) 0 w;
          Some (if keep \<noteq> 0 then (''Check passed.'', 0, w) else (''Check failed.'', 1, w))
        })"

end
