(* ===== verification/Utils.thy ===== *)
theory Utils
  imports Prelude
begin

text \<open>
  What is left of \<^verbatim>\<open>utils.c\<close>: \<open>freadle\<close> and \<open>fwritele\<close> on hosts of either byte order, and \<open>ts_init\<close> of
  \<^verbatim>\<open>modules/ts.c\<close>. A stream to write to is the number of bytes it still takes; \<open>fwrite\<close> writes what fits
  and counts whole items.
\<close>

section \<open>Numbers in files\<close>

datatype byte_order = Little | Big

text \<open>A number of \<open>n\<close> bytes in the memory of a host.\<close>

fun in_memory :: "byte_order \<Rightarrow> nat \<Rightarrow> nat \<Rightarrow> byte list" where
  "in_memory Little n x = le_enc n x"
| "in_memory Big n x = rev (le_enc n x)"

text \<open>The swap at the end of \<open>freadle\<close>, for the sizes it knows.\<close>

fun swap_read :: "byte_order \<Rightarrow> byte list \<Rightarrow> byte list" where
  "swap_read Little x = x"
| "swap_read Big x = (if length x \<in> {2, 4, 8} then rev x else x)"

definition freadle_on :: "byte_order \<Rightarrow> nat \<Rightarrow> byte list \<Rightarrow> (byte list \<times> byte list) option" where
  "freadle_on bo n bs = map_option (\<lambda>(x, r). (swap_read bo x, r)) (freadle n bs)"

definition fwrite_one :: "byte list \<Rightarrow> nat \<Rightarrow> nat \<times> byte list" where
  "fwrite_one x room = (if length x \<le> room then 1 else 0, take room x)"

text \<open>
  \<open>while (size --> 0) ret += fwrite(--pptr, 1, 1, stream)\<close>, on the bytes before \<open>pptr\<close>. The last test
  leaves \<open>size\<close>, which is unsigned, at its largest value.
\<close>

fun write_down :: "byte list \<Rightarrow> nat \<Rightarrow> u64 \<Rightarrow> u64 \<Rightarrow> u64 \<times> u64 \<times> byte list" where
  "write_down [] room ret sz = (ret, sz - 1, [])"
| "write_down (b # bs) room ret sz =
     (case fwrite_one [b] room of (k, out) \<Rightarrow>
      case write_down bs (room - length out) (ret + of_nat k) (sz - 1) of (ret, sz, rest) \<Rightarrow>
        (ret, sz, out @ rest))"

definition fwritele :: "byte_order \<Rightarrow> byte list \<Rightarrow> nat \<Rightarrow> u64 \<times> byte list" where
  "fwritele bo x room =
     (case bo of Little \<Rightarrow> (case fwrite_one x room of (k, out) \<Rightarrow> (of_nat k, out))
      | Big \<Rightarrow> (case write_down (rev x) room 0 (of_nat (length x)) of (ret, sz, out) \<Rightarrow> (ret div sz, out)))"

lemma write_down_eq:
  "length bs < 2 ^ 64 \<Longrightarrow> write_down bs room ret (of_nat (length bs)) = (ret + of_nat (min room (length bs)), -1, take room bs)"
proof (induction bs arbitrary: room ret)
  case (Cons b bs)
  show ?case
  proof (cases room)
    case 0
    with Cons show ?thesis by (simp add: fwrite_one_def)
  next
    case (Suc k)
    with Cons show ?thesis by (simp add: fwrite_one_def min_def)
  qed
qed simp

text \<open>The bytes in a file do not depend on the host, and a host reads what any other wrote.\<close>

lemma fwritele_bytes: "n < 2 ^ 64 \<Longrightarrow> snd (fwritele bo (in_memory bo n x) room) = take room (le_enc n x)"
  using write_down_eq[of "le_enc n x" room 0] by (cases bo) (simp_all add: fwritele_def fwrite_one_def)

theorem fwritele_portable:
  assumes "n \<in> {2, 4, 8}"
  shows "freadle_on bo' n (snd (fwritele bo (in_memory bo n x) n) @ bs) = Some (in_memory bo' n x, bs)"
  using assms by (cases bo') (auto simp: fwritele_bytes freadle_on_def)

text \<open>But its answer does: on a big-endian host a complete write answers \<open>0\<close>, as a failed one does.\<close>

theorem fwritele_big_answers_0:
  assumes "length x < 2 ^ 63"
  shows "fst (fwritele Big x room) = 0"
proof -
  let ?k = "of_nat (min room (length x)) :: u64"
  have "unat ?k < 2 ^ 64 - 1"
    using assms by (simp add: unsigned_of_nat take_bit_nat_eq_self del: of_nat_min)
  moreover have "unat (-1 :: u64) = 2 ^ 64 - 1" by (simp add: unsigned_minus_1_eq_mask mask_eq_exp_minus_1)
  ultimately have "unat (?k div -1) = 0" by (simp only: unat_div_distrib div_less)
  then have "?k div -1 = 0" by (simp only: unat_eq_zero)
  with assms write_down_eq[of "rev x" room 0] show ?thesis by (simp add: fwritele_def del: of_nat_min)
qed

section \<open>Configuring the TLS library\<close>

text \<open>
  The calls of the library: the three initialisations, the two that may fail, and the options set after them.
  \<open>mbed_init\<close> is the static that remembers success; a build without TLS never sets it.
\<close>

record 'w tls_lib =
  tl_begin :: "'w \<Rightarrow> 'w"
  tl_seed :: "'w \<Rightarrow> int \<times> 'w"
  tl_defaults :: "'w \<Rightarrow> int \<times> 'w"
  tl_options :: "'w \<Rightarrow> 'w"

definition ts_init :: "'w tls_lib option \<Rightarrow> bool \<Rightarrow> 'w \<Rightarrow> int \<times> bool \<times> 'w" where
  "ts_init lib mbed_init w =
     (if mbed_init then (1, mbed_init, w)
      else case lib of None \<Rightarrow> (1, mbed_init, w)
      | Some l \<Rightarrow>
          let (r, w) = tl_seed l (tl_begin l w) in
          if r \<noteq> 0 then (0, mbed_init, w)
          else let (r, w) = tl_defaults l w in
            if r \<noteq> 0 then (0, mbed_init, w) else (1, True, tl_options l w))"

text \<open>With TLS it answers \<open>1\<close> exactly when the library is configured, and does nothing once it is.\<close>

lemma ts_init_answers: "ts_init (Some l) False w = (r, i, w') \<Longrightarrow> r = (if i then 1 else 0)"
  by (auto simp: ts_init_def Let_def split: prod.splits if_splits)

lemma ts_init_once: "ts_init lib i w = (r, True, w') \<Longrightarrow> ts_init lib True w' = (1, True, w')"
  by (simp add: ts_init_def)

end
