(* ===== verification/Queue_Monitor.thy ===== *)
theory Queue_Monitor
  imports Queues
begin

text \<open>
  \<open>queue_put\<close> and \<open>queue_get\<close> of \<^verbatim>\<open>queue.c\<close> as programs of concurrent threads: a step relation over a
  shared queue, the mutex and one program counter per thread. \<open>pthread_cond_wait\<close> releases the mutex
  and starts waiting in one step; a wake-up (by a signal, or spurious) sends the thread to reacquire
  the mutex and test again, the state it is also in when it calls. \<open>pthread_cond_signal\<close> wakes some
  waiting thread, or none when none waits, and is done after the unlock, as in the code. The items put
  and got so far are recorded in two history variables.
\<close>

section \<open>The machine\<close>

datatype 'a qpc =
    Idle
  | Put_Lock 'a | Put_Test 'a | Put_Wait 'a | Put_Unlock bool | Put_Signal bool
  | Get_Lock | Get_Test | Get_Wait | Get_Unlock 'a bool | Get_Signal 'a bool

record 'a qsys =
  qs_queue :: "'a queue"
  qs_lock :: "nat option"
  qs_pc :: "nat \<Rightarrow> 'a qpc"
  qs_put :: "'a list"
  qs_got :: "'a list"

datatype qlabel = Call nat | Run nat | Spurious nat

definition goto :: "'a qsys \<Rightarrow> nat \<Rightarrow> 'a qpc \<Rightarrow> 'a qsys" where
  "goto s t pc = s\<lparr>qs_pc := (qs_pc s)(t := pc)\<rparr>"

inductive qstep :: "qlabel \<Rightarrow> 'a qsys \<Rightarrow> 'a qsys \<Rightarrow> bool" where
  put_call: "qs_pc s t = Idle \<Longrightarrow> qstep (Call t) s (goto s t (Put_Lock x))"
| put_lock: "qs_pc s t = Put_Lock x \<Longrightarrow> qs_lock s = None \<Longrightarrow>
    qstep (Run t) s ((goto s t (Put_Test x))\<lparr>qs_lock := Some t\<rparr>)"
| put_wait: "qs_pc s t = Put_Test x \<Longrightarrow> queue_full (qs_queue s) \<Longrightarrow>
    qstep (Run t) s ((goto s t (Put_Wait x))\<lparr>qs_lock := None\<rparr>)"
| put_body: "qs_pc s t = Put_Test x \<Longrightarrow> \<not> queue_full (qs_queue s) \<Longrightarrow>
    queue_put_body x (qs_queue s) = Some (q, was_empty) \<Longrightarrow>
    qstep (Run t) s ((goto s t (Put_Unlock was_empty))\<lparr>qs_queue := q, qs_put := qs_put s @ [x]\<rparr>)"
| put_unlock: "qs_pc s t = Put_Unlock b \<Longrightarrow>
    qstep (Run t) s ((goto s t (Put_Signal b))\<lparr>qs_lock := None\<rparr>)"
| put_return: "qs_pc s t = Put_Signal b \<Longrightarrow> b \<longrightarrow> (\<forall>u. qs_pc s u \<noteq> Get_Wait) \<Longrightarrow>
    qstep (Run t) s (goto s t Idle)"
| put_signal: "qs_pc s t = Put_Signal True \<Longrightarrow> qs_pc s u = Get_Wait \<Longrightarrow>
    qstep (Run t) s (goto (goto s t Idle) u Get_Lock)"
| put_spurious: "qs_pc s t = Put_Wait x \<Longrightarrow> qstep (Spurious t) s (goto s t (Put_Lock x))"
| get_call: "qs_pc s t = Idle \<Longrightarrow> qstep (Call t) s (goto s t Get_Lock)"
| get_lock: "qs_pc s t = Get_Lock \<Longrightarrow> qs_lock s = None \<Longrightarrow>
    qstep (Run t) s ((goto s t Get_Test)\<lparr>qs_lock := Some t\<rparr>)"
| get_wait: "qs_pc s t = Get_Test \<Longrightarrow> queue_empty (qs_queue s) \<Longrightarrow>
    qstep (Run t) s ((goto s t Get_Wait)\<lparr>qs_lock := None\<rparr>)"
| get_body: "qs_pc s t = Get_Test \<Longrightarrow> \<not> queue_empty (qs_queue s) \<Longrightarrow>
    queue_get_body (qs_queue s) = Some (q, x, was_full) \<Longrightarrow>
    qstep (Run t) s ((goto s t (Get_Unlock x was_full))\<lparr>qs_queue := q, qs_got := qs_got s @ [x]\<rparr>)"
| get_unlock: "qs_pc s t = Get_Unlock x b \<Longrightarrow>
    qstep (Run t) s ((goto s t (Get_Signal x b))\<lparr>qs_lock := None\<rparr>)"
| get_return: "qs_pc s t = Get_Signal x b \<Longrightarrow> b \<longrightarrow> (\<forall>u y. qs_pc s u \<noteq> Put_Wait y) \<Longrightarrow>
    qstep (Run t) s (goto s t Idle)"
| get_signal: "qs_pc s t = Get_Signal x True \<Longrightarrow> qs_pc s u = Put_Wait y \<Longrightarrow>
    qstep (Run t) s (goto (goto s t Idle) u (Put_Lock y))"
| get_spurious: "qs_pc s t = Get_Wait \<Longrightarrow> qstep (Spurious t) s (goto s t Get_Lock)"

inductive_simps qstep_run: "qstep (Run t) s s'"

definition qsys_init :: "'a queue \<Rightarrow> 'a qsys" where
  "qsys_init q = \<lparr>qs_queue = q, qs_lock = None, qs_pc = (\<lambda>_. Idle), qs_put = [], qs_got = []\<rparr>"

inductive qreach :: "'a queue \<Rightarrow> 'a qsys \<Rightarrow> bool" for q0 where
  qreach_init: "qreach q0 (qsys_init q0)"
| qreach_step: "qreach q0 s \<Longrightarrow> qstep l s s' \<Longrightarrow> qreach q0 s'"

text \<open>What a thread is doing, read off its program counter.\<close>

fun holds_lock :: "'a qpc \<Rightarrow> bool" where
  "holds_lock (Put_Test x) = True"
| "holds_lock (Put_Unlock b) = True"
| "holds_lock Get_Test = True"
| "holds_lock (Get_Unlock x b) = True"
| "holds_lock _ = False"

fun putting :: "'a qpc \<Rightarrow> bool" where
  "putting (Put_Lock x) = True"
| "putting (Put_Test x) = True"
| "putting (Put_Wait x) = True"
| "putting (Put_Unlock b) = True"
| "putting (Put_Signal b) = True"
| "putting _ = False"

fun getting :: "'a qpc \<Rightarrow> bool" where
  "getting Get_Lock = True"
| "getting Get_Test = True"
| "getting Get_Wait = True"
| "getting (Get_Unlock x b) = True"
| "getting (Get_Signal x b) = True"
| "getting _ = False"

lemma goto_simps [simp]:
  "qs_pc (goto s t pc) = (qs_pc s)(t := pc)" "qs_queue (goto s t pc) = qs_queue s"
  "qs_lock (goto s t pc) = qs_lock s" "qs_put (goto s t pc) = qs_put s" "qs_got (goto s t pc) = qs_got s"
  by (simp_all add: goto_def)

section \<open>Mutual exclusion and first-in first-out order, for any number of threads\<close>

definition qinv :: "nat \<Rightarrow> 'a qsys \<Rightarrow> bool" where
  "qinv c s \<longleftrightarrow> wf_queue (qs_queue s) \<and> nat (q_capacity (qs_queue s)) = c \<and>
     (\<forall>t. holds_lock (qs_pc s t) \<longleftrightarrow> qs_lock s = Some t) \<and>
     qs_put s = qs_got s @ q_list (qs_queue s)"

lemma qinv_init: "wf_queue q \<Longrightarrow> q_list q = [] \<Longrightarrow> qinv (nat (q_capacity q)) (qsys_init q)"
  by (simp add: qinv_def qsys_init_def)

lemma qinvD:
  assumes "qinv c s"
  shows "wf_queue (qs_queue s)" "\<And>t. holds_lock (qs_pc s t) \<longleftrightarrow> qs_lock s = Some t"
    "qs_put s = qs_got s @ q_list (qs_queue s)"
  using assms by (simp_all add: qinv_def)

text \<open>Moving a thread without taking or releasing the mutex, and the two moves that do.\<close>

lemma qinv_goto:
  "qinv c s \<Longrightarrow> holds_lock pc = holds_lock (qs_pc s t) \<Longrightarrow> qinv c (goto s t pc)"
  by (auto simp: qinv_def)

lemma qinv_acquire:
  "qinv c s \<Longrightarrow> qs_lock s = None \<Longrightarrow> holds_lock pc \<Longrightarrow> qinv c ((goto s t pc)\<lparr>qs_lock := Some t\<rparr>)"
  by (auto simp: qinv_def)

lemma qinv_release:
  "qinv c s \<Longrightarrow> holds_lock (qs_pc s t) \<Longrightarrow> \<not> holds_lock pc \<Longrightarrow> qinv c ((goto s t pc)\<lparr>qs_lock := None\<rparr>)"
  by (auto simp: qinv_def)

lemma qstep_inv: "qstep l s s' \<Longrightarrow> qinv c s \<Longrightarrow> qinv c s'"
proof (induction rule: qstep.induct)
  case (put_body s t x q b)
  note I = qinvD[OF put_body.prems]
  have "wf_queue q \<and> q_list q = q_list (qs_queue s) @ [x] \<and> nat (q_capacity q) = nat (q_capacity (qs_queue s))"
    using ring.putD[OF I(1) put_body.hyps(2,3)] by simp
  then show ?case using put_body.prems put_body.hyps(1) I(2)[of t] by (auto simp: qinv_def)
next
  case (get_body s t q x b)
  note I = qinvD[OF get_body.prems]
  have "wf_queue q \<and> q_list (qs_queue s) = x # q_list q \<and> nat (q_capacity q) = nat (q_capacity (qs_queue s))"
    using ring.getD[OF I(1) get_body.hyps(2,3)] by simp
  then show ?case using get_body.prems get_body.hyps(1) I(2)[of t] by (auto simp: qinv_def)
next
  case (put_signal s t u)
  then have "qinv c (goto s t Idle)" by (intro qinv_goto) simp_all
  then show ?case by (rule qinv_goto) (simp add: put_signal.hyps)
next
  case (get_signal s t x u y)
  then have "qinv c (goto s t Idle)" by (intro qinv_goto) simp_all
  then show ?case by (rule qinv_goto) (simp add: get_signal.hyps)
qed (simp_all add: qinv_goto qinv_acquire qinv_release)

lemma qreach_inv:
  assumes "qreach q0 s" "wf_queue q0" "q_list q0 = []"
  shows "qinv (nat (q_capacity q0)) s"
  using assms by (induction rule: qreach.induct) (auto intro: qinv_init qstep_inv)

section \<open>One producer and one consumer: no lost wake-up\<close>

definition roles :: "nat \<Rightarrow> nat \<Rightarrow> 'a qsys \<Rightarrow> bool" where
  "roles p c s \<longleftrightarrow> p \<noteq> c \<and> (\<forall>t. putting (qs_pc s t) \<longrightarrow> t = p) \<and> (\<forall>t. getting (qs_pc s t) \<longrightarrow> t = c)"

inductive qreach_pc :: "nat \<Rightarrow> nat \<Rightarrow> 'a queue \<Rightarrow> 'a qsys \<Rightarrow> bool" for p c q0 where
  qreach_pc_init: "p \<noteq> c \<Longrightarrow> qreach_pc p c q0 (qsys_init q0)"
| qreach_pc_step: "qreach_pc p c q0 s \<Longrightarrow> qstep l s s' \<Longrightarrow> roles p c s' \<Longrightarrow> qreach_pc p c q0 s'"

text \<open>A waiting thread waits for something that holds, or the wake-up is on its way.\<close>

definition wake_inv :: "nat \<Rightarrow> nat \<Rightarrow> 'a qsys \<Rightarrow> bool" where
  "wake_inv p c s \<longleftrightarrow>
     (qs_pc s c = Get_Wait \<longrightarrow> queue_empty (qs_queue s) \<or>
        qs_pc s p = Put_Unlock True \<or> qs_pc s p = Put_Signal True) \<and>
     (\<forall>x. qs_pc s p = Put_Wait x \<longrightarrow> queue_full (qs_queue s) \<or>
        (\<exists>y. qs_pc s c = Get_Unlock y True \<or> qs_pc s c = Get_Signal y True))"

lemma qreach_pc_reach: "qreach_pc p c q0 s \<Longrightarrow> qreach q0 s"
  by (induction rule: qreach_pc.induct) (auto intro: qreach.intros)

lemma qreach_pc_roles: "qreach_pc p c q0 s \<Longrightarrow> roles p c s"
  by (induction rule: qreach_pc.induct) (auto simp: roles_def qsys_init_def)

lemma qstep_wake:
  "qstep l s s' \<Longrightarrow> qinv n s \<Longrightarrow> roles p c s \<Longrightarrow> roles p c s' \<Longrightarrow> wake_inv p c s \<Longrightarrow> wake_inv p c s'"
proof (induction rule: qstep.induct)
  case (put_body s t x q b)
  have t: "t = p" "p \<noteq> c" using put_body by (auto simp: roles_def)
  have "b \<longleftrightarrow> queue_empty (qs_queue s)"
    using ring.putD[OF qinvD(1)[OF put_body.prems(1)] put_body.hyps(2,3)] by simp
  with t put_body show ?case by (auto simp: wake_inv_def)
next
  case (get_body s t q x b)
  have t: "t = c" "p \<noteq> c" using get_body by (auto simp: roles_def)
  have "b \<longleftrightarrow> queue_full (qs_queue s)"
    using ring.getD[OF qinvD(1)[OF get_body.prems(1)] get_body.hyps(2,3)] by simp
  with t get_body show ?case by (auto simp: wake_inv_def)
next
  case (put_signal s t u)
  then have "getting (qs_pc s u)" "putting (qs_pc s t)" by simp_all
  then have "u = c" "t = p" "p \<noteq> c" using put_signal.prems(2) by (auto simp: roles_def)
  with put_signal show ?case by (auto simp: wake_inv_def)
next
  case (get_signal s t x u y)
  then have "putting (qs_pc s u)" "getting (qs_pc s t)" by simp_all
  then have "u = p" "t = c" "p \<noteq> c" using get_signal.prems(2) by (auto simp: roles_def)
  with get_signal show ?case by (auto simp: wake_inv_def)
qed (auto simp: wake_inv_def roles_def split: if_splits)

lemma qreach_pc_wake:
  assumes "qreach_pc p c q0 s" "wf_queue q0" "q_list q0 = []"
  shows "wake_inv p c s"
  using assms
proof (induction rule: qreach_pc.induct)
  case qreach_pc_init
  then show ?case by (simp add: wake_inv_def qsys_init_def)
next
  case (qreach_pc_step s l s')
  then show ?case
    using qstep_wake qreach_inv[OF qreach_pc_reach] qreach_pc_roles by metis
qed

text \<open>A thread that is neither idle nor waiting, nor blocked on the mutex, can run.\<close>

lemma run_enabled:
  assumes inv: "qinv n s" and pc: "qs_pc s t \<noteq> Idle" "qs_pc s t \<noteq> Get_Wait" "\<forall>x. qs_pc s t \<noteq> Put_Wait x"
    and lk: "holds_lock (qs_pc s t) \<or> qs_lock s = None"
  shows "\<exists>s'. qstep (Run t) s s'"
proof (cases "qs_pc s t")
  case (Put_Test x)
  show ?thesis
  proof (cases "queue_full (qs_queue s)")
    case False
    then obtain q b where "queue_put_body x (qs_queue s) = Some (q, b)"
      using ring.put_ok[OF qinvD(1)[OF inv]] by blast
    with Put_Test False show ?thesis by (blast intro: qstep.put_body)
  qed (use Put_Test in \<open>blast intro: qstep.put_wait\<close>)
next
  case Get_Test
  show ?thesis
  proof (cases "queue_empty (qs_queue s)")
    case False
    then obtain q x b where "queue_get_body (qs_queue s) = Some (q, x, b)"
      using ring.get_ok[OF qinvD(1)[OF inv]] by blast
    with Get_Test False show ?thesis by (blast intro: qstep.get_body)
  qed (use Get_Test in \<open>blast intro: qstep.get_wait\<close>)
next
  case (Put_Signal b)
  show ?thesis
  proof (cases "b \<longrightarrow> (\<forall>u. qs_pc s u \<noteq> Get_Wait)")
    case True
    with Put_Signal show ?thesis by (intro exI, rule qstep.put_return)
  next
    case False
    then obtain u where "b" "qs_pc s u = Get_Wait" by auto
    with Put_Signal have "qstep (Run t) s (goto (goto s t Idle) u Get_Lock)"
      by (intro qstep.put_signal) simp_all
    then show ?thesis ..
  qed
next
  case (Get_Signal x b)
  show ?thesis
  proof (cases "b \<longrightarrow> (\<forall>u y. qs_pc s u \<noteq> Put_Wait y)")
    case True
    with Get_Signal show ?thesis by (intro exI, rule qstep.get_return)
  next
    case False
    then obtain u y where "b" "qs_pc s u = Put_Wait y" by auto
    with Get_Signal have "qstep (Run t) s (goto (goto s t Idle) u (Put_Lock y))"
      by (intro qstep.get_signal) simp_all
    then show ?thesis ..
  qed
next
  case (Put_Lock x)
  with lk have "qs_lock s = None" by simp
  with Put_Lock show ?thesis by (intro exI, rule qstep.put_lock)
next
  case (Put_Unlock b)
  then show ?thesis by (intro exI, rule qstep.put_unlock)
next
  case Get_Lock
  with lk have "qs_lock s = None" by simp
  with Get_Lock show ?thesis by (intro exI, rule qstep.get_lock)
next
  case (Get_Unlock x b)
  then show ?thesis by (intro exI, rule qstep.get_unlock)
qed (use pc in simp_all)

text \<open>Whoever holds the mutex can run.\<close>

lemma lock_holder_runs: "qinv n s \<Longrightarrow> qs_lock s = Some t \<Longrightarrow> \<exists>s'. qstep (Run t) s s'"
  using qinvD(2)[of n s t] by (intro run_enabled) auto

lemma stuck_only_waiting:
  assumes r: "qreach_pc p c q0 s" and q0: "wf_queue q0" "q_list q0 = []"
    and stuck: "\<And>t s'. \<not> qstep (Run t) s s'"
  shows "qs_lock s = None" "qs_pc s p = Idle \<or> (\<exists>x. qs_pc s p = Put_Wait x)"
    "qs_pc s c = Idle \<or> qs_pc s c = Get_Wait"
proof -
  have inv: "qinv (nat (q_capacity q0)) s" by (rule qreach_inv[OF qreach_pc_reach[OF r] q0])
  show l: "qs_lock s = None" using lock_holder_runs[OF inv] stuck by (cases "qs_lock s") auto
  have w: "qs_pc s t = Idle \<or> qs_pc s t = Get_Wait \<or> (\<exists>x. qs_pc s t = Put_Wait x)" for t
    using run_enabled[OF inv, of t] l stuck[of t] by metis
  have ro: "p \<noteq> c" "getting (qs_pc s p) \<longrightarrow> p = c" "putting (qs_pc s c) \<longrightarrow> c = p"
    using qreach_pc_roles[OF r] by (auto simp: roles_def)
  show "qs_pc s p = Idle \<or> (\<exists>x. qs_pc s p = Put_Wait x)" using w[of p] ro by auto
  show "qs_pc s c = Idle \<or> qs_pc s c = Get_Wait" using w[of c] ro by auto
qed

section \<open>What the callers rely on\<close>

text \<open>C24: for any number of threads and any interleaving, the queue is first-in first-out and
  bounded, and the mutex is exclusive: what has been got is a prefix of what has been put, the rest is
  in the queue, never more than its capacity, and no two threads are inside the critical section.\<close>

theorem queue_fifo_safe:
  assumes "qreach q0 s" "wf_queue q0" "q_list q0 = []"
  shows "qs_put s = qs_got s @ q_list (qs_queue s) \<and>
    length (q_list (qs_queue s)) \<le> nat (q_capacity q0) \<and>
    (\<forall>t u. holds_lock (qs_pc s t) \<and> holds_lock (qs_pc s u) \<longrightarrow> t = u)"
proof -
  note I = qreach_inv[OF assms]
  show ?thesis using qinvD[OF I] I q_length_le[OF qinvD(1)[OF I]] by (auto simp: qinv_def)
qed

abbreviation (input) queue2 :: "nat queue" where
  "queue2 \<equiv> init_queue [0, 0] 2 8"

lemma queue2_ok: "wf_queue queue2" "q_list queue2 = []"
  using wf_init_queue[of 2 "[0, 0 :: nat]" 8] by simp_all

lemma reach_put_test:
  defines "s \<equiv> (goto (goto (qsys_init queue2) 0 (Put_Lock 7)) 0 (Put_Test 7))\<lparr>qs_lock := Some 0\<rparr>"
  shows "qreach_pc 0 1 queue2 s"
proof -
  have "qreach_pc 0 1 queue2 (qsys_init queue2)" by (rule qreach_pc_init) simp
  moreover have "qstep (Call 0) (qsys_init queue2) (goto (qsys_init queue2) 0 (Put_Lock 7))"
    by (rule put_call) (simp add: qsys_init_def)
  ultimately have "qreach_pc 0 1 queue2 (goto (qsys_init queue2) 0 (Put_Lock 7))"
    by (rule qreach_pc_step) (auto simp: roles_def qsys_init_def split: if_splits)
  moreover have "qstep (Run 0) (goto (qsys_init queue2) 0 (Put_Lock 7)) s"
    unfolding s_def by (rule put_lock) (simp_all add: qsys_init_def)
  ultimately show ?thesis
    by (rule qreach_pc_step) (auto simp: s_def roles_def qsys_init_def split: if_splits)
qed

theorem queue_fifo_safe_witness:
  "\<exists>s. qreach queue2 s \<and> qs_pc s 0 = Put_Test (7 :: nat) \<and>
     (\<forall>u. holds_lock (qs_pc s u) \<longrightarrow> u = 0) \<and> qs_put s = qs_got s @ q_list (qs_queue s)"
proof -
  define s where "s = (goto (goto (qsys_init queue2) 0 (Put_Lock 7)) 0 (Put_Test 7))\<lparr>qs_lock := Some 0\<rparr>"
  have r: "qreach queue2 s" using qreach_pc_reach[OF reach_put_test] by (simp add: s_def)
  have pc: "qs_pc s 0 = Put_Test 7" by (simp add: s_def)
  note safe = queue_fifo_safe[OF r queue2_ok]
  have "\<forall>u. holds_lock (qs_pc s u) \<longrightarrow> u = 0" using safe pc by (metis holds_lock.simps(1))
  with safe r pc show ?thesis by blast
qed

text \<open>C25: with one producer and one consumer, as in the scanner, no wake-up is lost although a
  signal is sent only on the transition from empty (or from full). When no thread can run, nobody
  holds the mutex, the consumer is idle or waits on an empty queue, the producer is idle or waits on a
  full one, and so they do not both wait: there is no deadlock.\<close>

theorem queue_no_lost_wakeup:
  assumes "qreach_pc p c q0 s" "wf_queue q0" "q_list q0 = []"
    and "\<forall>t s'. \<not> qstep (Run t) s s'"
  shows "qs_lock s = None \<and>
    (qs_pc s p = Idle \<or> (\<exists>x. qs_pc s p = Put_Wait x) \<and> length (q_list (qs_queue s)) = nat (q_capacity q0)) \<and>
    (qs_pc s c = Idle \<or> qs_pc s c = Get_Wait \<and> q_list (qs_queue s) = []) \<and>
    (qs_pc s p = Idle \<or> qs_pc s c = Idle)"
proof -
  have inv: "qinv (nat (q_capacity q0)) s" by (rule qreach_inv[OF qreach_pc_reach[OF assms(1)] assms(2,3)])
  note w = stuck_only_waiting[OF assms(1-3)] and I = qinvD(1)[OF inv]
  have wk: "wake_inv p c s" by (rule qreach_pc_wake[OF assms(1-3)])
  have p: "qs_pc s p = Idle \<or> (\<exists>x. qs_pc s p = Put_Wait x)" and c: "qs_pc s c = Idle \<or> qs_pc s c = Get_Wait"
    and l: "qs_lock s = None" using w assms(4) by auto
  have pf: "\<exists>x. qs_pc s p = Put_Wait x \<Longrightarrow> queue_full (qs_queue s)"
    using wk c by (auto simp: wake_inv_def)
  have ce: "qs_pc s c = Get_Wait \<Longrightarrow> queue_empty (qs_queue s)"
    using wk p by (auto simp: wake_inv_def)
  have cap: "nat (q_capacity (qs_queue s)) = nat (q_capacity q0)" using inv by (simp add: qinv_def)
  have "\<not> ((\<exists>x. qs_pc s p = Put_Wait x) \<and> qs_pc s c = Get_Wait)"
    using pf ce ring.not_full_and_empty[OF I] by blast
  then have both: "qs_pc s p = Idle \<or> qs_pc s c = Idle" using p c by blast
  have pw: "\<exists>x. qs_pc s p = Put_Wait x \<Longrightarrow> length (q_list (qs_queue s)) = nat (q_capacity q0)"
    using pf ring.full_iff[OF I] cap by simp
  have cw: "qs_pc s c = Get_Wait \<Longrightarrow> q_list (qs_queue s) = []" using ce ring.empty_iff[OF I] by simp
  show ?thesis using p c l pw cw both by blast
qed

theorem queue_no_lost_wakeup_witness:
  "qreach_pc 0 1 queue2 (qsys_init queue2) \<and> qs_lock (qsys_init queue2) = None"
proof -
  have r: "qreach_pc 0 1 queue2 (qsys_init queue2)" by (rule qreach_pc_init) simp
  have "\<forall>t s'. \<not> qstep (Run t) (qsys_init queue2) s'" by (simp add: qstep_run) (simp add: qsys_init_def)
  with queue_no_lost_wakeup[OF r queue2_ok] r show ?thesis by blast
qed

end
