(* ===== verification/Cba_Limits.thy ===== *)
theory Cba_Limits
  imports Cba_Roundtrip
begin

unbundle bit_operations_syntax

text \<open>
  Where the result format breaks: the inputs and interleavings outside the hypotheses of the round
  trip, and what the code does there.
\<close>

section \<open>The deferred buffer\<close>

text \<open>C31: a deferred string that meets an almost full deferred buffer is not truncated but written out
  of bounds: the length computed for it is negative, and becomes a 16-bit length above 65000.\<close>

theorem defer_str_overflow:
  assumes "wr_rel tid t (code, pend)" "pend \<noteq> []"
    and "CBA_DEFERBUFF < length (enc_packets tid pend) + hdr_len code + 7"
  shows "cba_defer_str True s t = None"
proof -
  define off where "off = length (enc_packets tid pend)"
  define len :: u16 where "len = word_of_int (int CBA_DEFERBUFF - int off - int (hdr_len code) - 6 - 1)"
  have t: "thread_id t = tid" "next_code t = code" "length (deferred_buffer t) = CBA_DEFERBUFF"
    "deferred_bytes t = int off" "off \<noteq> 0"
    using assms by (simp_all add: wr_rel_def off_def)
  have full: "off \<le> CBA_DEFERBUFF"
  proof -
    have "take off (deferred_buffer t) = enc_packets tid pend"
      using assms by (simp add: wr_rel_def off_def)
    from arg_cong[OF this, of length] t(3) show ?thesis by (simp add: off_def)
  qed
  let ?d = "int CBA_DEFERBUFF - int off - int (hdr_len code) - 7"
  have d: "?d < 0" "- 13 \<le> ?d" using assms(3) full by (auto simp: off_def hdr_len_def)
  have "len = word_of_int ?d" unfolding len_def by (rule arg_cong[where f = word_of_int]) simp
  then have "uint len = ?d mod 65536" by (simp only: uint_word_of_int) simp
  also have "\<dots> = (?d + 65536) mod 65536" by (rule mod_add_self2[symmetric])
  also have "\<dots> = ?d + 65536" using d by (intro mod_pos_pos_trivial) simp_all
  finally have big: "65523 \<le> uint len" using d by simp
  have "cba_defer_str True s t = None" if "arr_put (deferred_buffer t) (int off) h = Some db"
    "h = enc_hdr tid code CBA_STR" for db h
  proof -
    have "length db = CBA_DEFERBUFF" using that(1) t(3) by (auto simp: arr_put_def split: if_splits)
    then have "arr_set db (int off + int (hdr_len code) + int (unat len) - 1) 0 = None"
      using big by (simp add: arr_set_def in_arr_def CBA_DEFERBUFF_def)
    moreover have "int CBA_DEFERBUFF - int off - int (hdr_len code) - 6 \<le> int (length (take (CBA_MAXBUFF - 1) s))"
      using d by simp
    ultimately show ?thesis using t that
      by (simp add: cba_defer_str_def write_str_buff_def write_hdr_enc len_def Let_def)
  qed
  moreover have "cba_defer_str True s t = None"
    if "arr_put (deferred_buffer t) (int off) (enc_hdr tid code CBA_STR) = None"
    using t that by (simp add: cba_defer_str_def write_str_buff_def write_hdr_enc Let_def)
  ultimately show ?thesis
    by (cases "arr_put (deferred_buffer t) (int off) (enc_hdr tid code CBA_STR)") simp_all
qed

theorem defer_str_overflow_witness:
  "\<exists>t io. cba_run [(1, C_head [0x61]), (1, C_defer (replicate 2034 0x78))] cba_thread_init = Some (t, io) \<and>
     cba_defer_str True [0x79] (t 1) = None"
proof -
  let ?s = "replicate 2034 (0x78 :: byte)"
  obtain t1 where t1: "cba_head True [0x61] (cba_thread_init 1) = Some t1"
    "wr_rel 1 t1 (0, [(0, P_head [0x61])])"
    using head_refines[OF wr_rel_init, of "[0x61]" 1] by auto
  have "call_ok 1 (C_defer ?s) (0, [(0, P_head [0x61])])"
    by (simp add: CBA_MAXBUFF_def CBA_DEFERBUFF_def enc_packet_def hdr_len_def)
  then obtain t2 where t2: "cba_defer_str True ?s t1 = Some (t2, [])"
    "wr_rel 1 t2 (0, [(0, P_head [0x61]), (0, P_str ?s)])"
    using defer_refines[OF t1(2), of ?s] by auto
  have "cba_defer_str True [0x79] t2 = None"
    by (rule defer_str_overflow[OF t2(2)]) (simp_all add: enc_packet_def CBA_DEFERBUFF_def hdr_len_def)
  with t1 t2 show ?thesis by simp
qed

text \<open>An empty deferred string destroys its own header: the terminator written at \<open>pos+length-1\<close>
  falls on the type byte, so the packet is read as an empty head with a stray byte behind it, and the
  events that follow are lost. Here a thread defers an empty string and then sets bit 7.\<close>

theorem defer_empty_corrupts:
  "\<exists>ts bs. cba_run [(1, C_head [0x61]), (1, C_defer []), (1, C_bit 7)] cba_thread_init = Some (ts, bs) \<and>
     bs = [1, 0, 1, 0x61] @ [1, 0, 0, 0] @ enc_packet 1 (7, P_bit) \<and>
     cba_entries rd_all (cba_open_file 0 @ bs) \<noteq>
       Some (spec_entries rd_all (spec_run [(1, C_head [0x61]), (1, C_defer []), (1, C_bit 7)] (\<lambda>_. (0, []))))"
proof -
  obtain t where "cba_run [(1, C_head [0x61]), (1, C_defer []), (1, C_bit 7)] cba_thread_init
      = Some (t, [1, 0, 1, 0x61] @ [1, 0, 0, 0] @ enc_packet 1 (7, P_bit))"
    by (simp add: cba_thread_init_def cba_head_def write_hdr_buff_def arr_put_def arr_set_def in_arr_def
        cba_defer_str_def write_str_buff_def cba_bit_def cba_code_def cba_flush_def CBA_DEFERBUFF_def
        CBA_MAXBUFF_def cba_types enc_packet_def enc_hdr_def le16_def numeral_2_eq_2 Let_def)
  moreover have "cba_entries rd_all (cba_open_file 0 @ [1, 0, 1, 0x61] @ [1, 0, 0, 0] @ enc_packet 1 (7, P_bit))
      \<noteq> Some (spec_entries rd_all (spec_run [(1, C_head [0x61]), (1, C_defer []), (1, C_bit 7)] (\<lambda>_. (0, []))))"
    by code_simp
  ultimately show ?thesis by blast
qed

section \<open>Files\<close>

text \<open>C32: a file packet the reader does not extract is not skipped: the reader reads the length of the
  name but not the name, and takes its first byte for the thread id of the next packet. So the packets
  of the file are read from inside the name on.\<close>

theorem unextracted_file_desync:
  assumes "rd_idle r" "body_ok (P_file n rs)" "\<not> rc_extract c (ts_module (ts_of r tid))"
  shows "read_packet c r (enc_packet tid (code, P_file n rs) @ bs) =
    Some (set_ts tid ((ts_of r tid)\<lparr>ts_cur_code := code, ts_cur_type := CBA_FILE,
            ts_stream := Some Ignore\<rparr>) r, [],
          n @ concat (file_chunks tid rs) @ bs)"
proof -
  let ?ts = "ts_of r tid"
  have "read_body c CBA_FILE code ?ts (enc_body tid (P_file n rs) @ bs)
      = Some (?ts\<lparr>ts_cur_code := code, ts_cur_type := CBA_FILE, ts_stream := Some Ignore\<rparr>, [],
          n @ concat (file_chunks tid rs) @ bs)"
    using assms(2,3) by (simp add: read_body_def Let_def cba_types)
  moreover have "ts_stream ?ts = None" using assms(1) by (simp add: rd_idle_def)
  ultimately show ?thesis
    using read_packet_hdr[of r tid c code "P_file n rs" "enc_body tid (P_file n rs) @ bs"]
    by (simp add: enc_packet_def)
qed

theorem unextracted_file_desync_witness:
  "\<exists>r. read_packet \<lparr>rc_filter = None, rc_extract = (\<lambda>_. False), rc_open = (\<lambda>_. True)\<rparr> rd_init
     (enc_packet 1 (0, P_file [0x61] [[5]])) = Some (r, [], 0x61 # concat (file_chunks 1 [[5]]))"
  using unextracted_file_desync[OF rd_init_idle, of "[0x61]" "[[5]]"
      "\<lparr>rc_filter = None, rc_extract = (\<lambda>_. False), rc_open = (\<lambda>_. True)\<rparr>" 1 0 "[]"]
  by simp

text \<open>The clean-up of an extracted file name removes every \<open>..\<close>, but only one leading slash, so
  a name that starts with two keeps an absolute path, which \<open>os.path.join\<close> takes as it is.\<close>

fun has_dots :: "byte list \<Rightarrow> bool" where
  "has_dots (a # b # s) \<longleftrightarrow> a = 0x2E \<and> b = 0x2E \<or> has_dots (b # s)"
| "has_dots _ \<longleftrightarrow> False"

lemma drop_dots_no_dots: "\<not> has_dots (drop_dots s) \<and> (\<forall>b s'. s = b # s' \<longrightarrow>
    \<not> (b \<noteq> 0x2E \<and> drop_dots s \<noteq> [] \<and> hd (drop_dots s) \<noteq> b))"
proof (induction s rule: drop_dots.induct)
  case (1 a b s)
  show ?case
  proof (cases "a = 0x2E \<and> b = 0x2E")
    case True
    with 1 show ?thesis by simp
  next
    case False
    then have IH: "\<not> has_dots (drop_dots (b # s))" using 1 by blast
    show ?thesis
    proof (cases "drop_dots (b # s)")
      case (Cons c t)
      have "a = 0x2E \<longrightarrow> c = b" using 1(2)[OF False] False Cons by auto
      with False IH Cons show ?thesis by auto
    qed (use False in auto)
  qed
qed simp_all

theorem safe_name_dots:
  "\<not> has_dots (safe_name s) \<and> safe_name (0x2F # 0x2F # ascii ''etc/x'') = 0x2F # ascii ''etc/x''"
proof
  have "\<not> has_dots xs \<Longrightarrow> \<not> has_dots (tl xs)" for xs by (cases xs rule: has_dots.cases) auto
  then show "\<not> has_dots (safe_name s)"
    using drop_dots_no_dots[of s] by (auto simp: safe_name_def Let_def)
  show "safe_name (0x2F # 0x2F # ascii ''etc/x'') = 0x2F # ascii ''etc/x''" by code_simp
qed

section \<open>Interleaving\<close>

text \<open>
  The write calls of an operation. A locked block excludes other locked blocks, but a write made
  without the lock can fall between any two of its writes.
\<close>

fun writes_of :: "cba_io list \<Rightarrow> byte list list" where
  "writes_of [] = []"
| "writes_of (Locked ws # ios) = ws @ writes_of ios"
| "writes_of (Unlocked w # ios) = w # writes_of ios"
| "writes_of (Print p # ios) = writes_of ios"
| "writes_of (Saved p d # ios) = writes_of ios"

inductive lock_interleave :: "cba_io list \<Rightarrow> cba_io list \<Rightarrow> byte list \<Rightarrow> bool" where
  li_done: "lock_interleave [] [] []"
| li_locked1: "lock_interleave as bs out \<Longrightarrow> lock_interleave (Locked ws # as) bs (concat ws @ out)"
| li_locked2: "lock_interleave as bs out \<Longrightarrow> lock_interleave as (Locked ws # bs) (concat ws @ out)"
| li_unlocked1: "lock_interleave as bs out \<Longrightarrow> lock_interleave (Unlocked w # as) bs (w @ out)"
| li_unlocked2: "lock_interleave as bs out \<Longrightarrow> lock_interleave as (Unlocked w # bs) (w @ out)"
| li_inside: "lock_interleave (Locked ws2 # as) bs out \<Longrightarrow>
    lock_interleave (Locked (ws1 @ ws2) # as) (Unlocked w # bs) (concat ws1 @ w @ out)"
| li_print1: "lock_interleave as bs out \<Longrightarrow> lock_interleave (Print p # as) bs out"
| li_print2: "lock_interleave as bs out \<Longrightarrow> lock_interleave as (Print p # bs) out"
| li_saved1: "lock_interleave as bs out \<Longrightarrow> lock_interleave (Saved p d # as) bs out"
| li_saved2: "lock_interleave as bs out \<Longrightarrow> lock_interleave as (Saved p d # bs) out"

text \<open>\<open>cba_flush\<close> writes the deferred head without \<open>fd_lock\<close> (the comment on \<open>do_write\<close> demands the
  lock). While thread 1 writes data, thread 2's head can fall between a chunk's thread id and its
  length, and the file is no longer readable as what the threads wrote: thread 1's data is lost.\<close>

theorem flush_without_lock_corrupts:
  "\<exists>t1 io1 t2 io2 out.
     cba_data True [5, 6] (cba_thread_init 1) = Some (t1, io1) \<and>
     cba_head True [0x62] (cba_thread_init 2) = Some t2 \<and>
     (\<exists>t2'. cba_flush True t2 = Some (t2', io2)) \<and>
     lock_interleave io1 io2 out \<and>
     cba_entries rd_all (cba_open_file 0 @ out) \<noteq>
       Some ([([], [(CBA_DATA, 0, V_bytes [5, 6])])], [])"
proof -
  let ?hdr = "[1, 3] :: byte list"
  let ?ws2 = "[[2, 0], [5, 6], [1], [0, 0]] :: byte list list"
  have le: "le16 2 = [2, 0]" "le16 0 = [0, 0]" by code_simp+
  obtain t1 where d: "cba_data True [5, 6] (cba_thread_init 1)
      = Some (t1, [Locked ([?hdr, [1]] @ ?ws2)])"
    by (simp add: cba_data_def cba_flush_def cba_thread_init_def write_hdr_buff_def cba_types
        data_chunks.simps CBA_MAXBUFF_def le Let_def)
  obtain t2 where h: "cba_head True [0x62] (cba_thread_init 2) = Some t2"
    "wr_rel 2 t2 (0, [(0, P_head [0x62])])"
    using head_refines[OF wr_rel_init, of "[0x62]" 2] by auto
  then have f: "cba_flush True t2 = Some (t2\<lparr>deferred_bytes := 0\<rparr>, [Unlocked [2, 0, 1, 0x62]])"
    using flush_refines[OF h(2)] by (simp add: cba_flush_def wr_rel_def enc_packet_def enc_hdr_def
        cba_types split: if_splits)
  let ?out = "concat [?hdr, [1]] @ [2, 0, 1, 0x62] @ concat ?ws2 @ []"
  have "lock_interleave [Locked ([?hdr, [1]] @ ?ws2)] [Unlocked [2, 0, 1, 0x62]] ?out"
    by (intro li_inside li_locked1 li_done)
  moreover have "cba_entries rd_all (cba_open_file 0 @ ?out) \<noteq>
      Some ([([], [(CBA_DATA, 0, V_bytes [5, 6])])], [])" by code_simp
  ultimately show ?thesis using d h(1) f by blast
qed

end
