(* ===== verification/Args_Props.thy ===== *)
theory Args_Props
  imports Args
begin

text \<open>
  What \<open>parse_args\<close> guarantees: numeric options are ints of C, \<open>-of\<close> has no effect, and every state of
  the options that can be asked for is reached by the command line that spells it out.
\<close>

section \<open>Types\<close>

definition ints_ok :: "options \<Rightarrow> bool" where
  "ints_ok p \<longleftrightarrow> int_ok (packets_per_second p) \<and> int_ok (max_pending_results p) \<and>
     int_ok (max_pending_sockets p) \<and> int_ok (connect_timeout p) \<and> int_ok (socket_list_excess p) \<and>
     int_ok (auto_interval p) \<and> int_ok (connect_interval p) \<and> int_ok (bind_port p) \<and>
     int_ok (bind_max_retries p) \<and> int_ok (canary_port p) \<and> int_ok (canary_after p) \<and>
     int_ok (stats_every p) \<and> int_ok (stats_every_cba p)"

lemma cint_eq_Some: "cint x = Some y \<longleftrightarrow> int_ok x \<and> y = x"
  by (auto simp: cint_def)

lemma atoi_ok: "atoi s = Some i \<Longrightarrow> int_ok i"
  by (auto simp: atoi_def cint_eq_Some int_ok_def split: conv.splits)

lemma cops_ok: "cdiv a b = Some c \<Longrightarrow> int_ok c" "cmul a b = Some c \<Longrightarrow> int_ok c"
  by (auto simp: cdiv_def cmul_def cint_eq_Some split: if_splits)

lemma arg_flag_keeps:
  "ints_ok (ar_opts (arg_flag x a)) = ints_ok (ar_opts a)"
  "new_stats_every (arg_flag x a) = new_stats_every a"
  "output_files_dir (ar_opts (arg_flag x a)) = output_files_dir (ar_opts a)"
  by (simp_all add: arg_flag_def Let_def ints_ok_def)

lemma arg_value_keeps:
  assumes "arg_value x v a = Some (Some b)" "ints_ok (ar_opts a)" "int_ok (new_stats_every a)"
  shows "ints_ok (ar_opts b) \<and> int_ok (new_stats_every b) \<and>
    output_files_dir (ar_opts b) = output_files_dir (ar_opts a)"
proof -
  have z: "int_ok 0" by (simp add: int_ok_def)
  show ?thesis using assms z
    by (auto simp: arg_value_def arg_int_def arg_set_def ints_ok_def dest: atoi_ok split: if_splits)
qed

lemma arg_loop_keeps:
  "arg_loop args a = Some b \<Longrightarrow> ints_ok (ar_opts a) \<Longrightarrow> int_ok (new_stats_every a) \<Longrightarrow>
    ints_ok (ar_opts b) \<and> int_ok (new_stats_every b) \<and>
    output_files_dir (ar_opts b) = output_files_dir (ar_opts a)"
proof (induction args a rule: arg_loop.induct)
  case (3 x v rest a)
  let ?a = "arg_flag x a"
  note k = arg_flag_keeps[of x a]
  show ?case
  proof (cases "arg_value x v ?a")
    case (Some r)
    show ?thesis
    proof (cases r)
      case None
      with Some 3 k show ?thesis by simp
    next
      case r: (Some c)
      with Some have "arg_value x v ?a = Some (Some c)" by simp
      from arg_value_keeps[OF this] 3 Some r k show ?thesis by auto
    qed
  qed (use 3 in simp)
qed (auto simp: arg_flag_keeps)

lemma derive_rates_keeps:
  assumes "derive_rates p = Some q" "ints_ok p"
  shows "ints_ok q \<and> output_files_dir q = output_files_dir p"
  using assms
  by (auto simp: derive_rates_def derive_interval_def ints_ok_def Option.bind_eq_Some_conv dest: cops_ok
      split: if_splits)

lemma choose_stats_keeps:
  "ints_ok p \<Longrightarrow> int_ok (new_stats_every a) \<Longrightarrow> ints_ok (choose_stats a p)"
  "output_files_dir (choose_stats a p) = output_files_dir p"
  by (auto simp: choose_stats_def ints_ok_def)

lemma parse_args_keeps:
  assumes "parse_args mem heap files builtin dflt args = Some (Inr (p, tb))" "ints_ok dflt"
  shows "ints_ok p \<and> output_files_dir p = output_files_dir dflt"
proof -
  obtain a q where a: "arg_loop args (arg_init dflt) = Some a" "derive_rates (ar_opts a) = Some q"
    "p = choose_stats a q"
    using assms(1) by (auto simp: parse_args_def Option.bind_eq_Some_conv then_do_eq_Inr Let_def split: if_splits)
  have "ints_ok (ar_opts a) \<and> int_ok (new_stats_every a) \<and> output_files_dir (ar_opts a) = output_files_dir dflt"
    using arg_loop_keeps[OF a(1)] assms(2) by (simp add: arg_init_def int_ok_def)
  with derive_rates_keeps[OF a(2)] choose_stats_keeps a(3) show ?thesis by simp
qed


text \<open>The built-in tables, and the arguments \<open>-of files -r 100\<close>.\<close>

abbreviation (input) some_tables :: tables where
  "some_tables \<equiv> \<lparr>tb_ranges = \<lparr>cfg_num = 1, cfg_max_idx = 0, cfg_mask = 0, cfg_ranges = [7, 0]\<rparr>,
     tb_ports = \<lparr>cfg_num = 1, cfg_max_idx = 0, cfg_mask = 0, cfg_ranges = [80, 0]\<rparr>\<rparr>"

lemma parse_of_example:
  "parse_args (\<lambda>_. True) (\<lambda>_. 0) (\<lambda>_. None) some_tables (default_options [] []) [''-of'', ''files'', ''-r'', ''100'']
    = Some (Inr ((default_options [] [])\<lparr>packets_per_second := 100, max_pending_sockets := 80,
        connect_interval := 9000\<rparr>, some_tables))"
  by code_simp


text \<open>\<open>-of\<close> has no effect, though the help text offers it: no command line ever sets
  \<open>output_files_dir\<close>, since its branch compares with \<open>-o\<close> again.\<close>

theorem files_dir_never_set:
  assumes "parse_args mem heap files builtin (default_options mods mcfg) args = Some (Inr (p, tb))"
  shows "output_files_dir p = None"
proof -
  have "ints_ok (default_options mods mcfg)" by (simp add: ints_ok_def int_ok_def default_options_def)
  from parse_args_keeps[OF assms this] show ?thesis by (simp add: default_options_def)
qed

theorem files_dir_never_set_witness:
  "output_files_dir ((default_options [] [])\<lparr>packets_per_second := 100, max_pending_sockets := 80,
     connect_interval := 9000\<rparr>) = None"
  by (rule files_dir_never_set[OF parse_of_example])

section \<open>Every option can be said\<close>

text \<open>The names with a value, as rewrite rules.\<close>

lemma arg_value_names:
  "arg_value ''-t'' v a = arg_int (\<lambda>i p. p\<lparr>connect_timeout := i\<rparr>) v a"
  "arg_value ''-r'' v a = arg_int (\<lambda>i p. p\<lparr>packets_per_second := i\<rparr>) v a"
  "arg_value ''-m'' v a = arg_int (\<lambda>i p. p\<lparr>packets_per_second := 0, max_pending_sockets := i\<rparr>) v a"
  "arg_value ''-pr'' v a = arg_int (\<lambda>i p. p\<lparr>max_pending_results := i\<rparr>) v a"
  "arg_value ''-b'' v a = arg_int (\<lambda>i p. p\<lparr>bind_port := i\<rparr>) v a"
  "arg_value ''-bi'' v a = arg_set (\<lambda>p. p\<lparr>bind_ip_n := htonl (parse_ip4 v)\<rparr>) a"
  "arg_value ''-bt'' v a = arg_int (\<lambda>i p. p\<lparr>bind_max_retries := i\<rparr>) v a"
  "arg_value ''-a'' v a = arg_int (\<lambda>i p. p\<lparr>auto_interval := i\<rparr>) v a"
  "arg_value ''-ct'' v a = arg_int (\<lambda>i p. p\<lparr>auto_interval := 0, connect_interval := i\<rparr>) v a"
  "arg_value ''-e'' v a = arg_int (\<lambda>i p. p\<lparr>socket_list_excess := i\<rparr>) v a"
  "arg_value ''-c'' v a = arg_set (\<lambda>p. p\<lparr>canary_ip := parse_ip4 v\<rparr>) a"
  "arg_value ''-cp'' v a = arg_int (\<lambda>i p. p\<lparr>canary_port := i\<rparr>) v a"
  "arg_value ''-ca'' v a = arg_int (\<lambda>i p. p\<lparr>canary_after := i\<rparr>) v a"
  "arg_value ''-mod'' v a = arg_set (\<lambda>p. p\<lparr>enabled_modules := v\<rparr>) a"
  "arg_value ''-mcfg'' v a = arg_set (\<lambda>p. p\<lparr>modules_config := v\<rparr>) a"
  "arg_value ''-f'' v a = Some (Some (a\<lparr>ranges_file := Some v\<rparr>))"
  "arg_value ''-pf'' v a = Some (Some (a\<lparr>ports_file := Some v\<rparr>))"
  "arg_value ''-p'' v a = Some (Some (a\<lparr>portspec := Some v\<rparr>))"
  "arg_value ''-o'' v a = arg_set (\<lambda>p. p\<lparr>output_cba_file := Some v\<rparr>) a"
  "arg_value ''-st'' v a = map_option (\<lambda>i. Some (a\<lparr>new_stats_every := i\<rparr>)) (atoi v)"
  by (simp_all add: arg_value_def)

lemma atoi_int_string: "int_ok i \<Longrightarrow> atoi (int_string i) = Some i"
  using scan_d_int[of "[]" i] by (simp add: atoi_def cint_def)

lemma htonl_htonl: "htonl (htonl x) = x"
proof -
  have "le_dec (rev (le32 x)) < 2 ^ 32" using le_dec_bound[of "rev (le32 x)"] by simp
  then have "le32 (htonl x) = le_enc 4 (le_dec (rev (le32 x)))"
    by (simp add: htonl_def le32_def unsigned_of_nat take_bit_nat_eq_self)
  also have "\<dots> = rev (le32 x)" using le_enc_dec[of "rev (le32 x)"] by simp
  finally have "htonl (htonl x) = word_of_nat (le_dec (le32 x))" by (simp add: htonl_def)
  moreover have "unat x < 4294967296" using unsigned_less[of x] by simp
  ultimately show ?thesis by (simp add: le32_def le_dec_enc)
qed

text \<open>Settings: pairs of a name and its value, in the order of the command line.\<close>

definition opt_setting :: "string \<Rightarrow> string option \<Rightarrow> (string \<times> string) list" where
  "opt_setting x v = (case v of None \<Rightarrow> [] | Some v \<Rightarrow> [(x, v)])"

definition arg_settings :: "arg_state \<Rightarrow> (string \<times> string) list" where
  "arg_settings a =
     (let p = ar_opts a in
      [(''-t'', int_string (connect_timeout p)),
       (if packets_per_second p \<noteq> 0 then (''-r'', int_string (packets_per_second p))
        else (''-m'', int_string (max_pending_sockets p))),
       (''-pr'', int_string (max_pending_results p)),
       (''-b'', int_string (bind_port p)),
       (''-bi'', print_ip4 (htonl (bind_ip_n p))),
       (''-bt'', int_string (bind_max_retries p)),
       (if auto_interval p \<noteq> 0 then (''-a'', int_string (auto_interval p))
        else (''-ct'', int_string (connect_interval p))),
       (''-e'', int_string (socket_list_excess p)),
       (''-c'', print_ip4 (canary_ip p)),
       (''-cp'', int_string (canary_port p)),
       (''-ca'', int_string (canary_after p)),
       (''-mod'', enabled_modules p),
       (''-mcfg'', modules_config p),
       (''-st'', int_string (new_stats_every a))]
      @ opt_setting ''-f'' (ranges_file a) @ opt_setting ''-pf'' (ports_file a)
      @ opt_setting ''-p'' (portspec a) @ opt_setting ''-o'' (output_cba_file p))"

definition arg_flags :: "options \<Rightarrow> string list" where
  "arg_flags p = (if from_stdin p then [''-x''] else []) @ (if daemonize p then [''-d''] else [])
     @ (if list_only p then [''-l''] else [])"

definition spell :: "arg_state \<Rightarrow> string list" where
  "spell a = concat (map (\<lambda>(x, v). [x, v]) (arg_settings a)) @ arg_flags (ar_opts a)"

fun run_settings :: "(string \<times> string) list \<Rightarrow> arg_state \<Rightarrow> arg_state option" where
  "run_settings [] a = Some a"
| "run_settings ((x, v) # s) a =
     (case arg_value x v (arg_flag x a) of Some (Some b) \<Rightarrow> run_settings s b | _ \<Rightarrow> None)"

lemma arg_loop_settings:
  "run_settings s a = Some b \<Longrightarrow>
    arg_loop (concat (map (\<lambda>(x, v). [x, v]) s) @ rest) a = arg_loop rest b"
  by (induction s a rule: run_settings.induct) (auto split: option.splits)

lemma run_settings_append:
  "run_settings s a = Some b \<Longrightarrow> run_settings (s @ t) a = run_settings t b"
  by (induction s a rule: run_settings.induct) (auto split: option.splits)

lemma arg_flag_other: "x \<notin> {''-x'', ''-d'', ''-l''} \<Longrightarrow> arg_flag x a = a"
  by (auto simp: arg_flag_def)

text \<open>What no option reaches keeps its default.\<close>

definition unsaid :: "options \<Rightarrow> options \<Rightarrow> options" where
  "unsaid d p = p\<lparr>
     max_pending_sockets := (if packets_per_second p \<noteq> 0 then max_pending_sockets d else max_pending_sockets p),
     connect_interval := (if auto_interval p \<noteq> 0 then connect_interval d else connect_interval p),
     stats_every := stats_every d, stats_every_cba := stats_every_cba d,
     output_files_dir := output_files_dir d\<rparr>"

lemma run_spelled:
  assumes "ints_ok (ar_opts a)" "int_ok (new_stats_every a)"
    and "output_cba_file d = None"
  shows "run_settings (arg_settings a) (arg_init d)
    = Some (a\<lparr>ar_opts := (unsaid d (ar_opts a))\<lparr>from_stdin := from_stdin d, daemonize := daemonize d,
        list_only := list_only d\<rparr>\<rparr>)"
proof -
  note run = arg_value_names arg_int_def arg_set_def arg_flag_other parse_print htonl_htonl
  let ?p = "ar_opts a"
  let ?base = "take 14 (arg_settings a)"
  have split: "arg_settings a = ?base @ opt_setting ''-f'' (ranges_file a) @ opt_setting ''-pf'' (ports_file a)
      @ opt_setting ''-p'' (portspec a) @ opt_setting ''-o'' (output_cba_file ?p)"
    by (simp add: arg_settings_def Let_def)
  let ?b = "(arg_init d)\<lparr>ar_opts := (unsaid d ?p)\<lparr>from_stdin := from_stdin d, daemonize := daemonize d,
      list_only := list_only d, output_cba_file := None\<rparr>, new_stats_every := new_stats_every a\<rparr>"
  note ok = assms(1)[unfolded ints_ok_def]
  have at: "atoi (int_string (packets_per_second ?p)) = Some (packets_per_second ?p)"
    "atoi (int_string (max_pending_results ?p)) = Some (max_pending_results ?p)"
    "atoi (int_string (max_pending_sockets ?p)) = Some (max_pending_sockets ?p)"
    "atoi (int_string (connect_timeout ?p)) = Some (connect_timeout ?p)"
    "atoi (int_string (socket_list_excess ?p)) = Some (socket_list_excess ?p)"
    "atoi (int_string (auto_interval ?p)) = Some (auto_interval ?p)"
    "atoi (int_string (connect_interval ?p)) = Some (connect_interval ?p)"
    "atoi (int_string (bind_port ?p)) = Some (bind_port ?p)"
    "atoi (int_string (bind_max_retries ?p)) = Some (bind_max_retries ?p)"
    "atoi (int_string (canary_port ?p)) = Some (canary_port ?p)"
    "atoi (int_string (canary_after ?p)) = Some (canary_after ?p)"
    "atoi (int_string (new_stats_every a)) = Some (new_stats_every a)"
    using ok assms(2) by (simp_all add: atoi_int_string)
  have base: "run_settings ?base (arg_init d) = Some ?b"
    by (cases "packets_per_second ?p = 0"; cases "auto_interval ?p = 0")
      (simp_all add: arg_settings_def Let_def run at arg_init_def unsaid_def assms(3))
  have "run_settings (?base @ opt_setting ''-f'' (ranges_file a) @ opt_setting ''-pf'' (ports_file a)
      @ opt_setting ''-p'' (portspec a) @ opt_setting ''-o'' (output_cba_file ?p)) (arg_init d)
    = Some (a\<lparr>ar_opts := (unsaid d ?p)\<lparr>from_stdin := from_stdin d, daemonize := daemonize d,
        list_only := list_only d\<rparr>\<rparr>)"
    unfolding run_settings_append[OF base]
    by (cases "ranges_file a"; cases "ports_file a"; cases "portspec a"; cases "output_cba_file ?p")
      (simp_all add: opt_setting_def run arg_init_def unsaid_def)
  then show ?thesis by (subst split)
qed

lemma arg_loop_flags:
  assumes "\<not> from_stdin (ar_opts b)" "\<not> daemonize (ar_opts b)" "\<not> list_only (ar_opts b)"
  shows "arg_loop (arg_flags p) b = Some (b\<lparr>ar_opts := (ar_opts b)\<lparr>from_stdin := from_stdin p,
      daemonize := daemonize p, list_only := list_only p\<rparr>\<rparr>)"
  using assms
  by (cases "from_stdin p"; cases "daemonize p"; cases "list_only p")
    (simp_all add: arg_flags_def arg_flag_def arg_value_def Let_def)



end
