(* ===== verification/Scanner_Live.thy ===== *)
theory Scanner_Live
  imports Scanner_Props
begin

unbundle bit_operations_syntax

text \<open>
  When an interrupt ends the scan, when nothing does, and how fast packets can follow each
  other.
\<close>

section \<open>No loop stops by itself\<close>

text \<open>\<open>Spinning\<close> only comes from fuel that is used up: one attempt returns or exits.\<close>

lemma bind_loop_not_spinning: "bind_loop sy bip sock port lim bp s \<noteq> Some (Inl Spinning)"
proof (induction sy bip sock port lim bp s rule: bind_loop.induct)
  case (1 sy bip sock port lim bp s)
  then show ?case by (subst bind_loop.simps) (auto simp: Let_def split: option.splits prod.splits)
qed

lemma then_do_not_spinning:
  "m \<noteq> Some (Inl Spinning) \<Longrightarrow> (\<And>x. f x \<noteq> Some (Inl Spinning)) \<Longrightarrow> then_do m f \<noteq> Some (Inl Spinning)"
  by (auto simp: then_do_def split: option.splits sum.splits)

lemma fill_step_not_spinning: "fill_step sy p tb s \<noteq> Some (Inl Spinning)"
proof -
  have o: "open_socket sy p port s \<noteq> Some (Inl Spinning)" for port s
    by (simp add: open_socket_def Let_def then_do_not_spinning bind_loop_not_spinning
        split: prod.splits option.splits)
  have a: "after_connect sy p sock ip port s \<noteq> Some (Inl Spinning)" for sock ip port s
    by (auto simp: after_connect_def Let_def split: prod.splits)
  have "try_connect sy p tb s \<noteq> Some (Inl Spinning)" for s
  proof (cases "pick_target sy p tb s")
    case (Some t)
    obtain ip port s1 where t: "t = (ip, port, s1)" by (cases t)
    show ?thesis
      unfolding try_connect_def Some t option.case prod.case Let_def
      by (rule then_do_not_spinning[OF o]) (simp add: a split: prod.splits option.splits)
  qed (simp add: try_connect_def)
  then show ?thesis
    unfolding fill_step_def Let_def
    by (rule then_do_not_spinning) (auto simp: watch_socket_def Let_def split: prod.splits)
qed

section \<open>Filling ends when connections stay pending\<close>

text \<open>Up to its connection an attempt depends on the system only for a socket.\<close>

lemma try_connect_shape:
  assumes ok: "sys_ok v sy" "opts_ok p" "draws_ok sy tb"
    and s: "0 \<in> vw_open v (sc_w s)" "sc_rng_fd s \<noteq> -1"
  obtains (stopped) e where "try_connect sy p tb s = Some (Inl e)"
    | (connecting) sock ip port s2 where "0 < sock"
      "try_connect sy p tb s = (case socket4_try_connect (sy_os sy) sock ip port (sc_w s2) of (r, w) \<Rightarrow>
        (case count_packet sy p r (s2\<lparr>sc_w := w\<rparr>) of None \<Rightarrow> None
         | Some s3 \<Rightarrow> after_connect sy p r ip port s3))"
proof -
  obtain ip port s1 where pk: "pick_target sy p tb s = Some (ip, port, s1)" "sc_rng_fd s1 \<noteq> -1"
    by (rule draws_pick[OF ok(3) s(2)])
  have u: "unmoved v s s1" by (rule pick_target_moved[OF ok(1) pk])
  have z: "0 \<in> vw_open v (sc_w s1)" using u s(1) by (simp add: moved_def)
  have b: "int_ok (bind_port p + bind_max_retries p)" using ok(2) by (simp add: opts_ok_def)
  show ?thesis
  proof (cases rule: lands_cases[OF open_socket_moved[OF ok(1) b z, of port]])
    case (1 e)
    then show ?thesis using stopped pk(1) by (simp add: try_connect_def)
  next
    case (2 r)
    obtain sock s2 where "r = (sock, s2)" "0 < sock" using 2(2) by (cases r) auto
    then show ?thesis using connecting[of sock ip port s2] pk(1) 2(1) by (simp add: try_connect_def)
  qed
qed

lemma connect_result:
  assumes ok: "sys_ok v sy" and c: "fst (os_connect (sy_os sy) sock ip (word_of_int port) w1) = (-1, err)"
    and w1: "set_socket_blocking (sy_os sy) sock False w = (sock, w1)" and sock: "0 < sock"
  shows "fst (socket4_try_connect (sy_os sy) sock ip port w) =
    (if err = ECONNREFUSED \<or> err = ENETUNREACH then -1 else if err \<noteq> EINPROGRESS then -2 else - sock - 2)"
proof -
  obtain c w2 where "os_connect (sy_os sy) sock ip (word_of_int port) w1 = (c, w2)"
    by (cases "os_connect (sy_os sy) sock ip (word_of_int port) w1")
  then have "os_connect (sy_os sy) sock ip (word_of_int port) w1 = ((-1, err), w2)" using c by simp
  then show ?thesis using w1 sock by (simp add: socket4_try_connect_def)
qed

definition always_pending :: "'w os \<Rightarrow> bool" where
  "always_pending os \<longleftrightarrow> (\<forall>fd ip port w. fst (os_connect os fd ip port w) = (-1, EINPROGRESS))"

definition never_reachable :: "'w os \<Rightarrow> bool" where
  "never_reachable os \<longleftrightarrow> (\<forall>fd ip port w. fst (os_connect os fd ip port w) = (-1, ENETUNREACH))"

lemma try_connect_always:
  assumes ok: "sys_ok v sy" "opts_ok p" "draws_ok sy tb"
    and s: "0 \<in> vw_open v (sc_w s)" "sc_rng_fd s \<noteq> -1"
    and def: "try_connect sy p tb s \<noteq> None"
  shows "always_pending (sy_os sy) \<Longrightarrow> lands (try_connect sy p tb s) (\<lambda>(tfd, s'). 0 \<le> tfd)"
    and "never_reachable (sy_os sy) \<Longrightarrow> lands (try_connect sy p tb s) (\<lambda>(tfd, s'). tfd < 0)"
proof -
  have "(always_pending (sy_os sy) \<longrightarrow> lands (try_connect sy p tb s) (\<lambda>(tfd, s'). 0 \<le> tfd)) \<and>
    (never_reachable (sy_os sy) \<longrightarrow> lands (try_connect sy p tb s) (\<lambda>(tfd, s'). tfd < 0))"
  proof (cases rule: try_connect_shape[OF ok s])
    case (2 sock ip port s2)
    obtain r w where tc: "socket4_try_connect (sy_os sy) sock ip port (sc_w s2) = (r, w)" by force
    obtain w1 where w1: "set_socket_blocking (sy_os sy) sock False (sc_w s2) = (sock, w1)"
      using set_socket_blocking_ok[OF sys_ok_fds[OF ok(1)]] by blast
    have res: "fst (os_connect (sy_os sy) sock ip (word_of_int port) w1) = (-1, err) \<Longrightarrow>
        r = (if err = ECONNREFUSED \<or> err = ENETUNREACH then -1 else if err \<noteq> EINPROGRESS then -2 else - sock - 2)" for err
      using connect_result[OF ok(1) _ w1 2(1), of ip port err] tc by simp
    obtain s3 where "count_packet sy p r (s2\<lparr>sc_w := w\<rparr>) = Some s3"
      using 2(2) tc def by (cases "count_packet sy p r (s2\<lparr>sc_w := w\<rparr>)") auto
    then have t: "try_connect sy p tb s = after_connect sy p r ip port s3" using 2(2) tc by simp
    obtain now w3 where ms: "os_ms (sy_os sy) (sc_w s3) = (now, w3)" by force
    have "after_connect sy p (- sock - 2) ip port s3 = (if sl_size (sc_list s3) \<le> sock then Some (Inl (Exited 1))
        else map_option (\<lambda>l. Inr (sock, s3\<lparr>sc_w := w3, sc_list := l\<rparr>))
          (add_to_socket_list (sc_list s3) sock ip port (now + word_of_int (connect_timeout p))))"
      using 2(1) ms by (simp add: after_connect_def)
    then have "lands (after_connect sy p r ip port s3) (\<lambda>(tfd, s'). 0 \<le> tfd)" if "r = - sock - 2"
      using that t def 2(1) by (auto split: if_splits)
    moreover have "lands (after_connect sy p r ip port s3) (\<lambda>(tfd, s'). tfd < 0)" if "r = -1"
      using that by (simp add: after_connect_def)
    ultimately show ?thesis using t res by (simp add: always_pending_def never_reachable_def)
  qed simp
  then show "always_pending (sy_os sy) \<Longrightarrow> lands (try_connect sy p tb s) (\<lambda>(tfd, s'). 0 \<le> tfd)"
    "never_reachable (sy_os sy) \<Longrightarrow> lands (try_connect sy p tb s) (\<lambda>(tfd, s'). tfd < 0)" by simp_all
qed

lemma fill_step_always:
  assumes ok: "sys_ok v sy" "opts_ok p" "draws_ok sy tb" and inv: "scan_inv v B p s" "0 \<in> B"
    and room: "num_sockets (sc_list s) < max_pending_sockets p" and cnt: "packets_sent s + 1 < 2 ^ 31"
  shows "always_pending (sy_os sy) \<Longrightarrow> lands (fill_step sy p tb s) (\<lambda>s'. scan_inv v B p s' \<and>
      packets_sent s' = packets_sent s + 1 \<and> num_sockets (sc_list s') = num_sockets (sc_list s) + 1)"
    and "never_reachable (sy_os sy) \<Longrightarrow> lands (fill_step sy p tb s) (\<lambda>s'. scan_inv v B p s' \<and>
      packets_sent s' = packets_sent s + 1 \<and> num_sockets (sc_list s') = num_sockets (sc_list s))"
proof -
  have s1: "0 \<in> vw_open v (sc_w s1) \<and> sc_rng_fd s1 \<noteq> -1 \<and> try_connect sy p tb s1 \<noteq> None"
    if u: "unmoved v s s1" for s1
  proof -
    have s1: "pending_ok v B p s1" "counters_ok s1" "num_sockets (sc_list s1) < max_pending_sockets p"
      "packets_sent s1 + 1 < 2 ^ 31"
      using inv(1) u room cnt pending_ok_moved[OF _ u] counters_ok_moved[OF u]
      unfolding scan_inv_def by (simp_all add: moved_def)
    then show ?thesis using inv(2) lands_defined[OF scan_try_connect_ok[OF ok s1(1) inv(2) s1(3,2,4)]]
      by (simp add: pending_ok_def counters_ok_def Let_def)
  qed
  note all = try_connect_always[OF ok]
  show "lands (fill_step sy p tb s) (\<lambda>s'. scan_inv v B p s' \<and>
      packets_sent s' = packets_sent s + 1 \<and> num_sockets (sc_list s') = num_sockets (sc_list s) + 1)"
    if "always_pending (sy_os sy)"
    by (rule lands_mono[OF fill_step_post[OF ok inv room cnt, of "\<lambda>tfd. 0 \<le> tfd"]])
      (use s1 all(1)[OF _ _ _ that] in auto)
  show "lands (fill_step sy p tb s) (\<lambda>s'. scan_inv v B p s' \<and>
      packets_sent s' = packets_sent s + 1 \<and> num_sockets (sc_list s') = num_sockets (sc_list s))"
    if "never_reachable (sy_os sy)"
    by (rule lands_mono[OF fill_step_post[OF ok inv room cnt, of "\<lambda>tfd. tfd < 0"]])
      (use s1 all(2)[OF _ _ _ that] in auto)
qed

text \<open>Where every connection attempt stays pending, as it does towards hosts across a network, one attempt per
  free place is enough: with that much fuel filling never runs out of it, but returns with a full table, or
  ends the process for want of a socket.\<close>

lemma fill_loop_ends:
  assumes ok: "sys_ok v sy" "opts_ok p" "draws_ok sy tb" "always_pending (sy_os sy)" "0 \<in> B"
  shows "scan_inv v B p s \<Longrightarrow> packets_sent s + int fuel < 2 ^ 31 \<Longrightarrow>
    nat (max_pending_sockets p - num_sockets (sc_list s)) \<le> fuel \<Longrightarrow>
    fill_loop sy p tb fuel s \<noteq> Some (Inl Spinning)"
proof (induction fuel arbitrary: s)
  case 0
  then show ?case by (subst fill_loop.simps) simp
next
  case (Suc n)
  show ?case
  proof (cases "num_sockets (sc_list s) < max_pending_sockets p")
    case True
    have cnt: "packets_sent s + 1 < 2 ^ 31" using Suc.prems(2) by simp
    have fl: "fill_loop sy p tb (Suc n) s = then_do (fill_step sy p tb s) (fill_loop sy p tb n)"
      using True by (subst fill_loop.simps) simp
    show ?thesis
    proof (cases rule: lands_cases[OF fill_step_always(1)[OF ok(1-3) Suc.prems(1) ok(5) True cnt ok(4)]])
      case (1 e)
      then show ?thesis using fl fill_step_not_spinning[of sy p tb s] by auto
    next
      case (2 s1)
      have "fill_loop sy p tb n s1 \<noteq> Some (Inl Spinning)"
        by (rule Suc.IH) (use 2(2) Suc.prems(2,3) in auto)
      with fl 2(1) show ?thesis by simp
    qed
  qed (subst fill_loop.simps, simp)
qed

lemma conn_round_not_spinning:
  assumes ok: "sys_ok v sy" "opts_ok p" "draws_ok sy tb" "always_pending (sy_os sy)" "0 \<in> B"
    and inv: "scan_inv v B p s" "packets_sent s + int fuel < 2 ^ 31" and fuel: "max_pending_sockets p \<le> int fuel"
  shows "conn_round sy p tb fuel s \<noteq> Some (Inl Spinning)"
proof -
  have "nat (max_pending_sockets p - num_sockets (sc_list s)) \<le> fuel"
    using fuel table_num[of v B p s] inv(1) by (simp add: scan_inv_def)
  then have f: "fill_loop sy p tb fuel s \<noteq> Some (Inl Spinning)" by (rule fill_loop_ends[OF ok inv])
  show ?thesis
  proof (cases rule: lands_cases[OF fill_loop_ok[OF ok(1-3,5) inv]])
    case (1 e)
    with f show ?thesis by (simp add: conn_round_def)
  next
    case (2 s1)
    then have "packets_sent s1 < 2 ^ 31" using inv(2) by simp
    from after_fill_ok[OF ok(1,2) _ this, of B] 2 show ?thesis
      unfolding conn_round_def by fastforce
  qed
qed

section \<open>An interrupt ends the scan\<close>

text \<open>The state in which the loop looks at \<open>done\<close> again after \<open>k\<close> rounds, if it gets there.\<close>

fun after_rounds :: "'w sys \<Rightarrow> options \<Rightarrow> tables \<Rightarrow> nat \<Rightarrow> nat \<Rightarrow> 'w scan \<Rightarrow> 'w scan outcome" where
  "after_rounds sy p tb fuel 0 s = Some (Inr s)"
| "after_rounds sy p tb fuel (Suc k) s =
     then_do (conn_round sy p tb fuel (s\<lparr>sc_w := snd (sy_done sy (sc_w s))\<rparr>)) (after_rounds sy p tb fuel k)"

text \<open>C4: an interrupt ends the scan. Where every connection attempt stays pending, as it does towards hosts
  across a network, one attempt per place of the table is enough in a round, so each round comes to its
  end and \<open>done\<close> is looked at again: if it is set when it is looked at after \<open>k\<close> rounds, the loop
  returns within \<open>k\<close> rounds with its invariant, unless the process has exited.\<close>

theorem interrupt_returns:
  assumes "sys_ok v sy" "opts_ok p" "draws_ok sy tb" "always_pending (sy_os sy)" "0 \<in> B"
    and "scan_inv v B p s" "packets_sent s + int (k * fuel) < 2 ^ 31" "max_pending_sockets p \<le> int fuel"
    and "\<And>s'. after_rounds sy p tb fuel k s = Some (Inr s') \<Longrightarrow> fst (sy_done sy (sc_w s'))"
  shows "\<exists>r. conn_loop sy p tb fuel k s = Some r \<and> r \<noteq> Inl Spinning \<and> (\<forall>s'. r = Inr s' \<longrightarrow> scan_inv v B p s')"
  using assms(6,7,9)
proof (induction k arbitrary: s)
  case 0
  then obtain w where d: "sy_done sy (sc_w s) = (True, w)" by (metis after_rounds.simps(1) eq_fst_iff)
  have u: "unmoved v s (s\<lparr>sc_w := w\<rparr>)" by (rule unmoved_world[OF sys_ok_same(11)[OF assms(1) d]])
  have "scan_inv v B p (s\<lparr>sc_w := w\<rparr>)"
    using 0(1) pending_ok_moved[OF _ u] counters_ok_moved[OF u] by (simp add: scan_inv_def)
  with d show ?case by (subst conn_loop.simps) simp
next
  case (Suc k)
  obtain b w where d: "sy_done sy (sc_w s) = (b, w)" by force
  let ?s = "s\<lparr>sc_w := w\<rparr>"
  have u: "unmoved v s ?s" by (rule unmoved_world[OF sys_ok_same(11)[OF assms(1) d]])
  have i: "scan_inv v B p ?s"
    using Suc.prems(1) pending_ok_moved[OF _ u] counters_ok_moved[OF u] by (simp add: scan_inv_def)
  have "int (Suc k * fuel) = int fuel + int k * int fuel" "0 \<le> int k * int fuel"
    by (simp_all add: distrib_right)
  then have "packets_sent s + int fuel < 2 ^ 31" using Suc.prems(2) by linarith
  then have pk: "packets_sent ?s + int fuel < 2 ^ 31" by simp
  have cl: "conn_loop sy p tb fuel (Suc k) s = (if b then Some (Inr ?s)
      else then_do (conn_round sy p tb fuel ?s) (conn_loop sy p tb fuel k))"
    using d by (subst conn_loop.simps) simp
  show ?case
  proof (cases rule: lands_cases[OF conn_round_ok[OF assms(1-3,5) i pk]])
    case (1 e)
    with conn_round_not_spinning[OF assms(1-5) i pk assms(8)] i cl show ?thesis by simp
  next
    case (2 s1)
    have "\<exists>r. conn_loop sy p tb fuel k s1 = Some r \<and> r \<noteq> Inl Spinning \<and> (\<forall>s'. r = Inr s' \<longrightarrow> scan_inv v B p s')"
    proof (rule Suc.IH)
      show "packets_sent s1 + int (k * fuel) < 2 ^ 31" using 2(2) Suc.prems(2) by (simp add: distrib_right)
      show "fst (sy_done sy (sc_w s'))" if "after_rounds sy p tb fuel k s1 = Some (Inr s')" for s'
        using Suc.prems(3)[of s'] 2(1) d that by simp
    qed (use 2(2) in simp)
    with 2(1) i cl show ?thesis by simp
  qed
qed

lemma sim_interrupted:
  "map_option (map_sum id (\<lambda>s. fst (sy_done sim_sys (sc_w s))))
     (after_rounds sim_sys small_options one_target 2 2 sim_loaded) = Some (Inr True)"
  by code_simp

theorem interrupt_returns_witness:
  "\<exists>r. conn_loop sim_sys small_options one_target 2 2 sim_loaded = Some r \<and> r \<noteq> Inl Spinning \<and>
    (\<forall>s'. r = Inr s' \<longrightarrow> scan_inv sim_view {0, 1, 2} small_options s')"
proof (rule interrupt_returns[OF sim_sys_ok opts_ok_small sim_draws])
  show "scan_inv sim_view {0, 1, 2} small_options sim_loaded"
    using scan_inv_start[of sim_view sim_start "{0, 1, 2}" small_options "replicate 12 any_entry"] opts_ok_small
    by (simp add: sim_view_def default_options_def)
  show "fst (sy_done sim_sys (sc_w s'))"
    if "after_rounds sim_sys small_options one_target 2 2 sim_loaded = Some (Inr s')" for s'
    using that sim_interrupted by simp
qed (simp_all add: always_pending_def sim_sys_def sim_os_def scan_start_def)

section \<open>Filling never ends when the network is down\<close>

lemma fill_loop_unreachable:
  assumes ok: "sys_ok v sy" "opts_ok p" "draws_ok sy tb" and down: "never_reachable (sy_os sy)" and B: "0 \<in> B"
  shows "scan_inv v B p s \<Longrightarrow> packets_sent s + int fuel < 2 ^ 31 \<Longrightarrow>
    num_sockets (sc_list s) < max_pending_sockets p \<Longrightarrow> \<exists>e. fill_loop sy p tb fuel s = Some (Inl e)"
proof (induction fuel arbitrary: s)
  case 0
  then show ?case by (subst fill_loop.simps) simp
next
  case (Suc n)
  have cnt: "packets_sent s + 1 < 2 ^ 31" using Suc.prems(2) by simp
  have fl: "fill_loop sy p tb (Suc n) s = then_do (fill_step sy p tb s) (fill_loop sy p tb n)"
    using Suc.prems(3) by (subst fill_loop.simps) simp
  show ?case
  proof (cases rule: lands_cases[OF fill_step_always(2)[OF ok Suc.prems(1) B Suc.prems(3) cnt down]])
    case (1 e)
    with fl show ?thesis by simp
  next
    case (2 s1)
    with Suc.IH[of s1] Suc.prems(2,3) fl show ?thesis by simp
  qed
qed

text \<open>C39: an interrupt does not stop a scanner whose network is down. \<open>done\<close> is only looked at between
  rounds, and while every \<open>connect\<close> fails at once, as with no route, the loop that fills the table never
  finishes: once the first look at \<open>done\<close> has passed, \<open>conn_thread\<close> does not return, whatever \<open>done\<close> holds
  later and however long it runs.\<close>

theorem unreachable_never_returns:
  assumes "sys_ok v sy" "opts_ok p" "draws_ok sy tb" "never_reachable (sy_os sy)" "0 \<in> B"
    and "scan_inv v B p s" "packets_sent s + int fuel < 2 ^ 31" "num_sockets (sc_list s) < max_pending_sockets p"
    and "\<not> fst (sy_done sy (sc_w s))"
  shows "\<exists>e. conn_loop sy p tb fuel rounds s = Some (Inl e)"
proof -
  obtain w where d: "sy_done sy (sc_w s) = (False, w)" using assms(9) by (metis eq_fst_iff)
  have u: "unmoved v s (s\<lparr>sc_w := w\<rparr>)" by (rule unmoved_world[OF sys_ok_same(11)[OF assms(1) d]])
  have i: "scan_inv v B p (s\<lparr>sc_w := w\<rparr>)"
    using assms(6) pending_ok_moved[OF _ u] counters_ok_moved[OF u] by (simp add: scan_inv_def)
  obtain e where "fill_loop sy p tb fuel (s\<lparr>sc_w := w\<rparr>) = Some (Inl e)"
    using fill_loop_unreachable[OF assms(1-5) i, of fuel] assms(7,8) by auto
  with d show ?thesis
    by (subst conn_loop.simps) (cases rounds; simp add: conn_round_def Let_def)
qed

abbreviation (input) down_sys :: "sim sys" where
  "down_sys \<equiv> sim_sys\<lparr>sy_os := sim_os\<lparr>os_connect := (\<lambda>fd ip port w. ((-1, ENETUNREACH), w))\<rparr>\<rparr>"

theorem unreachable_never_returns_witness:
  "\<exists>e. conn_loop down_sys small_options one_target 1000 9 sim_loaded = Some (Inl e)"
proof -
  have "sys_ok sim_view down_sys"
    using sim_sys_ok
    by (auto simp: sys_ok_def os_quiet_def os_fds_def os_time_def sys_quiet_def sys_epoll_def quiet_def
        tracks_fds_def fcntl_works_def sim_sys_def)
  moreover have "draws_ok down_sys one_target"
    using sim_draws by (simp add: draws_ok_def)
  moreover have "scan_inv sim_view {0, 1, 2} small_options sim_loaded"
    using scan_inv_start[of sim_view sim_start "{0, 1, 2}" small_options "replicate 12 any_entry"] opts_ok_small
    by (simp add: sim_view_def default_options_def)
  moreover have "never_reachable (sy_os down_sys)" by (simp add: never_reachable_def)
  ultimately show ?thesis
    using unreachable_never_returns[of sim_view down_sys small_options one_target "{0, 1, 2}" sim_loaded 1000 9]
      opts_ok_small by (simp add: scan_start_def init_socket_list_def sim_sys_def)
qed

section \<open>Pacing\<close>

text \<open>
  A microsecond clock \<open>us\<close>: \<open>get_us\<close> reads it, and \<open>usleep\<close> sleeps at least as long as asked. \<open>paced\<close> makes
  one call of \<open>check_connect_interval\<close> after each of the steps \<open>fs\<close>, which take whatever time they take.
\<close>

definition keeps_time :: "('w \<Rightarrow> nat) \<Rightarrow> 'w sys \<Rightarrow> bool" where
  "keeps_time us sy \<longleftrightarrow>
     (\<forall>w. fst (sy_us sy w) = word_of_nat (us (snd (sy_us sy w))) \<and> us w \<le> us (snd (sy_us sy w))) \<and>
     (\<forall>t w. us w + unat t \<le> us (sy_usleep sy t w))"

fun paced :: "'w sys \<Rightarrow> options \<Rightarrow> ('w \<Rightarrow> 'w) list \<Rightarrow> 'w scan \<Rightarrow> 'w scan" where
  "paced sy p [] s = s"
| "paced sy p (f # fs) s = paced sy p fs (check_connect_interval sy p (s\<lparr>sc_w := f (sc_w s)\<rparr>))"

lemma keeps_timeD:
  assumes "keeps_time us sy"
  shows "sy_us sy w = (now, w') \<Longrightarrow> now = word_of_nat (us w') \<and> us w \<le> us w'"
    and "us w + unat t \<le> us (sy_usleep sy t w)"
proof -
  have k: "fst (sy_us sy w) = word_of_nat (us (snd (sy_us sy w))) \<and> us w \<le> us (snd (sy_us sy w))"
    "us w + unat t \<le> us (sy_usleep sy t w)" using assms by (simp_all add: keeps_time_def)
  show "sy_us sy w = (now, w') \<Longrightarrow> now = word_of_nat (us w') \<and> us w \<le> us w'" using k(1) by simp
  show "us w + unat t \<le> us (sy_usleep sy t w)" by (rule k(2))
qed

lemma check_interval_paced:
  assumes us: "keeps_time us sy" and ci: "0 \<le> connect_interval p" "connect_interval p < 2 ^ 31"
    and last: "unat (sc_last_packet s) \<le> us (sc_w s)"
    and s': "s' = check_connect_interval sy p s" and bound: "us (sc_w s') < 2 ^ 62"
  shows "unat (sc_last_packet s) + nat (connect_interval p) \<le> unat (sc_last_packet s') \<and>
    unat (sc_last_packet s') \<le> us (sc_w s') \<and> us (sc_w s) \<le> us (sc_w s')"
proof -
  obtain now w where g: "sy_us sy (sc_w s) = (now, w)" by force
  have w: "now = word_of_nat (us w)" "us (sc_w s) \<le> us w"
    using keeps_timeD(1)[OF us g] by simp_all
  define nxt where "nxt = sc_last_packet s + word_of_int (connect_interval p)"
  have sl: "us w + unat t \<le> us (sy_usleep sy t w)" for t by (rule keeps_timeD(2)[OF us])
  have wb: "us w < 2 ^ 62"
    using bound s' g sl[of "ucast (nxt - now)"]
    by (auto simp: check_connect_interval_def nxt_def[symmetric] Let_def split: if_splits)
  have un: "unat now = us w" using w(1) wb by (simp add: unsigned_of_nat take_bit_nat_eq_self)
  have nx: "unat nxt = unat (sc_last_packet s) + nat (connect_interval p)"
    using timeout_unat[of "sc_last_packet s" "connect_interval p"] ci last w(2) wb by (simp add: nxt_def)
  show ?thesis
  proof (cases "now < nxt")
    case True
    then have lt: "us w < unat nxt" using un by (simp add: word_less_nat_alt)
    have d: "unat (nxt - now) = unat nxt - us w" using True un by (simp add: unat_sub less_imp_le)
    have "unat nxt - us w < 2 ^ 31" using nx last w(2) ci by (simp add: nat_less_iff less_diff_conv2)
    then have "unat (ucast (nxt - now) :: u32) = unat nxt - us w"
      using d by (simp add: unsigned_ucast_eq take_bit_nat_eq_self)
    then have "unat nxt \<le> us (sy_usleep sy (ucast (nxt - now)) w)" using sl[of "ucast (nxt - now)"] lt by simp
    with True g nx s' w(2) lt show ?thesis by (simp add: check_connect_interval_def nxt_def[symmetric] Let_def)
  next
    case False
    then have "unat nxt \<le> us w" using un by (simp add: word_less_nat_alt)
    with False g nx s' w(2) un show ?thesis by (simp add: check_connect_interval_def nxt_def[symmetric] Let_def)
  qed
qed

lemma paced_clock:
  assumes "keeps_time us sy" "\<And>f w. f \<in> set fs \<Longrightarrow> us w \<le> us (f w)"
  shows "us (sc_w s) \<le> us (sc_w (paced sy p fs s))"
  using assms(2)
proof (induction fs arbitrary: s)
  case (Cons f fs)
  let ?s = "s\<lparr>sc_w := f (sc_w s)\<rparr>"
  have "us (sc_w ?s) \<le> us (sc_w (check_connect_interval sy p ?s))"
  proof -
    obtain now w where g: "sy_us sy (f (sc_w s)) = (now, w)" by force
    have "us (f (sc_w s)) \<le> us w" using keeps_timeD(1)[OF assms(1) g] by simp
    moreover have "us w \<le> us (sy_usleep sy t w)" for t using keeps_timeD(2)[OF assms(1), of w t] by simp
    ultimately show ?thesis using g by (auto simp: check_connect_interval_def Let_def intro: order_trans)
  qed
  moreover have "us (sc_w s) \<le> us (sc_w ?s)" using Cons.prems by simp
  moreover have "us (sc_w (check_connect_interval sy p ?s))
      \<le> us (sc_w (paced sy p fs (check_connect_interval sy p ?s)))"
    using Cons.prems by (intro Cons.IH) simp
  ultimately show ?case by simp
qed simp



end
