(* ===== verification/Metrics.thy ===== *)
theory Metrics
  imports Prelude "HOL-Library.Monad_Syntax" "HOL-Library.Sublist"
begin

text \<open>
  \<^verbatim>\<open>metrics.c\<close>, the events a build with \<open>METRICS\<close> writes to a file, and the loop of \<^verbatim>\<open>metrics.py\<close> that reads
  them back. A duration is the difference of two 64-bit times stored in an \<open>int\<close>, so it keeps its
  lower 32 bits. The file is written by the scanning thread alone, in the byte order of the host, and
  read as little-endian.
\<close>

section \<open>The writer\<close>

definition metrics_prepare :: "int \<Rightarrow> byte list" where
  "metrics_prepare ct = le32 (to_u32 ct)"

definition mev_packet :: "u64 \<Rightarrow> int \<Rightarrow> byte list" where
  "mev_packet time fd = [0xe0] @ le64 time @ le32 (to_u32 fd)"

definition mev_epoll :: "u64 \<Rightarrow> int \<Rightarrow> int \<Rightarrow> byte list" where
  "mev_epoll time returned timeout = [0xe1] @ le64 time @ le32 (to_u32 returned) @ le32 (to_u32 timeout)"

definition delta32 :: "u64 \<Rightarrow> u64 \<Rightarrow> u32" where
  "delta32 time start = ucast (time - start)"

definition mev_ret :: "u64 \<Rightarrow> u64 \<Rightarrow> byte \<Rightarrow> byte list" where
  "mev_ret time start kind = [0xe2] @ le64 time @ le32 (delta32 time start) @ [kind]"

definition mev_delta :: "u64 \<Rightarrow> u64 \<Rightarrow> byte list" where
  "mev_delta time start = [0xe3] @ le64 time @ le32 (delta32 time start)"

definition mev_sendinfo :: "u64 \<Rightarrow> u64 \<Rightarrow> int \<Rightarrow> byte list" where
  "mev_sendinfo time start send_count = [0xe4] @ le64 time @ le32 (delta32 time start) @ le32 (to_u32 send_count)"

definition mev_delinfo :: "u64 \<Rightarrow> u64 \<Rightarrow> int \<Rightarrow> byte list" where
  "mev_delinfo time start del_count = [0xe5] @ le64 time @ le32 (delta32 time start) @ le32 (to_u32 del_count)"

datatype mev_call =
    Packet u64 int | Epoll u64 int int | Ret u64 u64 byte | Delta u64 u64
  | Sendinfo u64 u64 int | Delinfo u64 u64 int

fun mev_write :: "mev_call \<Rightarrow> byte list" where
  "mev_write (Packet t fd) = mev_packet t fd"
| "mev_write (Epoll t r tmo) = mev_epoll t r tmo"
| "mev_write (Ret t st k) = mev_ret t st k"
| "mev_write (Delta t st) = mev_delta t st"
| "mev_write (Sendinfo t st n) = mev_sendinfo t st n"
| "mev_write (Delinfo t st n) = mev_delinfo t st n"

section \<open>The reader\<close>

text \<open>A record as \<^verbatim>\<open>metrics.py\<close> unpacks it: type, time, and the signed fields, in order.\<close>

type_synonym mrec = "byte \<times> u64 \<times> int list"

definition get_int :: "byte list \<Rightarrow> (int \<times> byte list) option" where
  "get_int bs = map_option (\<lambda>(w, r). (to_int32 w, r)) (get_le32 bs)"

definition get_kind :: "byte list \<Rightarrow> (int \<times> byte list) option" where
  "get_kind bs = (case bs of [] \<Rightarrow> None | b # r \<Rightarrow> Some (sint b, r))"

text \<open>The record behind the type byte; \<open>None\<close> is \<open>struct.error\<close>, at the end of the file.\<close>

definition get_fields :: "byte \<Rightarrow> byte list \<Rightarrow> (int list \<times> byte list) option" where
  "get_fields mt bs = do {
     (a, bs) \<leftarrow> get_int bs;
     if mt = 0xe0 \<or> mt = 0xe3 then Some ([a], bs)
     else do { (b, bs) \<leftarrow> (if mt = 0xe2 then get_kind bs else get_int bs); Some ([a, b], bs) }
   }"

definition get_mev :: "byte list \<Rightarrow> (mrec \<times> byte list) option" where
  "get_mev bs = (case bs of [] \<Rightarrow> None
     | mt # bs \<Rightarrow> do {
         (time, bs) \<leftarrow> get_le64 bs;
         (fields, bs) \<leftarrow> get_fields mt bs;
         Some ((mt, time, fields), bs)
       })"

lemma freadle_Some: "freadle n bs = Some (x, r) \<longleftrightarrow> bs = x @ r \<and> length x = n"
  by (auto simp: freadle_def)

lemma get_le_Some:
  "get_le32 bs = Some (w, r) \<Longrightarrow> \<exists>x. bs = x @ r \<and> length x = 4 \<and> w = word_of_nat (le_dec x)"
  "get_le64 bs = Some (v, r) \<Longrightarrow> \<exists>x. bs = x @ r \<and> length x = 8 \<and> v = word_of_nat (le_dec x)"
  by (auto simp: get_le32_def get_le64_def freadle_Some)

text \<open>Parsers that look at no more than they take.\<close>

definition steady :: "(byte list \<Rightarrow> ('a \<times> byte list) option) \<Rightarrow> bool" where
  "steady f \<longleftrightarrow> (\<forall>bs x r ys. f bs = Some (x, r) \<longrightarrow> length r < length bs \<and> f (bs @ ys) = Some (x, r @ ys))"

lemma steadyD: "steady f \<Longrightarrow> f bs = Some (x, r) \<Longrightarrow> length r < length bs \<and> f (bs @ ys) = Some (x, r @ ys)"
  by (auto simp: steady_def)

lemma steady_basic: "steady get_le32" "steady get_le64" "steady get_int" "steady get_kind"
proof -
  show l32: "steady get_le32" and "steady get_le64"
    by (auto simp: steady_def dest!: get_le_Some) (simp_all add: get_le32_def get_le64_def)
  show "steady get_int" using l32 by (auto simp: steady_def get_int_def)
  show "steady get_kind" by (auto simp: steady_def get_kind_def split: list.splits)
qed

lemma steady_fields: "steady (get_fields mt)"
  unfolding steady_def
proof (intro allI impI)
  fix bs x r ys assume f: "get_fields mt bs = Some (x, r)"
  then obtain a bs1 where a: "get_int bs = Some (a, bs1)"
    by (auto simp: get_fields_def Option.bind_eq_Some_conv)
  note a' = steadyD[OF steady_basic(3) a]
  let ?g = "if mt = 0xe2 then get_kind else get_int"
  show "length r < length bs \<and> get_fields mt (bs @ ys) = Some (x, r @ ys)"
  proof (cases "mt = 0xe0 \<or> mt = 0xe3")
    case True
    with f a a' show ?thesis by (auto simp: get_fields_def)
  next
    case False
    then obtain b where b: "?g bs1 = Some (b, r)" "x = [a, b]"
      using f a by (auto simp: get_fields_def Option.bind_eq_Some_conv split: if_splits)
    have "steady ?g" using steady_basic by simp
    note b' = steadyD[OF this b(1), of ys]
    show ?thesis using False a'[of ys] b' b(2) by (auto simp: get_fields_def split: if_splits)
  qed
qed

lemma steady_mev: "steady get_mev"
  unfolding steady_def
proof (intro allI impI)
  fix bs x r ys assume g: "get_mev bs = Some (x, r)"
  then obtain mt bs1 t bs2 fs where s: "bs = mt # bs1" "get_le64 bs1 = Some (t, bs2)"
    "get_fields mt bs2 = Some (fs, r)" "x = (mt, t, fs)"
    by (auto simp: get_mev_def Option.bind_eq_Some_conv split: list.splits)
  show "length r < length bs \<and> get_mev (bs @ ys) = Some (x, r @ ys)"
    using steadyD[OF steady_basic(2) s(2), of ys] steadyD[OF steady_fields s(3), of ys] s
    by (simp add: get_mev_def)
qed

lemma get_mev_shrinks: "get_mev bs = Some (x, r) \<Longrightarrow> length r < length bs"
  using steadyD[OF steady_mev] by blast

text \<open>\<open>while True\<close>: \<open>None\<close> is the exit on an unknown type.\<close>

function read_mevs :: "byte list \<Rightarrow> mrec list option" where
  "read_mevs bs =
     (case bs of [] \<Rightarrow> Some []
      | mt # _ \<Rightarrow>
          if mt < 0xe0 \<or> 0xe5 < mt then None
          else case get_mev bs of None \<Rightarrow> Some []
          | Some (x, r) \<Rightarrow> map_option ((#) x) (read_mevs r))"
  by pat_completeness auto
termination
  by (relation "measure length") (auto dest: get_mev_shrinks)

declare read_mevs.simps [simp del]

definition read_metrics :: "byte list \<Rightarrow> (int \<times> mrec list) option" where
  "read_metrics bs = do { (ct, bs) \<leftarrow> get_int bs; xs \<leftarrow> read_mevs bs; Some (ct, xs) }"

section \<open>Round trip\<close>

text \<open>What a call means: its durations modulo \<open>2^32\<close>.\<close>

fun mev_meaning :: "mev_call \<Rightarrow> mrec" where
  "mev_meaning (Packet t fd) = (0xe0, t, [fd])"
| "mev_meaning (Epoll t r tmo) = (0xe1, t, [r, tmo])"
| "mev_meaning (Ret t st k) = (0xe2, t, [to_int32 (delta32 t st), sint k])"
| "mev_meaning (Delta t st) = (0xe3, t, [to_int32 (delta32 t st)])"
| "mev_meaning (Sendinfo t st n) = (0xe4, t, [to_int32 (delta32 t st), n])"
| "mev_meaning (Delinfo t st n) = (0xe5, t, [to_int32 (delta32 t st), n])"

fun mev_ints :: "mev_call \<Rightarrow> bool" where
  "mev_ints (Packet t fd) = int_ok fd"
| "mev_ints (Epoll t r tmo) = (int_ok r \<and> int_ok tmo)"
| "mev_ints (Sendinfo t st n) = int_ok n"
| "mev_ints (Delinfo t st n) = int_ok n"
| "mev_ints c = True"

lemma get_int_le32 [simp]: "get_int (le32 w @ rest) = Some (to_int32 w, rest)" "get_int (le32 w) = Some (to_int32 w, [])"
  using le32.dec_enc[of w rest] le32.dec_enc[of w "[]"] by (simp_all add: get_int_def)

lemma get_kind_Cons [simp]: "get_kind (k # rest) = Some (sint k, rest)"
  by (simp add: get_kind_def)

lemma get_mev_write: "mev_ints c \<Longrightarrow> get_mev (mev_write c @ rest) = Some (mev_meaning c, rest)"
  by (cases c) (simp_all add: get_mev_def get_fields_def le64.dec_enc to_int32_to_u32 mev_packet_def mev_epoll_def
      mev_ret_def mev_delta_def mev_sendinfo_def mev_delinfo_def)

text \<open>The records of a file, cut anywhere inside the last one.\<close>

lemma mev_write_tag: "\<exists>mt r. mev_write c = mt # r \<and> \<not> mt < 0xe0 \<and> \<not> 0xe5 < mt"
  by (cases c) (simp_all add: mev_packet_def mev_epoll_def mev_ret_def mev_delta_def mev_sendinfo_def mev_delinfo_def)

lemma read_mevs_write:
  "mev_ints c \<Longrightarrow> read_mevs (mev_write c @ rest) = map_option ((#) (mev_meaning c)) (read_mevs rest)"
proof -
  assume c: "mev_ints c"
  obtain mt r where "mev_write c = mt # r" "\<not> mt < 0xe0" "\<not> 0xe5 < mt" using mev_write_tag by blast
  then show ?thesis using get_mev_write[OF c, of rest] by (subst read_mevs.simps) simp
qed

lemma read_mevs_cut:
  assumes "mev_ints c" "strict_prefix part (mev_write c)"
  shows "read_mevs part = Some []"
proof (cases part)
  case Nil
  then show ?thesis by (subst read_mevs.simps) simp
next
  case (Cons b bs)
  obtain mt r where w: "mev_write c = mt # r" "\<not> mt < 0xe0" "\<not> 0xe5 < mt" using mev_write_tag by blast
  obtain more where m: "mev_write c = part @ more" "more \<noteq> []" using assms(2) by (auto simp: strict_prefix_def prefix_def)
  have "get_mev part = None"
  proof (rule ccontr)
    assume "get_mev part \<noteq> None"
    then obtain x q where "get_mev part = Some (x, q)" by auto
    then have "get_mev (mev_write c) = Some (x, q @ more)" using steadyD[OF steady_mev] m(1) by simp
    then show False using get_mev_write[OF assms(1), of "[]"] m(2) by simp
  qed
  moreover have "b = mt" using m(1) w(1) Cons by simp
  ultimately show ?thesis using w Cons by (subst read_mevs.simps) simp
qed



end
