(* ===== verification/Resize.thy ===== *)
theory Resize
  imports Queues
begin

text \<open>
  \<open>not_supported_resize\<close> of \<^verbatim>\<open>queue.c\<close>, which no code calls and whose author doubts it: under the mutex it
  trims the queue when it shrinks, reallocates the array, and unrolls the ring into the new places when
  it grows. As in theory Queues whole items are moved. \<open>mem\<close> is what \<open>realloc\<close> finds behind the old
  array, or \<open>None\<close> when it fails.
\<close>

text \<open>\<open>memmove\<close> (and \<open>memcpy\<close>) inside the array; a place outside it, or a negative size, is undefined.\<close>

definition move_items :: "int \<Rightarrow> int \<Rightarrow> int \<Rightarrow> 'a list \<Rightarrow> 'a list option" where
  "move_items dst src n xs =
     (if 0 \<le> n \<and> 0 \<le> src \<and> src + n \<le> int (length xs) \<and> 0 \<le> dst \<and> dst + n \<le> int (length xs)
      then Some (take (nat dst) xs @ take (nat n) (drop (nat src) xs) @ drop (nat (dst + n)) xs)
      else None)"

definition resize_trim :: "int \<Rightarrow> int \<Rightarrow> 'a queue \<Rightarrow> 'a queue option" where
  "resize_trim delta target q =
     (if delta < 0 \<and> q_start q \<noteq> -1 then do {
        x \<leftarrow> cadd (q_capacity q) (q_next q);
        x \<leftarrow> csub x (q_start q);
        x \<leftarrow> csub x 1;
        x \<leftarrow> cmod x (q_capacity q);
        x \<leftarrow> cadd 1 x;
        let new_length = min target x;
        n \<leftarrow> cadd (q_start q) new_length;
        n \<leftarrow> cmod n (q_capacity q);
        let q = q\<lparr>q_next := n\<rparr>;
        if q_next q < q_start q then do {
          loc \<leftarrow> cadd (q_start q) delta;
          len \<leftarrow> csub (q_capacity q) (q_start q);
          items \<leftarrow> move_items (q_start q) loc len (q_items q);
          Some (q\<lparr>q_items := items, q_start := loc\<rparr>)
        } else if q_start q < q_next q then do {
          items \<leftarrow> move_items 0 (q_start q) new_length (q_items q);
          n \<leftarrow> csub (q_next q) (q_start q);
          Some (q\<lparr>q_items := items, q_next := n, q_start := 0\<rparr>)
        } else Some q
      } else Some q)"

definition resize_unroll :: "int \<Rightarrow> int \<Rightarrow> 'a queue \<Rightarrow> 'a queue option" where
  "resize_unroll delta target q =
     (if 0 < delta \<and> q_start q \<noteq> -1 \<and> q_next q \<le> q_start q then do {
        let to_move = min delta (q_start q);
        items \<leftarrow> move_items (q_capacity q) 0 to_move (q_items q);
        items \<leftarrow> (if to_move < q_next q then move_items 0 to_move (q_next q - to_move) items else Some items);
        n \<leftarrow> cadd target (q_next q);
        n \<leftarrow> csub n to_move;
        n \<leftarrow> cmod n target;
        Some (q\<lparr>q_items := items, q_next := n\<rparr>)
      } else Some q)"

definition not_supported_resize :: "'a list option \<Rightarrow> int \<Rightarrow> 'a queue \<Rightarrow> ('a queue \<times> int) option" where
  "not_supported_resize mem target q = do {
     delta \<leftarrow> csub target (q_capacity q);
     q \<leftarrow> resize_trim delta target q;
     case mem of None \<Rightarrow> Some (q, 0)
     | Some fresh \<Rightarrow> do {
         q \<leftarrow> resize_unroll delta target (q\<lparr>q_items := take (nat target) (q_items q @ fresh)\<rparr>);
         Some (q\<lparr>q_capacity := target\<rparr>, 1)
       }
   }"

section \<open>Growing\<close>

lemma move_items_nth:
  assumes "a + m \<le> length xs" "d + m \<le> length xs"
  obtains ys where "move_items (int d) (int a) (int m) xs = Some ys" "length ys = length xs"
    "\<And>i. i < length xs \<Longrightarrow> ys ! i = (if d \<le> i \<and> i < d + m then xs ! (a + (i - d)) else xs ! i)"
proof -
  let ?ys = "take d xs @ take m (drop a xs) @ drop (d + m) xs"
  have "?ys ! i = (if d \<le> i \<and> i < d + m then xs ! (a + (i - d)) else xs ! i)" if "i < length xs" for i
    using assms that by (auto simp: nth_append)
  moreover have "move_items (int d) (int a) (int m) xs = Some ?ys"
    using assms by (simp add: move_items_def nat_add_distrib flip: of_nat_add)
  moreover have "length ?ys = length xs" using assms by simp
  ultimately show thesis by (rule that[rotated 2])
qed

text \<open>The ring in an array that was enlarged by \<open>d\<close> places, no more than those before its start.\<close>

lemma unroll_ring:
  fixes c d s n :: nat
  assumes "n \<le> s" "s < c" "d \<le> s" "0 < d" "length xs = c + d" "int (c + d) < 2 ^ 30"
  shows "\<exists>ys. resize_unroll (int d) (int (c + d)) \<lparr>q_item_size = z, q_capacity = int c, q_start = int s, q_next = int n, q_items = xs\<rparr>
      = Some \<lparr>q_item_size = z, q_capacity = int c, q_start = int s, q_next = int ((c + n) mod (c + d)), q_items = ys\<rparr> \<and>
    length ys = c + d \<and> (\<forall>k < c + n - s. ys ! ((s + k) mod (c + d)) = xs ! ((s + k) mod c))"
proof -
  obtain y1 where y1: "move_items (int c) (int 0) (int d) xs = Some y1" "length y1 = length xs"
    "\<And>i. i < length xs \<Longrightarrow> y1 ! i = (if c \<le> i \<and> i < c + d then xs ! (0 + (i - c)) else xs ! i)"
    using move_items_nth[of 0 d xs c] assms(2,3,5) by auto
  obtain ys where ys: "(if d < n then move_items 0 (int d) (int n - int d) y1 else Some y1) = Some ys"
    "length ys = c + d"
    "\<And>i. i < c + d \<Longrightarrow> ys ! i = (if i + d < n then y1 ! (d + i) else y1 ! i)"
  proof (cases "d < n")
    case True
    have "d + (n - d) \<le> length y1" "0 + (n - d) \<le> length y1" using assms(1,2,5) y1(2) by simp_all
    from move_items_nth[OF this] obtain ys where
      "move_items (int 0) (int d) (int (n - d)) y1 = Some ys" "length ys = length y1"
      "\<And>i. i < length y1 \<Longrightarrow> ys ! i = (if 0 \<le> i \<and> i < 0 + (n - d) then y1 ! (d + (i - 0)) else y1 ! i)" by blast
    with True show ?thesis using y1(2) assms(5) by (intro that[of ys]) (auto simp: of_nat_diff less_diff_conv)
  next
    case False
    with y1(2) assms(5) show ?thesis by (intro that[of y1]) auto
  qed
  have "int ((c + n) mod (c + d)) = (int (c + d) + int n - int d) mod int (c + d)"
    by (simp add: zmod_int)
  moreover have "cmod (int (c + d) + int n - int d) (int (c + d)) = Some ((int (c + d) + int n - int d) mod int (c + d))"
    by (rule cmod_Some) (use assms in \<open>auto simp: int_ok_def\<close>)
  moreover have "int_ok (int (c + d) + int n)" "int_ok (int (c + d) + int n - int d)"
    using assms by (auto simp: int_ok_def)
  ultimately have r: "resize_unroll (int d) (int (c + d))
        \<lparr>q_item_size = z, q_capacity = int c, q_start = int s, q_next = int n, q_items = xs\<rparr>
      = Some \<lparr>q_item_size = z, q_capacity = int c, q_start = int s, q_next = int ((c + n) mod (c + d)), q_items = ys\<rparr>"
    using assms(1,3,4) y1(1) ys(1) by (auto simp: resize_unroll_def Let_def min_def split: if_splits)
  have "ys ! ((s + k) mod (c + d)) = xs ! ((s + k) mod c)" if k: "k < c + n - s" for k
  proof -
    consider "s + k < c" | "c \<le> s + k" "s + k < c + d" | "c + d \<le> s + k" by linarith
    then show ?thesis
    proof cases
      case 1
      with assms k y1(3) ys(3) show ?thesis by auto
    next
      case 2
      with assms k y1(3) ys(3) show ?thesis by (auto simp: mod_if)
    next
      case 3
      then have "(s + k) mod (c + d) = s + k - (c + d)" "(s + k) mod c = s + k - c"
        using assms k by (auto simp: mod_if)
      with 3 assms k y1(3) ys(3) show ?thesis by auto
    qed
  qed
  with r ys(2) show ?thesis by blast
qed

lemma q_list_ring:
  assumes "n \<le> s" "s < c"
  shows "q_list \<lparr>q_item_size = z, q_capacity = int c, q_start = int s, q_next = int n, q_items = xs\<rparr>
    = map (\<lambda>k. xs ! ((s + k) mod c)) [0..<c + n - s]"
  using assms by (simp add: q_list_def q_length_def nat_diff_distrib' flip: of_nat_add)

lemma q_list_straight:
  assumes "s < n" "n < c"
  shows "q_list \<lparr>q_item_size = z, q_capacity = int c, q_start = int s, q_next = int n, q_items = xs\<rparr>
    = map (\<lambda>k. xs ! (s + k)) [0..<n - s]"
  using assms by (auto simp: q_list_def q_length_def nat_diff_distrib' intro!: map_cong)

abbreviation (input) ring :: "int \<Rightarrow> nat \<Rightarrow> int \<Rightarrow> int \<Rightarrow> 'a list \<Rightarrow> 'a queue" where
  "ring z c s n xs \<equiv> \<lparr>q_item_size = z, q_capacity = int c, q_start = s, q_next = n, q_items = xs\<rparr>"

text \<open>The three shapes of a queue: empty, in one piece, and around the end of the array.\<close>

lemma wf_queue_cases:
  assumes "wf_queue (q :: 'a queue)"
  obtains (empty) z c xs where "q = ring z c (-1) 0 xs" "length xs = c" "0 < c"
    | (straight) z c s n xs where "q = ring z c (int s) (int n) xs" "length xs = c" "s < n" "n < c"
    | (around) z c s n xs where "q = ring z c (int s) (int n) xs" "length xs = c" "n \<le> s" "s < c"
proof -
  let ?c = "length (q_items q)" let ?s = "nat (q_start q)" let ?n = "nat (q_next q)"
  have c: "q_capacity q = int ?c" "0 < ?c" using assms by (auto simp: wf_queue_def)
  consider "q_start q = -1" "q_next q = 0" | "q_start q = int ?s" "q_next q = int ?n" "?s < ?c" "?n < ?c"
    using assms by (auto simp: wf_queue_def)
  then show thesis
  proof cases
    case 1
    with c show ?thesis by (intro empty[of "q_item_size q" ?c "q_items q"]) simp_all
  next
    case 2
    then have q: "q = ring (q_item_size q) ?c (int ?s) (int ?n) (q_items q)" using c by simp
    show ?thesis
    proof (cases "?s < ?n")
      case True
      show ?thesis by (rule straight[OF q refl True 2(4)])
    next
      case False
      then have "?n \<le> ?s" by (rule leI)
      then show ?thesis by (rule around[OF q refl _ 2(3)])
    qed
  qed
qed

lemma resize_more:
  assumes "int (c + d) < 2 ^ 30" "length xs = c" "length mem = d"
  shows "not_supported_resize (Some mem) (int (c + d)) (ring z c s n xs)
    = map_option (\<lambda>q. (q\<lparr>q_capacity := int (c + d)\<rparr>, 1)) (resize_unroll (int d) (int (c + d)) (ring z c s n (xs @ mem)))"
proof -
  have "int_ok (int d)" "take (nat (int c + int d)) (xs @ mem) = xs @ mem" using assms by (simp_all add: int_ok_def)
  then show ?thesis
    by (cases "resize_unroll (int d) (int (c + d)) (ring z c s n (xs @ mem))")
      (simp_all add: not_supported_resize_def resize_trim_def)
qed

text \<open>What \<open>not_supported_resize\<close> does when it grows a queue that goes around, by more than there is room for.\<close>

lemma unroll_junk:
  fixes c d s n :: nat
  assumes "n \<le> s" "s < c" "s < d" "length xs = c + d" "int (c + d) < 2 ^ 30"
  shows "\<exists>ys. resize_unroll (int d) (int (c + d)) \<lparr>q_item_size = z, q_capacity = int c, q_start = int s, q_next = int n, q_items = xs\<rparr>
      = Some \<lparr>q_item_size = z, q_capacity = int c, q_start = int s,
          q_next = int (if n = s then 0 else c + d + n - s), q_items = ys\<rparr> \<and> length ys = c + d"
proof -
  obtain y1 where y1: "move_items (int c) (int 0) (int s) xs = Some y1" "length y1 = length xs"
    using move_items_nth[of 0 s xs c] assms by auto
  have "cmod (int (c + d) + int n - int s) (int (c + d)) = Some ((int (c + d) + int n - int s) mod int (c + d))"
    by (rule cmod_Some) (use assms in \<open>auto simp: int_ok_def\<close>)
  moreover have "(int (c + d) + int n - int s) mod int (c + d) = int (if n = s then 0 else c + d + n - s)"
    using assms by (auto simp: of_nat_diff)
  moreover have "int_ok (int (c + d) + int n)" "int_ok (int (c + d) + int n - int s)"
    using assms by (auto simp: int_ok_def)
  ultimately show ?thesis
    using assms y1 by (simp add: resize_unroll_def Let_def min_def del: of_nat_add)
qed

text \<open>Growing the queue keeps its contents exactly when it lies in one piece, or goes around the end of
  the array but starts behind as many places as are added. Otherwise the array is still in order, but
  the queue has become longer by places that nothing was put into.\<close>

theorem resize_grows:
  assumes wf: "wf_queue q" and t: "q_capacity q < target" "target < 2 ^ 30"
    and mem: "length mem = nat (target - q_capacity q)"
  shows "\<exists>q'. not_supported_resize (Some mem) target q = Some (q', 1) \<and> wf_queue q' \<and> q_capacity q' = target \<and>
    (q_list q' = q_list q \<longleftrightarrow> q_start q < q_next q \<or> target - q_capacity q \<le> q_start q)"
proof -
  define d where "d = nat (target - q_capacity q)"
  have d: "target = q_capacity q + int d" "0 < d" "length mem = d" using t mem by (simp_all add: d_def)
  from wf show ?thesis
  proof (cases rule: wf_queue_cases)
    case (empty z c xs)
    have c: "int (c + d) < 2 ^ 30" "target = int (c + d)" using t d(1) by (simp_all add: empty)
    show ?thesis
      unfolding c(2) empty(1) resize_more[OF c(1) empty(2) d(3)]
      by (rule exI[of _ "ring z (c + d) (-1) 0 (xs @ mem)"])
        (use c empty d in \<open>simp add: resize_unroll_def wf_queue_def q_list_def q_length_def\<close>)
  next
    case (straight z c s n xs)
    have c: "int (c + d) < 2 ^ 30" "target = int (c + d)" using t d(1) by (simp_all add: straight)
    have "q_list (ring z (c + d) (int s) (int n) (xs @ mem)) = q_list (ring z c (int s) (int n) xs)"
      using straight q_list_straight[of s n "c + d" z "xs @ mem"] q_list_straight[of s n c z xs]
      by (auto simp: nth_append)
    then show ?thesis
      unfolding c(2) straight(1) resize_more[OF c(1) straight(2) d(3)]
      by (intro exI[of _ "ring z (c + d) (int s) (int n) (xs @ mem)"])
        (use c straight d in \<open>simp add: resize_unroll_def wf_queue_def\<close>)
  next
    case (around z c s n xs)
    have c: "int (c + d) < 2 ^ 30" "target = int (c + d)" using t d(1) by (simp_all add: around)
    have len: "length (xs @ mem) = c + d" using around d by simp
    show ?thesis
    proof (cases "d \<le> s")
      case True
      from unroll_ring[OF around(3,4) True d(2) len c(1), of z] obtain ys where y:
        "resize_unroll (int d) (int (c + d)) (ring z c (int s) (int n) (xs @ mem))
          = Some (ring z c (int s) (int ((c + n) mod (c + d))) ys)" "length ys = c + d"
        "\<forall>k < c + n - s. ys ! ((s + k) mod (c + d)) = (xs @ mem) ! ((s + k) mod c)" by blast
      have "q_list (ring z (c + d) (int s) (int ((c + n) mod (c + d))) ys) = q_list (ring z c (int s) (int n) xs)"
      proof -
        have "q_list (ring z (c + d) (int s) (int ((c + n) mod (c + d))) ys)
            = map (\<lambda>k. ys ! ((s + k) mod (c + d))) [0..<c + n - s]"
        proof (cases "n < d")
          case True
          then show ?thesis using around q_list_straight[of s "c + n" "c + d" z ys] by auto
        next
          case False
          then have "(c + n) mod (c + d) = n - d" using around by (simp add: mod_if)
          with False around True d(2) q_list_ring[of "n - d" s "c + d" z ys] show ?thesis by simp
        qed
        also have "\<dots> = map (\<lambda>k. xs ! ((s + k) mod c)) [0..<c + n - s]"
          using y(3) around by (auto simp: nth_append)
        finally show ?thesis by (simp only: q_list_ring[OF around(3,4)])
      qed
      moreover have "int ((c + n) mod (c + d)) < int c + int d" using d(2) by (simp flip: of_nat_add)
      ultimately show ?thesis
        unfolding c(2) around(1) resize_more[OF c(1) around(2) d(3)] y(1)
        by (intro exI[of _ "ring z (c + d) (int s) (int ((c + n) mod (c + d))) ys"])
          (use c around d y(2) True in \<open>simp add: wf_queue_def\<close>)
    next
      case False
      then have "s < d" by simp
      from unroll_junk[OF around(3,4) this len c(1), of z] obtain ys where y:
        "resize_unroll (int d) (int (c + d)) (ring z c (int s) (int n) (xs @ mem))
          = Some (ring z c (int s) (int (if n = s then 0 else c + d + n - s)) ys)" "length ys = c + d" by blast
      have "length (q_list (ring z (c + d) (int s) (int (if n = s then 0 else c + d + n - s)) ys))
          \<noteq> length (q_list (ring z c (int s) (int n) xs))"
        using around False by (auto simp: q_length_def)
      then have "q_list (ring z (c + d) (int s) (int (if n = s then 0 else c + d + n - s)) ys)
          \<noteq> q_list (ring z c (int s) (int n) xs)" by metis
      with y show ?thesis
        unfolding c(2) around(1) resize_more[OF c(1) around(2) d(3)]
        by (intro exI[of _ "ring z (c + d) (int s) (int (if n = s then 0 else c + d + n - s)) ys"])
          (use c around d False in \<open>auto simp: wf_queue_def\<close>)
    qed
  qed
qed

text \<open>Three items around the end of an array of four, grown by two.\<close>

theorem resize_grows_witness:
  "\<exists>q'. not_supported_resize (Some [0, 0]) 6 (ring 8 4 3 2 [1 :: int, 2, 7, 9]) = Some (q', 1) \<and> q_list q' = [9, 1, 2]"
proof -
  have "wf_queue (ring 8 4 3 2 [1 :: int, 2, 7, 9])" by (simp add: wf_queue_def)
  moreover have "q_list (ring 8 4 3 2 [1 :: int, 2, 7, 9]) = [9, 1, 2]" by code_simp
  ultimately show ?thesis
    using resize_grows[of "ring 8 4 3 2 [1 :: int, 2, 7, 9]" 6 "[0, 0]"] by fastforce
qed

section \<open>Shrinking\<close>

text \<open>A queue that has to be trimmed when it shrinks keeps its oldest items if they lie in one piece, but
  \<open>next_idx\<close> is left behind the array instead of at its start: the full queue is not taken for full, and
  the next \<open>queue_put\<close> does not wait and writes outside the array.\<close>

theorem resize_trim_overflows:
  assumes "wf_queue q" "q_start q \<noteq> -1" "0 < target" "target < q_capacity q" "q_capacity q < 2 ^ 30"
    and "nat target \<le> length (q_list q)" "q_start q + target < q_capacity q"
  shows "\<exists>q'. not_supported_resize (Some mem) target q = Some (q', 1) \<and> q_list q' = take (nat target) (q_list q) \<and>
    \<not> queue_full q' \<and> queue_put_body x q' = None"
proof -
  obtain z c s n xs t where q: "q = ring z c (int s) (int n) xs" "length xs = c" "s < c" "n < c" "target = int t"
    using assms(1-3) by (cases rule: wf_queue_cases; cases target) auto
  have b: "0 < t" "s + t < c" "int c < 2 ^ 30" using assms(3,5,7) by (simp_all add: q)
  have l: "1 + (int c + int n - int s - 1) mod int c = int (length (q_list q))"
  proof (cases "s < n")
    case True
    have "(int c + int n - int s - 1) mod int c = (int n - int s - 1 + int c) mod int c" by (simp add: algebra_simps)
    also have "\<dots> = int n - int s - 1" using True q(4) by simp
    finally show ?thesis using True q(4) by (simp add: q(1) q_length_def)
  next
    case False
    with q(3,4) have "(int c + int n - int s - 1) mod int c = int c + int n - int s - 1" by simp
    then show ?thesis using False q(3,4) by (simp add: q(1) q_length_def)
  qed
  then have m: "min (int t) (1 + (int c + int n - int s - 1) mod int c) = int t" using assms(6) q(5) by simp
  have "(int c + int n - int s - 1) mod int c < 2 ^ 30"
    using pos_mod_bound[of "int c" "int c + int n - int s - 1"] b by linarith
  then have ok: "int_ok (int c + int n)" "int_ok (int c + int n - int s)" "int_ok (int c + int n - int s - 1)"
    "int_ok (int s + int t)" "int_ok (int t - int c)" "int_ok (1 + (int c + int n - int s - 1) mod int c)" "int_ok (int c)" "int_ok (int t)"
    using q b by (simp_all add: int_ok_def)
  have "s + t \<le> length xs" "0 + t \<le> length xs" using b q(2) by simp_all
  from move_items_nth[OF this] obtain ys where ys: "move_items (int 0) (int s) (int t) xs = Some ys"
    "length ys = length xs" "\<And>i. i < length xs \<Longrightarrow> ys ! i = (if 0 \<le> i \<and> i < 0 + t then xs ! (s + (i - 0)) else xs ! i)" by blast
  have r: "not_supported_resize (Some mem) target q = Some (ring z t 0 (int t) (take t ys), 1)"
    using q b ok m ys by (simp add: not_supported_resize_def resize_trim_def resize_unroll_def)
  have "q_list (ring z t 0 (int t) (take t ys)) = take t (q_list q)"
  proof (rule nth_equalityI)
    fix i assume "i < length (q_list (ring z t 0 (int t) (take t ys)))"
    then have i: "i < t" using b by (simp add: q_length_def)
    then show "q_list (ring z t 0 (int t) (take t ys)) ! i = take t (q_list q) ! i"
      using assms(6) b q ys(2,3) by (simp add: q_list_def q_length_def)
  qed (use assms(6) b q in \<open>simp add: q_length_def\<close>)
  moreover have "queue_put_body x (ring z t 0 (int t) (take t ys)) = None"
    using ys(2) q(2) b by (simp add: queue_put_body_def arr_set_def in_arr_def)
  ultimately show ?thesis
    using r b q(5) by (intro exI[of _ "ring z t 0 (int t) (take t ys)"]) (simp add: queue_full_def)
qed

text \<open>Three items in an array of four, shrunk to two.\<close>

theorem resize_trim_overflows_witness:
  "\<exists>q'. not_supported_resize (Some []) 2 (ring 8 4 0 3 [5 :: int, 6, 7, 0]) = Some (q', 1) \<and>
    \<not> queue_full q' \<and> queue_put_body 8 q' = None"
proof -
  have "wf_queue (ring 8 4 0 3 [5 :: int, 6, 7, 0])" by (simp add: wf_queue_def)
  moreover have "length (q_list (ring 8 4 0 3 [5 :: int, 6, 7, 0])) = 3" by (simp add: q_length_def)
  ultimately show ?thesis
    using resize_trim_overflows[of "ring 8 4 0 3 [5 :: int, 6, 7, 0]" 2 "[]" 8] by auto
qed

end
