(* ===== verification/Spec2Isabelle.thy ===== *)
theory Spec2Isabelle
  imports Builtin Testers Utils Queue_Monitor Cba_Limits Rfb X11 Cookie Args_Props Scanner_Live Metrics Program Resize
begin

text \<open>
  \<^bold>\<open>cscan: a verification development.\<close>

  cscan sends TCP connection attempts to random addresses at a steady rate, keeps the pending sockets in
  a table, and passes those that connect through a queue to a worker, whose modules look at the service
  and write what they find to a result file. The parts, and the theories that model them:

  \<^item> \<^bold>\<open>Targets.\<close> \<^verbatim>\<open>compile-targets.py\<close> compiles address ranges and port weights to \<^verbatim>\<open>.csw\<close> and \<^verbatim>\<open>.csp\<close> files
    (Csw); \<^verbatim>\<open>target.c\<close> loads them, or builds a port table from a portspec (Portspec), and draws targets
    (Targets) with the random words of \<^verbatim>\<open>rand.c\<close> (Rand). Sampling shows what the parts give together:
    every address is drawn by the same number of random words, a written file is read back to a table
    whose \<open>r\<close>-th index is the \<open>r\<close>-th address, and what happens to truncated files and bad portspecs.
    Builtin_Data is the table of \<^verbatim>\<open>hardcoded.c\<close>, checked range by range; Builtin shows what it draws.
  \<^item> \<^bold>\<open>The scanner\<close>, \<open>conn_thread\<close> of \<^verbatim>\<open>cscan.c\<close>: Args has the options and \<open>parse_args\<close>, Scanner the loop,
    Socket_List the table of pending sockets (\<^verbatim>\<open>socket_list.c\<close>), Sockets the socket calls
    (\<^verbatim>\<open>socket_utils.c\<close>), Ip4 the addresses as text, Log the scanner's own entries (\<^verbatim>\<open>log.c\<close>). Args_Props,
    Scanner_Inv, Scanner_Loop, Scanner_Props and Scanner_Live hold the proofs.
  \<^item> \<^bold>\<open>The program\<close>, \<open>main\<close> of \<^verbatim>\<open>cscan.c\<close>, is in Program: the parts in the order it calls them, and a run with a
    result file followed from the command line to what the report script prints.
  \<^item> \<^bold>\<open>The queue\<close> of \<^verbatim>\<open>queue.c\<close>: Queues has the ring buffer under the mutex, Queue_Monitor the mutex, the two
    condition variables and any number of threads as a step relation, Resize the unused function that
    resizes the queue.
  \<^item> \<^bold>\<open>The worker\<close>, \<open>process_thread\<close> of \<^verbatim>\<open>cscan.c\<close>, and the other modes of \<open>main\<close>, which print targets or read
    them (Worker); Stats adds up what the log reports. What \<open>main\<close> does first, such as detaching the process,
    is in Setup, with the clocks of \<^verbatim>\<open>utils.c\<close>. Then there are \<^verbatim>\<open>modules/modules.c\<close> and \<^verbatim>\<open>modules/print.c\<close> (Modules); the probes
    \<^verbatim>\<open>modules/rfb.c\<close> (Rfb) and \<^verbatim>\<open>modules/x11.c\<close> (X11), the filter \<^verbatim>\<open>modules/cookie.c\<close> (Cookie), the sockets
    with or without TLS they use, \<^verbatim>\<open>modules/ts.c\<close> (Ts), and what they share (Module_Ctx).
  \<^item> \<^bold>\<open>The result file.\<close> \<^verbatim>\<open>cba.c\<close> writes packets of several threads into one file (Cba), \<^verbatim>\<open>cba_reader.py\<close>
    reads them (Cba_Reader). Cba_Packets is the format, Cba_Roundtrip shows that reading undoes writing,
    Cba_Limits where it does not. Metrics has the second file, of builds with \<^verbatim>\<open>METRICS\<close>: \<^verbatim>\<open>metrics.c\<close>
    writes it and \<^verbatim>\<open>metrics.py\<close> reads it. Report and Report_Again have \<^verbatim>\<open>cba_reader_cscan.py\<close>, which shows
    the statistics and the results, and follow the numbers from the scanner to what it prints.
  \<^item> \<^bold>\<open>Tests.\<close> Testers runs the test programs of the repository on the model. Utils has \<open>freadle\<close> and \<open>fwritele\<close> on
    hosts of either byte order, and \<open>ts_init\<close>.
  \<^item> Prelude has the integers of C, checked array access and little-endian numbers, Cstr the parts of C's
    string library, Outcome computations that may end the process.

  \<^bold>\<open>How the code is modelled.\<close> A struct, or the static and thread-local variables of a file, is a record; a
  function is a function of the same name that passes the state on; a loop with other code inside is a
  function of its own named after its C function. An \<open>int\<close> is an \<open>int\<close> with the range checked at each
  operation (\<open>cadd\<close>, \<open>cmul\<close>, \<dots>), unsigned types are words. \<open>None\<close> is undefined behaviour: an \<open>int\<close>
  overflow, a division by zero, an access outside an array, an indeterminate value that is used. A
  return value that reports an error is a value of the model.

  The operating system, the random device, the TLS library, \<open>malloc\<close>, uninitialised memory, files and the
  interrupt flag are parameters: records of functions (\<open>os\<close>, \<open>rng\<close>, \<open>tls\<close>, \<open>sys\<close>) on a world of any type.
  What a proof needs of them is a named hypothesis, such as \<open>tracks_fds\<close> (a descriptor returned is new,
  and closing removes it), \<open>reads_bounded\<close> (no more bytes than asked for), \<open>sys_ok\<close> (which also says that
  \<open>epoll_wait\<close> reports watched descriptors, each once, and that the clock does not go back); each theorem
  with such a hypothesis is applied to a simulated system.

  \<^bold>\<open>Interfaces.\<close> \<open>bounded_fifo\<close> (Queues) is what the worker and the scanner may expect of the queue, shown of
  the ring buffer; \<open>uniform_pick\<close> (Targets) is what the look-up of a drawn index promises, shown of the
  address and the port table; \<open>codec\<close> (Prelude) is a pair of an encoder and a parser, shown of the
  numbers of the file formats. The table of pending sockets is related to a list of entries in
  the order of insertion (Socket_List); the writer is related to a list of packets (Cba_Roundtrip).

  \<^bold>\<open>Loops and bounds.\<close> Loops over data recurse on it, or on a measure. Three loops of the code need not
  end: \<open>gen_rand32\<close>, the search in \<open>random_ip\<close> and the TLS calls are \<open>partial_function\<close>s, and when
  they return is shown. The two loops of \<open>conn_thread\<close> have fuel, and running out of it is the outcome
  \<open>Spinning\<close>: one attempt per free place is enough for \<open>fill_loop\<close> where connections stay
  pending (\<open>fill_loop_ends\<close>), so that an interrupt ends the scan (\<open>interrupt_returns\<close>), and no amount is
  where each fails at once (\<open>unreachable_never_returns\<close>); the walk of \<open>expire\<close> has the number of
  sockets in the table, which is enough (\<open>expire_ok\<close>); \<open>conn_loop\<close> has the number of rounds, since the user ends it. \<open>list_loop\<close> is the first \<open>n\<close> rounds of a loop without an end.
  The theorems about the scanner hold below \<open>2^31\<close> packets, where the counters of the code overflow.

  \<^bold>\<open>The modes together.\<close> The queue is first-in first-out for any interleaving and loses no wake-up
  (Queue_Monitor), so Worker runs the worker on the sequence of what was queued, in its own world, after
  the other thread. The result file is the calls of all threads in any order (Cba_Roundtrip).

  \<^bold>\<open>Not modelled:\<close> lines on standard error and the help texts; the calls of \<^verbatim>\<open>metrics.c\<close> inside the scanner in a
  build with \<^verbatim>\<open>METRICS\<close>; \<open>epoll_create1\<close> and the allocation of the event array; freeing of memory;
  big-endian builds, but for \<open>freadle\<close> and \<open>fwritele\<close>; the parser of target
  specifications, a submodule that is not part of the sources; dates, and the parts of the Python
  scripts that draw and print; the two ends of the network test of the TLS sockets.
\<close>

end
